(* ===== verification/Prelude.thy ===== *)
theory Prelude
  imports
    Main
    "HOL-Library.AList"
    "HOL-Library.Char_ord"
    "HOL-Library.List_Lexorder"
    "HOL-Library.Multiset"
begin

text \<open>
  What every component shares: the outcome of a Rust function that may return, fail or panic;
  the parts of the Rust standard library the code uses on strings; ordered maps
  (\<^verbatim>\<open>BTreeMap\<close>) and hash maps (\<^verbatim>\<open>HashMap\<close>) as association
  lists, with the contract their clients rely on stated as a locale and discharged for both.

  A Rust \<^verbatim>\<open>String\<close> is the list of its UTF-8 bytes. Every character class the
  code tests is an ASCII class, and no byte of a multi-byte character lies in one, so working on
  bytes and working on characters give the same answer. Case folding and trimming are those of
  ASCII text.
\<close>

section \<open>Outcomes\<close>

text \<open>
  \<open>Ok\<close> and \<open>Err\<close> are the two variants of \<^verbatim>\<open>Result\<close>. A call that unwinds the thread
  (an explicit \<^verbatim>\<open>panic!\<close>, \<^verbatim>\<open>expect\<close>, an overflow check) is a third outcome, so that a
  theorem can say that a function never panics.
\<close>

datatype (dead 'e, 'a) outcome = Ok 'a | Err 'e | Panic

fun and_then :: "('e, 'a) outcome \<Rightarrow> ('a \<Rightarrow> ('e, 'b) outcome) \<Rightarrow> ('e, 'b) outcome" where
  "and_then (Ok x) f = f x"
| "and_then (Err e) f = Err e"
| "and_then Panic f = Panic"

fun is_ok :: "('e, 'a) outcome \<Rightarrow> bool" where
  "is_ok (Ok x) = True"
| "is_ok (Err e) = False"
| "is_ok Panic = False"

text \<open>A \<^verbatim>\<open>for\<close> loop whose body uses the question mark operator: the first failure ends it.\<close>

fun try_map :: "('a \<Rightarrow> ('e, 'b) outcome) \<Rightarrow> 'a list \<Rightarrow> ('e, 'b list) outcome" where
  "try_map f [] = Ok []"
| "try_map f (x # xs) =
     and_then (f x) (\<lambda>y. and_then (try_map f xs) (\<lambda>ys. Ok (y # ys)))"

fun try_each :: "('a \<Rightarrow> ('e, unit) outcome) \<Rightarrow> 'a list \<Rightarrow> ('e, unit) outcome" where
  "try_each f [] = Ok ()"
| "try_each f (x # xs) = and_then (f x) (\<lambda>_. try_each f xs)"

fun try_fold :: "('a \<Rightarrow> 's \<Rightarrow> ('e, 's) outcome) \<Rightarrow> 'a list \<Rightarrow> 's \<Rightarrow> ('e, 's) outcome" where
  "try_fold f [] s = Ok s"
| "try_fold f (x # xs) s = and_then (f x s) (try_fold f xs)"

definition ok_or :: "'e \<Rightarrow> 'a option \<Rightarrow> ('e, 'a) outcome" where
  "ok_or e x = (case x of None \<Rightarrow> Err e | Some v \<Rightarrow> Ok v)"

lemma and_then_Ok [simp]: "and_then m f = Ok y \<longleftrightarrow> (\<exists>x. m = Ok x \<and> f x = Ok y)"
  by (cases m) auto

lemma Ok_and_then [simp]: "Ok y = and_then m f \<longleftrightarrow> (\<exists>x. m = Ok x \<and> f x = Ok y)"
  by (cases m) auto

lemma and_then_Panic [simp]: "and_then m f = Panic \<longleftrightarrow> m = Panic \<or> (\<exists>x. m = Ok x \<and> f x = Panic)"
  by (cases m) auto

lemma and_then_Err [simp]:
  "and_then m f = Err e \<longleftrightarrow> m = Err e \<or> (\<exists>x. m = Ok x \<and> f x = Err e)"
  by (cases m) auto

lemma is_ok_iff: "is_ok m \<longleftrightarrow> (\<exists>x. m = Ok x)"
  by (cases m) auto

lemma ok_or_simps [simp]:
  "ok_or e None = Err e" "ok_or e (Some v) = Ok v"
  "ok_or e x = Ok v \<longleftrightarrow> x = Some v"
  "ok_or e x \<noteq> Panic"
  by (auto simp: ok_or_def split: option.splits)

lemma try_each_Ok: "try_each f xs = Ok () \<longleftrightarrow> (\<forall>x \<in> set xs. f x = Ok ())"
  by (induction xs) auto

lemma try_each_not_Panic: "(\<And>x. x \<in> set xs \<Longrightarrow> f x \<noteq> Panic) \<Longrightarrow> try_each f xs \<noteq> Panic"
  by (induction xs) auto

lemma try_map_Ok_list_all2: "try_map f xs = Ok ys \<longleftrightarrow> list_all2 (\<lambda>x y. f x = Ok y) xs ys"
  by (induction xs arbitrary: ys) (auto simp: list_all2_Cons1)

lemma try_map_length: "try_map f xs = Ok ys \<Longrightarrow> length ys = length xs"
  by (auto simp: try_map_Ok_list_all2 dest: list_all2_lengthD)

lemma try_map_mem:
  assumes "try_map f xs = Ok ys" and "y \<in> set ys"
  obtains x where "x \<in> set xs" "f x = Ok y"
proof -
  from assms have "\<exists>x \<in> set xs. f x = Ok y"
    by (auto simp: try_map_Ok_list_all2 list_all2_conv_all_nth set_conv_nth)
  then show thesis using that by blast
qed

lemma list_all2_left:
  assumes "list_all2 P xs ys" "x \<in> set xs"
  obtains y where "y \<in> set ys" "P x y"
  using assms by (induction rule: list_all2_induct) auto

lemma list_all2_right:
  assumes "list_all2 P xs ys" "y \<in> set ys"
  obtains x where "x \<in> set xs" "P x y"
  using assms by (induction rule: list_all2_induct) auto

lemma try_fold_append:
  "try_fold f (xs @ ys) s = and_then (try_fold f xs s) (try_fold f ys)"
proof (induction xs arbitrary: s)
  case Nil
  show ?case by simp
next
  case (Cons x xs)
  then show ?case by (cases "f x s") simp_all
qed

text \<open>An invariant of the loop body is an invariant of the loop.\<close>

lemma try_fold_invariant:
  assumes "try_fold f xs s = Ok t" and "P s"
    and "\<And>x s t. x \<in> set xs \<Longrightarrow> P s \<Longrightarrow> f x s = Ok t \<Longrightarrow> P t"
  shows "P t"
  using assms by (induction xs arbitrary: s) auto

lemma find_SomeD: "find P xs = Some x \<Longrightarrow> x \<in> set xs \<and> P x"
  by (induction xs) (auto split: if_splits)

lemma set_tl_subset: "set (tl xs) \<subseteq> set xs"
  by (cases xs) auto

text \<open>\<^verbatim>\<open>Iterator::position\<close>, and removal of the element at an index.\<close>

fun position :: "('a \<Rightarrow> bool) \<Rightarrow> 'a list \<Rightarrow> nat option" where
  "position P [] = None"
| "position P (x # xs) = (if P x then Some 0 else map_option Suc (position P xs))"

definition remove_at :: "nat \<Rightarrow> 'a list \<Rightarrow> 'a list" where
  "remove_at i xs = take i xs @ drop (Suc i) xs"

lemma position_None: "position P xs = None \<longleftrightarrow> (\<forall>x \<in> set xs. \<not> P x)"
  by (induction xs) auto

lemma position_SomeD:
  "position P xs = Some i \<Longrightarrow> \<exists>a x b. xs = a @ x # b \<and> length a = i \<and> P x \<and> (\<forall>y \<in> set a. \<not> P y)"
proof (induction xs arbitrary: i)
  case Nil
  then show ?case by simp
next
  case (Cons z xs)
  show ?case
  proof (cases "P z")
    case True
    with Cons.prems show ?thesis by (auto intro: exI[of _ "[]"])
  next
    case False
    with Cons.prems obtain j where j: "position P xs = Some j" "i = Suc j" by auto
    from Cons.IH[OF j(1)] obtain a x b
      where "xs = a @ x # b" "length a = j" "P x" "\<forall>y \<in> set a. \<not> P y" by blast
    with False j(2) show ?thesis by (intro exI[of _ "z # a"] exI[of _ x] exI[of _ b]) auto
  qed
qed

lemma remove_at_append [simp]: "length a = i \<Longrightarrow> remove_at i (a @ x # b) = a @ b"
  by (auto simp: remove_at_def)

section \<open>Strings\<close>

definition starts_with :: "string \<Rightarrow> string \<Rightarrow> bool" where
  "starts_with p s \<longleftrightarrow> take (length p) s = p"

definition ends_with :: "string \<Rightarrow> string \<Rightarrow> bool" where
  "ends_with p s \<longleftrightarrow> starts_with (rev p) (rev s)"

fun contains_str :: "string \<Rightarrow> string \<Rightarrow> bool" where
  "contains_str p [] = (p = [])"
| "contains_str p (c # s) = (starts_with p (c # s) \<or> contains_str p s)"

definition strip_prefix :: "string \<Rightarrow> string \<Rightarrow> string option" where
  "strip_prefix p s = (if starts_with p s then Some (drop (length p) s) else None)"

definition strip_suffix :: "string \<Rightarrow> string \<Rightarrow> string option" where
  "strip_suffix p s = (if ends_with p s then Some (take (length s - length p) s) else None)"

text \<open>\<^verbatim>\<open>str::split_once\<close> and \<^verbatim>\<open>str::rsplit_once\<close> on a character, and \<^verbatim>\<open>str::split\<close>.\<close>

definition split_once :: "char \<Rightarrow> string \<Rightarrow> (string \<times> string) option" where
  "split_once c s =
     (if c \<in> set s
      then Some (takeWhile (\<lambda>x. x \<noteq> c) s, tl (dropWhile (\<lambda>x. x \<noteq> c) s))
      else None)"

definition rsplit_once :: "char \<Rightarrow> string \<Rightarrow> (string \<times> string) option" where
  "rsplit_once c s = map_option (\<lambda>(a, b). (rev b, rev a)) (split_once c (rev s))"

fun split_on :: "char \<Rightarrow> string \<Rightarrow> string list" where
  "split_on c [] = [[]]"
| "split_on c (x # xs) =
     (if x = c then [] # split_on c xs
      else (case split_on c xs of [] \<Rightarrow> [[x]] | y # ys \<Rightarrow> (x # y) # ys))"

text \<open>\<^verbatim>\<open>str::replace\<close>: the matches of a non-empty pattern, left to right, without overlap.\<close>

function replace_str :: "string \<Rightarrow> string \<Rightarrow> string \<Rightarrow> string" where
  "replace_str p r s =
     (if p = [] \<or> s = [] then s
      else if starts_with p s then r @ replace_str p r (drop (length p) s)
      else hd s # replace_str p r (tl s))"
  by pat_completeness auto
termination
  by (relation "measure (\<lambda>(p, r, s). length s)") auto

declare replace_str.simps [simp del]

definition code_of :: "char \<Rightarrow> nat" where
  "code_of c = of_char c"

definition is_ascii_digit :: "char \<Rightarrow> bool" where
  "is_ascii_digit c \<longleftrightarrow> 48 \<le> code_of c \<and> code_of c \<le> 57"

definition is_ascii_upper :: "char \<Rightarrow> bool" where
  "is_ascii_upper c \<longleftrightarrow> 65 \<le> code_of c \<and> code_of c \<le> 90"

definition is_ascii_lower :: "char \<Rightarrow> bool" where
  "is_ascii_lower c \<longleftrightarrow> 97 \<le> code_of c \<and> code_of c \<le> 122"

definition is_ascii_alphabetic :: "char \<Rightarrow> bool" where
  "is_ascii_alphabetic c \<longleftrightarrow> is_ascii_upper c \<or> is_ascii_lower c"

definition is_ascii_alphanumeric :: "char \<Rightarrow> bool" where
  "is_ascii_alphanumeric c \<longleftrightarrow> is_ascii_alphabetic c \<or> is_ascii_digit c"

definition is_whitespace :: "char \<Rightarrow> bool" where
  "is_whitespace c \<longleftrightarrow> code_of c = 32 \<or> (9 \<le> code_of c \<and> code_of c \<le> 13)"

definition to_lowercase :: "string \<Rightarrow> string" where
  "to_lowercase s = map (\<lambda>c. if is_ascii_upper c then char_of (code_of c + 32) else c) s"

definition to_uppercase :: "string \<Rightarrow> string" where
  "to_uppercase s = map (\<lambda>c. if is_ascii_lower c then char_of (code_of c - 32) else c) s"

definition trim_start :: "string \<Rightarrow> string" where
  "trim_start s = dropWhile is_whitespace s"

definition trim :: "string \<Rightarrow> string" where
  "trim s = rev (trim_start (rev (trim_start s)))"

lemmas char_class_defs =
  code_of_def is_ascii_digit_def is_ascii_upper_def is_ascii_lower_def is_ascii_alphabetic_def
  is_ascii_alphanumeric_def is_whitespace_def

lemma split_once_None [simp]: "split_once c s = None \<longleftrightarrow> c \<notin> set s"
  by (simp add: split_once_def)

lemma split_once_absent [simp]: "c \<notin> set s \<Longrightarrow> split_once c s = None"
  by (simp add: split_once_def)

lemma split_once_Cons [simp]:
  "split_once c (x # s) =
     (if x = c then Some ([], s) else map_option (\<lambda>(a, b). (x # a, b)) (split_once c s))"
  by (simp add: split_once_def)

lemma split_once_append: "c \<notin> set a \<Longrightarrow> split_once c (a @ c # b) = Some (a, b)"
  by (simp add: split_once_def, induction a) auto

lemma split_once_Some: "split_once c s = Some (a, b) \<longleftrightarrow> c \<notin> set a \<and> s = a @ c # b"
proof
  assume eq: "split_once c s = Some (a, b)"
  then have c: "c \<in> set s" by (auto simp: split_once_def split: if_splits)
  then obtain u v where s: "s = u @ c # v" "c \<notin> set u" by (meson split_list_first)
  with eq show "c \<notin> set a \<and> s = a @ c # b" by (simp add: split_once_append)
qed (auto simp: split_once_append)

lemma split_on_not_Nil [simp]: "split_on c s \<noteq> []"
  by (induction s) (auto split: list.splits)

lemma split_on_no_sep: "c \<notin> set s \<Longrightarrow> split_on c s = [s]"
  by (induction s) auto

lemma split_on_append_sep: "c \<notin> set a \<Longrightarrow> split_on c (a @ c # b) = a # split_on c b"
  by (induction a) auto

lemma split_on_parts_no_sep: "p \<in> set (split_on c s) \<Longrightarrow> c \<notin> set p"
proof (induction s arbitrary: p)
  case Nil
  then show ?case by simp
next
  case (Cons x s)
  then show ?case by (cases "split_on c s") (auto split: if_splits)
qed

lemma starts_with_iff: "starts_with p s \<longleftrightarrow> (\<exists>t. s = p @ t)"
  by (auto simp: starts_with_def) (metis append_take_drop_id)

lemma ends_with_iff: "ends_with p s \<longleftrightarrow> (\<exists>t. s = t @ p)"
  by (auto simp: ends_with_def starts_with_iff) (metis rev_append rev_rev_ident)

lemma starts_with_append [simp]: "starts_with p (p @ s)"
  by (simp add: starts_with_def)

lemma contains_str_iff: "contains_str p s \<longleftrightarrow> (\<exists>a b. s = a @ p @ b)"
proof (induction s)
  case Nil
  then show ?case by auto
next
  case (Cons x s)
  show ?case
  proof
    assume "contains_str p (x # s)"
    then consider "starts_with p (x # s)" | "contains_str p s" by auto
    then show "\<exists>a b. x # s = a @ p @ b"
    proof cases
      case 1
      then show ?thesis by (auto simp: starts_with_iff intro: exI[of _ "[]"])
    next
      case 2
      then show ?thesis using Cons.IH by (metis append_Cons)
    qed
  next
    assume "\<exists>a b. x # s = a @ p @ b"
    then obtain a b where ab: "x # s = a @ p @ b" by blast
    show "contains_str p (x # s)"
    proof (cases a)
      case Nil
      with ab have "starts_with p (x # s)" by (auto simp: starts_with_iff)
      then show ?thesis by simp
    next
      case (Cons y a')
      with ab Cons.IH show ?thesis by auto
    qed
  qed
qed

section \<open>Numbers\<close>

abbreviation u64_max :: nat where
  "u64_max \<equiv> 18446744073709551615"

abbreviation u32_max :: nat where
  "u32_max \<equiv> 4294967295"

text \<open>\<^verbatim>\<open>usize\<close> is 64 bits wide on every supported target.\<close>

abbreviation usize_max :: nat where
  "usize_max \<equiv> u64_max"

definition saturating_mul :: "nat \<Rightarrow> nat \<Rightarrow> nat" where
  "saturating_mul a b = min (a * b) usize_max"

definition saturating_add :: "nat \<Rightarrow> nat \<Rightarrow> nat" where
  "saturating_add a b = min (a + b) u64_max"

fun parse_digits :: "nat \<Rightarrow> string \<Rightarrow> nat option" where
  "parse_digits acc [] = Some acc"
| "parse_digits acc (c # s) =
     (if is_ascii_digit c then parse_digits (10 * acc + (code_of c - 48)) s else None)"

text \<open>
  \<^verbatim>\<open>str::parse\<close> at an unsigned type whose greatest value is the first argument: an optional
  plus sign, then at least one digit, and no overflow.
\<close>

definition parse_uint :: "nat \<Rightarrow> string \<Rightarrow> nat option" where
  "parse_uint mx s =
     (let d = (if s \<noteq> [] \<and> hd s = CHR ''+'' then tl s else s)
      in if d = [] then None
         else (case parse_digits 0 d of
             None \<Rightarrow> None
           | Some n \<Rightarrow> (if n \<le> mx then Some n else None)))"

fun show_nat :: "nat \<Rightarrow> string" where
  "show_nat n =
     (if n < 10 then [char_of (48 + n)] else show_nat (n div 10) @ [char_of (48 + n mod 10)])"

declare show_nat.simps [simp del]

lemma code_of_digit [simp]: "(n::nat) < 10 \<Longrightarrow> code_of (char_of (48 + n)) = 48 + n"
  by (simp add: code_of_def)

lemma is_ascii_digit_char [simp]: "(n::nat) < 10 \<Longrightarrow> is_ascii_digit (char_of (48 + n))"
  by (simp add: is_ascii_digit_def)

lemma show_nat_digits: "c \<in> set (show_nat n) \<Longrightarrow> is_ascii_digit c"
proof (induction n rule: show_nat.induct)
  case (1 n)
  then show ?case
    by (subst (asm) (2) show_nat.simps) (auto split: if_splits)
qed

lemma show_nat_not_Nil [simp]: "show_nat n \<noteq> []"
  by (subst show_nat.simps) simp

lemma parse_digits_append:
  "parse_digits acc (a @ b) = Option.bind (parse_digits acc a) (\<lambda>n. parse_digits n b)"
  by (induction a arbitrary: acc) auto

lemma parse_digits_show: "parse_digits acc (show_nat n) = Some (acc * 10 ^ length (show_nat n) + n)"
proof (induction n arbitrary: acc rule: show_nat.induct)
  case (1 n)
  show ?case
  proof (cases "n < 10")
    case True
    then show ?thesis by (simp add: show_nat.simps[of n])
  next
    case False
    then have "show_nat n = show_nat (n div 10) @ [char_of (48 + n mod 10)]"
      by (simp add: show_nat.simps[of n])
    with 1[OF False] show ?thesis
      by (simp add: parse_digits_append algebra_simps)
  qed
qed

lemma digit_not_plus: "is_ascii_digit c \<Longrightarrow> c \<noteq> CHR ''+''"
  by (auto simp: char_class_defs)

lemma digit_not_slash: "is_ascii_digit c \<Longrightarrow> c \<noteq> CHR ''/''"
  by (auto simp: char_class_defs)

lemma parse_uint_show_nat [simp]: "n \<le> mx \<Longrightarrow> parse_uint mx (show_nat n) = Some n"
proof -
  assume "n \<le> mx"
  moreover have "hd (show_nat n) \<noteq> CHR ''+''"
    using show_nat_digits[of "hd (show_nat n)" n] digit_not_plus by (metis hd_in_set show_nat_not_Nil)
  ultimately show ?thesis
    using parse_digits_show[of 0 n] by (simp add: parse_uint_def)
qed

lemma show_nat_no_slash [simp]: "CHR ''/'' \<notin> set (show_nat n)"
  using show_nat_digits digit_not_slash by blast

lemma parse_uint_bound: "parse_uint mx s = Some n \<Longrightarrow> n \<le> mx"
  by (auto simp: parse_uint_def Let_def split: option.splits if_splits)

section \<open>Character boundaries\<close>

text \<open>An index is a character boundary unless the byte there continues a character.\<close>

definition is_char_boundary :: "nat \<Rightarrow> string \<Rightarrow> bool" where
  "is_char_boundary i s \<longleftrightarrow>
     i = 0 \<or> i = length s \<or> i < length s \<and> \<not> (128 \<le> code_of (s ! i) \<and> code_of (s ! i) < 192)"

fun floor_boundary :: "nat \<Rightarrow> string \<Rightarrow> nat" where
  "floor_boundary b s =
     (if b > 0 \<and> \<not> is_char_boundary b s then floor_boundary (b - 1) s else b)"

declare floor_boundary.simps [simp del]

lemma floor_boundary_le: "floor_boundary b s \<le> b"
  by (induction b s rule: floor_boundary.induct) (subst floor_boundary.simps, auto)

lemma floor_boundary_boundary: "is_char_boundary (floor_boundary b s) s"
  by (induction b s rule: floor_boundary.induct)
    (subst floor_boundary.simps, auto simp: is_char_boundary_def)

end
