(* ===== verification/Std_Maps.thy ===== *)
theory Std_Maps
  imports Prelude
begin

text \<open>
  The collections of the Rust standard library. A \<^verbatim>\<open>BTreeMap\<close> is the list of its entries in key
  order, which is the order its iterators use; a \<^verbatim>\<open>HashMap\<close> is a list of entries with distinct
  keys in some order, so that whatever is proved for every such list holds for every iteration order.
  A \<^verbatim>\<open>BTreeSet\<close> is a strictly sorted list. What clients rely on is the locale \<open>kv_map\<close>
  (and \<open>sorted_map\<close> for ordered iteration); both representations are interpretations of it.
\<close>

section \<open>The interface of a map\<close>

locale kv_map =
  fixes empty :: 'm
    and insert :: "'k \<Rightarrow> 'v \<Rightarrow> 'm \<Rightarrow> 'm"
    and remove :: "'k \<Rightarrow> 'm \<Rightarrow> 'm"
    and get :: "'m \<Rightarrow> 'k \<Rightarrow> 'v option"
    and keys :: "'m \<Rightarrow> 'k list"
    and invar :: "'m \<Rightarrow> bool"
  assumes invar_empty: "invar empty"
    and invar_insert: "invar m \<Longrightarrow> invar (insert k v m)"
    and invar_remove: "invar m \<Longrightarrow> invar (remove k m)"
    and get_empty: "get empty = Map.empty"
    and get_insert: "invar m \<Longrightarrow> get (insert k v m) = (get m)(k \<mapsto> v)"
    and get_remove: "invar m \<Longrightarrow> get (remove k m) = (get m)(k := None)"
    and keys_set: "invar m \<Longrightarrow> set (keys m) = dom (get m)"
    and keys_distinct: "invar m \<Longrightarrow> distinct (keys m)"
begin

text \<open>Collecting an iterator, or extending a map by one: the last value of a key wins.\<close>

lemma invar_extend: "invar m \<Longrightarrow> invar (fold (\<lambda>(k, v). insert k v) kvs m)"
  by (induction kvs arbitrary: m) (auto intro: invar_insert)

lemma get_extend:
  "invar m \<Longrightarrow> get (fold (\<lambda>(k, v). insert k v) kvs m) = get m ++ map_of (rev kvs)"
proof (induction kvs arbitrary: m)
  case Nil
  then show ?case by simp
next
  case (Cons p kvs)
  then show ?case
    by (cases p) (simp add: invar_insert get_insert map_add_upd_left fun_eq_iff map_add_def
        split: option.splits)
qed

lemma keys_extend:
  "invar m \<Longrightarrow> set (keys (fold (\<lambda>(k, v). insert k v) kvs m)) = set (keys m) \<union> fst ` set kvs"
  by (simp add: keys_set invar_extend get_extend dom_map_of_conv_image_fst Un_commute)

lemma keys_insert: "invar m \<Longrightarrow> set (keys (insert k v m)) = Set.insert k (set (keys m))"
  by (simp add: keys_set get_insert invar_insert)

lemma keys_remove: "invar m \<Longrightarrow> set (keys (remove k m)) = set (keys m) - {k}"
  by (simp add: keys_set get_remove invar_remove)

end

locale sorted_map = kv_map empty insert remove get keys invar
  for empty :: 'm
    and insert :: "'k::linorder \<Rightarrow> 'v \<Rightarrow> 'm \<Rightarrow> 'm"
    and remove :: "'k \<Rightarrow> 'm \<Rightarrow> 'm"
    and get :: "'m \<Rightarrow> 'k \<Rightarrow> 'v option"
    and keys :: "'m \<Rightarrow> 'k list"
    and invar :: "'m \<Rightarrow> bool" +
  assumes keys_sorted: "invar m \<Longrightarrow> sorted (keys m)"
begin

text \<open>The iteration order is determined by the contents, whatever the history of the map.\<close>

lemma keys_canonical:
  assumes "invar m" "invar m'" "dom (get m) = dom (get m')"
  shows "keys m = keys m'"
  using assms by (intro sorted_distinct_set_unique) (auto simp: keys_sorted keys_distinct keys_set)

end

section \<open>BTreeMap\<close>

fun bt_insert :: "'k::linorder \<Rightarrow> 'v \<Rightarrow> ('k \<times> 'v) list \<Rightarrow> ('k \<times> 'v) list" where
  "bt_insert k v [] = [(k, v)]"
| "bt_insert k v ((k', v') # m) =
     (if k < k' then (k, v) # (k', v') # m
      else if k = k' then (k, v) # m
      else (k', v') # bt_insert k v m)"

definition bt_remove :: "'k \<Rightarrow> ('k \<times> 'v) list \<Rightarrow> ('k \<times> 'v) list" where
  "bt_remove k m = filter (\<lambda>(k', v). k' \<noteq> k) m"

definition bt_wf :: "('k::linorder \<times> 'v) list \<Rightarrow> bool" where
  "bt_wf m \<longleftrightarrow> sorted_wrt (<) (map fst m)"

abbreviation bt_extend :: "('k::linorder \<times> 'v) list \<Rightarrow> ('k \<times> 'v) list \<Rightarrow> ('k \<times> 'v) list" where
  "bt_extend kvs m \<equiv> fold (\<lambda>(k, v). bt_insert k v) kvs m"

abbreviation bt_collect :: "('k::linorder \<times> 'v) list \<Rightarrow> ('k \<times> 'v) list" where
  "bt_collect kvs \<equiv> bt_extend kvs []"

text \<open>\<^verbatim>\<open>entry(k).or_default()\<close> followed by an update of the value in place.\<close>

definition bt_entry :: "'k::linorder \<Rightarrow> 'v \<Rightarrow> ('v \<Rightarrow> 'v) \<Rightarrow> ('k \<times> 'v) list \<Rightarrow> ('k \<times> 'v) list" where
  "bt_entry k d f m = bt_insert k (f (case map_of m k of None \<Rightarrow> d | Some v \<Rightarrow> v)) m"

lemma bt_insert_keys: "fst ` set (bt_insert k v m) = insert k (fst ` set m)"
  by (induction k v m rule: bt_insert.induct) (simp_all add: insert_commute)

lemma bt_wf_insert [simp, intro]: "bt_wf m \<Longrightarrow> bt_wf (bt_insert k v m)"
proof (induction m)
  case Nil
  then show ?case by (simp add: bt_wf_def)
next
  case (Cons p m)
  then show ?case
    using bt_insert_keys[of k v m] by (cases p) (auto simp: bt_wf_def)
qed

lemma bt_wf_Nil [simp, intro]: "bt_wf []"
  by (simp add: bt_wf_def)

lemma bt_wf_remove [simp, intro]: "bt_wf m \<Longrightarrow> bt_wf (bt_remove k m)"
  by (induction m) (auto simp: bt_wf_def bt_remove_def)

lemma map_of_bt_insert [simp]: "map_of (bt_insert k v m) = (map_of m)(k \<mapsto> v)"
  by (induction m) (auto simp: fun_eq_iff)

lemma map_of_bt_remove [simp]: "map_of (bt_remove k m) = (map_of m)(k := None)"
  by (induction m) (auto simp: bt_remove_def fun_eq_iff)

lemma bt_wf_distinct: "bt_wf m \<Longrightarrow> distinct (map fst m)"
  by (simp add: bt_wf_def strict_sorted_iff)

lemma bt_wf_sorted: "bt_wf m \<Longrightarrow> sorted (map fst m)"
  by (simp add: bt_wf_def strict_sorted_iff)

interpretation bt: sorted_map "[]" bt_insert bt_remove map_of "map fst" bt_wf
  by unfold_locales
    (auto simp: bt_wf_distinct bt_wf_sorted dom_map_of_conv_image_fst)

lemma bt_wf_collect [simp, intro]: "bt_wf (bt_collect kvs)"
  by (simp add: bt.invar_extend)

lemma map_of_bt_collect: "map_of (bt_collect kvs) = map_of (rev kvs)"
  using bt.get_extend[of "[]" kvs] by simp

lemma bt_collect_sorted_id: "bt_wf m \<Longrightarrow> map_of m k = Some v \<longleftrightarrow> (k, v) \<in> set m"
  by (simp add: bt_wf_distinct map_of_eq_Some_iff)

lemma bt_wf_entry [simp, intro]: "bt_wf m \<Longrightarrow> bt_wf (bt_entry k d f m)"
  by (simp add: bt_entry_def)

lemma map_of_bt_entry [simp]:
  "map_of (bt_entry k d f m) = (map_of m)(k \<mapsto> f (case map_of m k of None \<Rightarrow> d | Some v \<Rightarrow> v))"
  by (simp add: bt_entry_def)

text \<open>Two ordered maps with the same lookups are the same list of entries.\<close>

lemma bt_ext:
  assumes "bt_wf m" "bt_wf m'" "map_of m = map_of m'"
  shows "m = m'"
proof -
  have entries: "n = map (\<lambda>k. (k, the (map_of n k))) (map fst n)" if "bt_wf n" for n :: "('a \<times> 'b) list"
    using bt_wf_distinct[OF that] by (auto intro!: map_idI[symmetric] simp: comp_def)
  have "map fst m = map fst m'" using assms by (auto intro: bt.keys_canonical)
  then show ?thesis using entries[OF assms(1)] entries[OF assms(2)] assms(3) by metis
qed

section \<open>BTreeSet\<close>

fun bs_insert :: "'a::linorder \<Rightarrow> 'a list \<Rightarrow> 'a list" where
  "bs_insert x [] = [x]"
| "bs_insert x (y # ys) =
     (if x < y then x # y # ys else if x = y then y # ys else y # bs_insert x ys)"

definition bs_remove :: "'a \<Rightarrow> 'a list \<Rightarrow> 'a list" where
  "bs_remove x xs = filter (\<lambda>y. y \<noteq> x) xs"

abbreviation bs_wf :: "'a::linorder list \<Rightarrow> bool" where
  "bs_wf xs \<equiv> sorted_wrt (<) xs"

abbreviation bs_collect :: "'a::linorder list \<Rightarrow> 'a list" where
  "bs_collect xs \<equiv> fold bs_insert xs []"

lemma set_bs_insert [simp]: "set (bs_insert x xs) = insert x (set xs)"
  by (induction xs) auto

lemma set_bs_remove [simp]: "set (bs_remove x xs) = set xs - {x}"
  by (auto simp: bs_remove_def)

lemma bs_wf_insert [simp, intro]: "bs_wf xs \<Longrightarrow> bs_wf (bs_insert x xs)"
  by (induction xs) auto

lemma bs_wf_remove [simp, intro]: "bs_wf xs \<Longrightarrow> bs_wf (bs_remove x xs)"
  by (simp add: bs_remove_def sorted_wrt_filter)

lemma set_bs_fold [simp]: "set (fold bs_insert xs ys) = set xs \<union> set ys"
  by (induction xs arbitrary: ys) auto

lemma bs_wf_fold [simp]: "bs_wf ys \<Longrightarrow> bs_wf (fold bs_insert xs ys)"
  by (induction xs arbitrary: ys) auto

lemma bs_insert_not_Nil [simp]: "bs_insert x xs \<noteq> []"
  by (cases xs) auto

lemma bs_remove_absent [simp]: "x \<notin> set xs \<Longrightarrow> bs_remove x xs = xs"
  by (auto simp: bs_remove_def intro: filter_True)

section \<open>HashMap\<close>

abbreviation hm_insert :: "'k \<Rightarrow> 'v \<Rightarrow> ('k \<times> 'v) list \<Rightarrow> ('k \<times> 'v) list" where
  "hm_insert \<equiv> AList.update"

abbreviation hm_remove :: "'k \<Rightarrow> ('k \<times> 'v) list \<Rightarrow> ('k \<times> 'v) list" where
  "hm_remove \<equiv> AList.delete"

abbreviation hm_wf :: "('k \<times> 'v) list \<Rightarrow> bool" where
  "hm_wf m \<equiv> distinct (map fst m)"

definition hm_entry :: "'k \<Rightarrow> 'v \<Rightarrow> ('v \<Rightarrow> 'v) \<Rightarrow> ('k \<times> 'v) list \<Rightarrow> ('k \<times> 'v) list" where
  "hm_entry k d f m = hm_insert k (f (case map_of m k of None \<Rightarrow> d | Some v \<Rightarrow> v)) m"

interpretation hm: kv_map "[]" hm_insert hm_remove map_of "map fst" hm_wf
  by unfold_locales
    (auto simp: update_conv' delete_conv' distinct_update distinct_delete
      dom_map_of_conv_image_fst)

lemma map_of_hm_insert [simp]: "map_of (hm_insert k v m) = (map_of m)(k \<mapsto> v)"
  by (rule update_conv')

lemma map_of_hm_remove [simp]: "map_of (hm_remove k m) = (map_of m)(k := None)"
  by (rule delete_conv')

lemma map_of_hm_entry [simp]:
  "map_of (hm_entry k d f m) = (map_of m)(k \<mapsto> f (case map_of m k of None \<Rightarrow> d | Some v \<Rightarrow> v))"
  by (simp add: hm_entry_def update_conv')

lemma hm_wf_entry [simp, intro]: "hm_wf m \<Longrightarrow> hm_wf (hm_entry k d f m)"
  by (simp add: hm_entry_def distinct_update)

end
