(* ===== verification/Ids.thy ===== *)
theory Ids
  imports Std_Maps
begin

text \<open>
  Identifiers (\<^verbatim>\<open>libraries/message/src/id.rs\<close>). Node, operator and data identifiers are newtypes
  around a string and inherit its ordering, which the ordered maps of the descriptors rely on. Node and data
  identifiers are validated when they are parsed or deserialized; the infallible conversion from
  a string panics instead. The text of an error is reduced to the condition it reports.
\<close>

section \<open>The identifier types\<close>

datatype id_error =
    IdEmpty
  | IdInvalidChar char
  | IdEmptySegment string

datatype node_id = NodeId (node_name: string)

datatype operator_id = OperatorId (operator_name: string)

datatype data_id = DataId (data_name: string)

instantiation node_id :: linorder
begin

definition less_eq_node_id :: "node_id \<Rightarrow> node_id \<Rightarrow> bool" where
  "less_eq_node_id a b \<longleftrightarrow> node_name a \<le> node_name b"

definition less_node_id :: "node_id \<Rightarrow> node_id \<Rightarrow> bool" where
  "less_node_id a b \<longleftrightarrow> node_name a < node_name b"

instance
  by standard (auto simp: less_eq_node_id_def less_node_id_def node_id.expand)

end

instantiation operator_id :: linorder
begin

definition less_eq_operator_id :: "operator_id \<Rightarrow> operator_id \<Rightarrow> bool" where
  "less_eq_operator_id a b \<longleftrightarrow> operator_name a \<le> operator_name b"

definition less_operator_id :: "operator_id \<Rightarrow> operator_id \<Rightarrow> bool" where
  "less_operator_id a b \<longleftrightarrow> operator_name a < operator_name b"

instance
  by standard (auto simp: less_eq_operator_id_def less_operator_id_def operator_id.expand)

end

instantiation data_id :: linorder
begin

definition less_eq_data_id :: "data_id \<Rightarrow> data_id \<Rightarrow> bool" where
  "less_eq_data_id a b \<longleftrightarrow> data_name a \<le> data_name b"

definition less_data_id :: "data_id \<Rightarrow> data_id \<Rightarrow> bool" where
  "less_data_id a b \<longleftrightarrow> data_name a < data_name b"

instance
  by standard (auto simp: less_eq_data_id_def less_data_id_def data_id.expand)

end

section \<open>Validation and conversion\<close>

definition node_id_char :: "char \<Rightarrow> bool" where
  "node_id_char c \<longleftrightarrow>
     is_ascii_alphanumeric c \<or> c = CHR ''_'' \<or> c = CHR ''-'' \<or> c = CHR ''.''"

definition validate_node_id :: "string \<Rightarrow> (id_error, unit) outcome" where
  "validate_node_id s =
     (if s = [] then Err IdEmpty
      else (case find (\<lambda>c. \<not> node_id_char c) s of
          Some ch \<Rightarrow> Err (IdInvalidChar ch)
        | None \<Rightarrow> Ok ()))"

definition validate_data_id :: "string \<Rightarrow> (id_error, unit) outcome" where
  "validate_data_id s =
     (if s = [] then Err IdEmpty
      else (case find (\<lambda>c. \<not> node_id_char c \<and> c \<noteq> CHR ''/'') s of
          Some ch \<Rightarrow> Err (IdInvalidChar ch)
        | None \<Rightarrow>
            (if starts_with ''/'' s \<or> ends_with ''/'' s \<or> contains_str ''//'' s
             then Err (IdEmptySegment s)
             else Ok ())))"

definition node_id_from_str :: "string \<Rightarrow> (id_error, node_id) outcome" where
  "node_id_from_str s = and_then (validate_node_id s) (\<lambda>_. Ok (NodeId s))"

definition node_id_from :: "string \<Rightarrow> ('e, node_id) outcome" where
  "node_id_from s = (if is_ok (validate_node_id s) then Ok (NodeId s) else Panic)"

definition operator_id_from :: "string \<Rightarrow> operator_id" where
  "operator_id_from s = OperatorId s"

definition data_id_from_str :: "string \<Rightarrow> (id_error, data_id) outcome" where
  "data_id_from_str s = and_then (validate_data_id s) (\<lambda>_. Ok (DataId s))"

definition data_id_from :: "string \<Rightarrow> ('e, data_id) outcome" where
  "data_id_from s = (if is_ok (validate_data_id s) then Ok (DataId s) else Panic)"

section \<open>What validation guarantees\<close>

definition valid_node_id :: "string \<Rightarrow> bool" where
  "valid_node_id s \<longleftrightarrow> s \<noteq> [] \<and> list_all node_id_char s"

definition valid_data_id :: "string \<Rightarrow> bool" where
  "valid_data_id s \<longleftrightarrow> list_all valid_node_id (split_on (CHR ''/'') s)"

lemma slash_not_node_char [simp]: "\<not> node_id_char (CHR ''/'')"
  by (simp add: node_id_char_def char_class_defs)

lemma validate_node_id_iff: "validate_node_id s = Ok () \<longleftrightarrow> valid_node_id s"
  by (auto simp: validate_node_id_def valid_node_id_def list_all_iff find_None_iff
      split: option.splits dest: find_SomeD)

lemma validate_node_id_no_panic [simp]: "validate_node_id s \<noteq> Panic"
  by (auto simp: validate_node_id_def split: option.splits)

lemma validate_data_id_no_panic [simp]: "validate_data_id s \<noteq> Panic"
  by (auto simp: validate_data_id_def split: option.splits)

lemma is_ok_validate_node_id [simp]: "is_ok (validate_node_id s) \<longleftrightarrow> valid_node_id s"
  by (cases "validate_node_id s") (auto simp: validate_node_id_iff[symmetric])

lemma valid_node_id_no_slash: "valid_node_id s \<Longrightarrow> CHR ''/'' \<notin> set s"
  by (auto simp: valid_node_id_def list_all_iff)

text \<open>No empty segment: the slash tests of the code say exactly that no part of the split is empty.\<close>

lemma split_on_Cons_hd: "hd (split_on c s) = [] \<longleftrightarrow> s = [] \<or> hd s = c"
  by (cases s) (auto split: list.splits)

lemma split_on_tl_empty:
  "s \<noteq> [] \<Longrightarrow> [] \<in> set (tl (split_on c s)) \<longleftrightarrow> ends_with [c] s \<or> contains_str [c, c] s"
proof (induction s)
  case Nil
  then show ?case by simp
next
  case (Cons x s)
  show ?case
  proof (cases "s = []")
    case True
    then show ?thesis by (auto simp: starts_with_def ends_with_def)
  next
    case False
    obtain p ps where ps: "split_on c s = p # ps" by (cases "split_on c s") auto
    have "p = [] \<longleftrightarrow> starts_with [c] s"
      using split_on_Cons_hd[of c s] ps False by (cases s) (auto simp: starts_with_def)
    moreover have "ends_with [c] (x # s) \<longleftrightarrow> ends_with [c] s"
      using False by (cases s rule: rev_cases) (auto simp: ends_with_def starts_with_def)
    moreover have "starts_with [c, c] (x # s) \<longleftrightarrow> x = c \<and> starts_with [c] s"
      using False by (cases s) (auto simp: starts_with_def)
    ultimately show ?thesis
      using Cons.IH[OF False] ps by auto
  qed
qed

lemma split_on_no_empty:
  assumes "s \<noteq> []"
  shows "[] \<in> set (split_on c s) \<longleftrightarrow> starts_with [c] s \<or> ends_with [c] s \<or> contains_str [c, c] s"
proof -
  have "[] \<in> set (split_on c s) \<longleftrightarrow> hd (split_on c s) = [] \<or> [] \<in> set (tl (split_on c s))"
    by (cases "split_on c s") auto
  then show ?thesis
    using assms split_on_Cons_hd[of c s] split_on_tl_empty[OF assms]
    by (cases s) (auto simp: starts_with_def)
qed

lemma split_on_chars: "(\<forall>p \<in> set (split_on c s). list_all P p) \<longleftrightarrow> (\<forall>x \<in> set s. P x \<or> x = c)"
proof (induction s)
  case Nil
  then show ?case by simp
next
  case (Cons x s)
  then show ?case by (cases "split_on c s") auto
qed

lemma validate_data_id_iff: "validate_data_id s = Ok () \<longleftrightarrow> valid_data_id s"
proof (cases "s = []")
  case True
  then show ?thesis by (simp add: validate_data_id_def valid_data_id_def valid_node_id_def)
next
  case False
  have "validate_data_id s = Ok () \<longleftrightarrow>
      (\<forall>x \<in> set s. node_id_char x \<or> x = CHR ''/'') \<and> [] \<notin> set (split_on (CHR ''/'') s)"
    using False
    by (auto simp: validate_data_id_def split_on_no_empty find_None_iff
        split: option.splits dest: find_SomeD)
  also have "\<dots> \<longleftrightarrow> valid_data_id s"
    unfolding split_on_chars[symmetric] valid_data_id_def valid_node_id_def list_all_iff by blast
  finally show ?thesis .
qed

lemma is_ok_validate_data_id [simp]: "is_ok (validate_data_id s) \<longleftrightarrow> valid_data_id s"
  by (cases "validate_data_id s") (auto simp: validate_data_id_iff[symmetric])

lemma node_id_from_Ok [simp]: "node_id_from s = Ok n \<longleftrightarrow> valid_node_id s \<and> n = NodeId s"
  by (auto simp: node_id_from_def)

lemma data_id_from_Ok [simp]: "data_id_from s = Ok d \<longleftrightarrow> valid_data_id s \<and> d = DataId s"
  by (auto simp: data_id_from_def)

lemma node_id_from_Panic [simp]: "node_id_from s = Panic \<longleftrightarrow> \<not> valid_node_id s"
  by (auto simp: node_id_from_def)

lemma data_id_from_Panic [simp]: "data_id_from s = Panic \<longleftrightarrow> \<not> valid_data_id s"
  by (auto simp: data_id_from_def)

lemma node_id_from_not_Err [simp]: "node_id_from s \<noteq> Err e"
  by (auto simp: node_id_from_def)

lemma data_id_from_not_Err [simp]: "data_id_from s \<noteq> Err e"
  by (auto simp: data_id_from_def)

lemma valid_node_id_data: "valid_node_id s \<Longrightarrow> valid_data_id s"
  by (simp add: valid_data_id_def valid_node_id_no_slash split_on_no_sep)

text \<open>
  The namespacing the runtime uses: an operator name and an output name joined by a slash are a
  data identifier exactly when the two parts are.
\<close>

lemma split_on_append: "split_on c (a @ c # b) = split_on c a @ split_on c b"
proof (induction a)
  case Nil
  then show ?case by simp
next
  case (Cons x a)
  then show ?case by (cases "split_on c a") auto
qed

lemma valid_data_id_join: "valid_data_id (a @ ''/'' @ b) \<longleftrightarrow> valid_data_id a \<and> valid_data_id b"
  by (simp add: valid_data_id_def split_on_append)

end
