(* ===== verification/Float64.thy ===== *)
theory Float64
  imports Prelude
begin

text \<open>
  Double-precision numbers and durations as far as the program computes with them: parsing, the four
  operations the code uses, and the conversions between seconds and \<^verbatim>\<open>std::time::Duration\<close>.
  A finite number is a sign, an integer mantissa and a binary exponent; every operation is the
  exact result rounded to the nearest representable number, ties to even, as IEEE 754 and the
  Rust reference prescribe. A duration is its number of nanoseconds.
\<close>

section \<open>Numbers\<close>

datatype f64 =
    F64_NaN
  | F64_Inf bool
  | F64 bool nat int

fun bit_length :: "nat \<Rightarrow> nat" where
  "bit_length n = (if n = 0 then 0 else Suc (bit_length (n div 2)))"

declare bit_length.simps [simp del]

definition round_half_even :: "nat \<Rightarrow> nat \<Rightarrow> nat" where
  "round_half_even n d =
     (let q = n div d; r = n mod d
      in if 2 * r < d \<or> (2 * r = d \<and> even q) then q else q + 1)"

text \<open>The ratio divided by a power of two, rounded; and whether the ratio reaches a power of two.\<close>

definition scaled_round :: "nat \<Rightarrow> nat \<Rightarrow> int \<Rightarrow> nat" where
  "scaled_round n d e =
     (if e \<ge> 0 then round_half_even n (d * 2 ^ nat e) else round_half_even (n * 2 ^ nat (- e)) d)"

definition ratio_ge_pow :: "nat \<Rightarrow> nat \<Rightarrow> int \<Rightarrow> bool" where
  "ratio_ge_pow n d e = (if e \<ge> 0 then d * 2 ^ nat e \<le> n else d \<le> n * 2 ^ nat (- e))"

definition f64_of_ratio :: "bool \<Rightarrow> nat \<Rightarrow> nat \<Rightarrow> f64" where
  "f64_of_ratio neg n d =
     (if n = 0 then F64 neg 0 (- 1074)
      else
        let e0 = int (bit_length n) - int (bit_length d) - 53;
            e1 = (if ratio_ge_pow n d (e0 + 53) then e0 + 1 else e0);
            e = max e1 (- 1074);
            m = scaled_round n d e
        in if m = 2 ^ 53
           then (if e + 1 > 971 then F64_Inf neg else F64 neg (2 ^ 52) (e + 1))
           else (if e > 971 then F64_Inf neg else F64 neg m e))"

definition f64_of_nat :: "nat \<Rightarrow> f64" where
  "f64_of_nat n = f64_of_ratio False n 1"

definition pow2_num :: "int \<Rightarrow> nat" where
  "pow2_num e = 2 ^ nat (max e 0)"

definition pow2_den :: "int \<Rightarrow> nat" where
  "pow2_den e = 2 ^ nat (max (- e) 0)"

fun is_finite :: "f64 \<Rightarrow> bool" where
  "is_finite (F64 s m e) = True"
| "is_finite x = False"

text \<open>The comparison \<^verbatim>\<open>x <= 0.0\<close>; it is false on a value that is not a number.\<close>

fun f64_le_zero :: "f64 \<Rightarrow> bool" where
  "f64_le_zero (F64 s m e) = (s \<or> m = 0)"
| "f64_le_zero (F64_Inf s) = s"
| "f64_le_zero F64_NaN = False"

fun f64_div :: "f64 \<Rightarrow> f64 \<Rightarrow> f64" where
  "f64_div (F64 s m e) (F64 t k h) =
     (if k = 0 then (if m = 0 then F64_NaN else F64_Inf (s \<noteq> t))
      else f64_of_ratio (s \<noteq> t) (m * pow2_num (e - h)) (k * pow2_den (e - h)))"
| "f64_div (F64 s m e) (F64_Inf t) = F64 (s \<noteq> t) 0 (- 1074)"
| "f64_div (F64_Inf s) (F64 t k h) = F64_Inf (s \<noteq> t)"
| "f64_div _ _ = F64_NaN"

fun f64_mul :: "f64 \<Rightarrow> f64 \<Rightarrow> f64" where
  "f64_mul (F64 s m e) (F64 t k h) =
     f64_of_ratio (s \<noteq> t) (m * k * pow2_num (e + h)) (pow2_den (e + h))"
| "f64_mul (F64 s m e) (F64_Inf t) = (if m = 0 then F64_NaN else F64_Inf (s \<noteq> t))"
| "f64_mul (F64_Inf s) (F64 t k h) = (if k = 0 then F64_NaN else F64_Inf (s \<noteq> t))"
| "f64_mul (F64_Inf s) (F64_Inf t) = F64_Inf (s \<noteq> t)"
| "f64_mul _ _ = F64_NaN"

text \<open>Addition of two numbers that are not negative, the only one the code performs.\<close>

fun f64_add_nonneg :: "f64 \<Rightarrow> f64 \<Rightarrow> f64" where
  "f64_add_nonneg (F64 s m e) (F64 t k h) =
     (let l = min e h
      in f64_of_ratio False
           ((m * 2 ^ nat (e - l) + k * 2 ^ nat (h - l)) * pow2_num l) (pow2_den l))"
| "f64_add_nonneg F64_NaN _ = F64_NaN"
| "f64_add_nonneg _ F64_NaN = F64_NaN"
| "f64_add_nonneg _ _ = F64_Inf False"

abbreviation f64_one :: f64 where
  "f64_one \<equiv> F64 False 4503599627370496 (- 52)"

definition f64_pow2 :: "nat \<Rightarrow> f64" where
  "f64_pow2 k = f64_of_nat (2 ^ k)"

section \<open>Parsing\<close>

definition parse_exponent :: "string \<Rightarrow> int option" where
  "parse_exponent s =
     (let neg = (s \<noteq> [] \<and> hd s = CHR ''-'');
          d = (if s \<noteq> [] \<and> (hd s = CHR ''+'' \<or> hd s = CHR ''-'') then tl s else s)
      in if d = [] then None
         else map_option (\<lambda>n. if neg then - int n else int n) (parse_digits 0 d))"

definition parse_decimal :: "bool \<Rightarrow> string \<Rightarrow> f64 option" where
  "parse_decimal neg s =
     (let ip = takeWhile is_ascii_digit s;
          r1 = dropWhile is_ascii_digit s;
          dotted = (r1 \<noteq> [] \<and> hd r1 = CHR ''.'');
          fp = (if dotted then takeWhile is_ascii_digit (tl r1) else []);
          r2 = (if dotted then dropWhile is_ascii_digit (tl r1) else r1);
          ex = (if r2 = [] then Some 0
                else if hd r2 = CHR ''e'' \<or> hd r2 = CHR ''E'' then parse_exponent (tl r2)
                else None)
      in if ip = [] \<and> fp = [] then None
         else (case (parse_digits 0 (ip @ fp), ex) of
             (Some m, Some x) \<Rightarrow>
               (let k = x - int (length fp)
                in Some (f64_of_ratio neg (m * 10 ^ nat (max k 0)) (10 ^ nat (max (- k) 0))))
           | _ \<Rightarrow> None))"

definition parse_f64 :: "string \<Rightarrow> f64 option" where
  "parse_f64 s =
     (let neg = (s \<noteq> [] \<and> hd s = CHR ''-'');
          b = (if s \<noteq> [] \<and> (hd s = CHR ''+'' \<or> hd s = CHR ''-'') then tl s else s);
          l = to_lowercase b
      in if l = ''inf'' \<or> l = ''infinity'' then Some (F64_Inf neg)
         else if l = ''nan'' then Some F64_NaN
         else parse_decimal neg b)"

section \<open>Durations\<close>

type_synonym duration = nat

abbreviation nanos_per_sec :: nat where
  "nanos_per_sec \<equiv> 1000000000"

abbreviation nanos_per_milli :: nat where
  "nanos_per_milli \<equiv> 1000000"

definition from_secs :: "nat \<Rightarrow> duration" where
  "from_secs s = s * nanos_per_sec"

definition from_millis :: "nat \<Rightarrow> duration" where
  "from_millis ms = ms * nanos_per_milli"

definition as_secs :: "duration \<Rightarrow> nat" where
  "as_secs d = d div nanos_per_sec"

definition as_millis :: "duration \<Rightarrow> nat" where
  "as_millis d = d div nanos_per_milli"

definition subsec_millis :: "duration \<Rightarrow> nat" where
  "subsec_millis d = (d mod nanos_per_sec) div nanos_per_milli"

text \<open>
  \<^verbatim>\<open>Duration::from_secs_f64\<close> panics on a negative number, on one that is not finite and on
  one that does not fit 64 bits of seconds.
\<close>

fun from_secs_f64 :: "f64 \<Rightarrow> ('e, duration) outcome" where
  "from_secs_f64 (F64 s m e) =
     (if s \<and> m > 0 then Panic
      else if ratio_ge_pow (m * pow2_num e) (pow2_den e) 64 then Panic
      else Ok (round_half_even (m * nanos_per_sec * pow2_num e) (pow2_den e)))"
| "from_secs_f64 _ = Panic"

definition as_secs_f64 :: "duration \<Rightarrow> f64" where
  "as_secs_f64 d =
     f64_add_nonneg (f64_of_nat (d div nanos_per_sec))
       (f64_div (f64_of_nat (d mod nanos_per_sec)) (f64_of_nat nanos_per_sec))"

definition mul_f64 :: "duration \<Rightarrow> f64 \<Rightarrow> ('e, duration) outcome" where
  "mul_f64 d x = from_secs_f64 (f64_mul x (as_secs_f64 d))"

section \<open>Rounding\<close>

lemma bit_length_numeral [simp]:
  "bit_length 0 = 0"
  "bit_length (Suc 0) = 1"
  "bit_length 1 = 1"
  "bit_length (numeral (Num.Bit0 n)) = Suc (bit_length (numeral n))"
  "bit_length (numeral (Num.Bit1 n)) = Suc (bit_length (numeral n))"
  by (simp_all add: bit_length.simps[of "numeral _"] bit_length.simps[of 1]
      bit_length.simps[of "Suc 0"] bit_length.simps[of 0])

lemmas f64_eval =
  pow2_num_def pow2_den_def f64_of_ratio_def ratio_ge_pow_def scaled_round_def round_half_even_def

lemmas parse_f64_eval =
  parse_f64_def parse_decimal_def to_lowercase_def char_class_defs

lemma round_half_even_exact: "d > 0 \<Longrightarrow> round_half_even (q * d) d = q"
  by (simp add: round_half_even_def)

lemma round_half_even_bounds: "n div d \<le> round_half_even n d" "round_half_even n d \<le> n div d + 1"
  by (auto simp: round_half_even_def Let_def)

lemma round_half_even_mono:
  assumes "n \<le> n'" "d > 0"
  shows "round_half_even n d \<le> round_half_even n' d"
proof (cases "n div d = n' div d")
  case True
  then have "n mod d \<le> n' mod d"
    using assms by (metis add_le_cancel_left div_mult_mod_eq)
  with True show ?thesis by (auto simp: round_half_even_def Let_def)
next
  case False
  then have "n div d + 1 \<le> n' div d"
    using div_le_mono[OF assms(1), of d] by simp
  then show ?thesis
    using round_half_even_bounds[of n d] round_half_even_bounds[of n' d] by linarith
qed

lemma from_secs_f64_not_Err [simp]: "from_secs_f64 x \<noteq> Err e"
  by (cases x) auto

lemma from_millis_split: "from_millis (1000 * s) = from_secs s"
  by (simp add: from_millis_def from_secs_def)

section \<open>Exact results\<close>

lemma bit_length_eq: "2 ^ k \<le> n \<Longrightarrow> n < 2 ^ Suc k \<Longrightarrow> bit_length n = Suc k"
proof (induction k arbitrary: n)
  case 0
  then have "n = 1" by simp
  then show ?case by simp
next
  case (Suc k)
  then have "2 ^ k \<le> n div 2" "n div 2 < 2 ^ Suc k" "n \<noteq> 0" by auto
  with Suc.IH[of "n div 2"] show ?case by (subst bit_length.simps) simp
qed

lemma bit_length_pow [simp]: "bit_length (2 ^ k) = Suc k"
  by (rule bit_length_eq) simp_all

lemma bit_length_bounds: "n > 0 \<Longrightarrow> \<exists>k. bit_length n = Suc k \<and> 2 ^ k \<le> n \<and> n < 2 ^ Suc k"
proof (induction n rule: bit_length.induct)
  case (1 n)
  show ?case
  proof (cases "n = 1")
    case True
    then show ?thesis by (intro exI[of _ 0]) simp
  next
    case False
    with 1 obtain k where "bit_length (n div 2) = Suc k" "2 ^ k \<le> n div 2" "n div 2 < 2 ^ Suc k"
      by auto
    with 1(2) show ?thesis by (intro exI[of _ "Suc k"]) (subst bit_length.simps, auto)
  qed
qed

text \<open>A ratio that is a 53-bit number times a power of two in range is represented exactly.\<close>

lemma f64_of_ratio_exact:
  assumes m: "2 ^ 52 \<le> m" "m < 2 ^ 53" and e: "e = int i - int j" "- 1074 \<le> e" "e \<le> 971"
  shows "f64_of_ratio neg (m * 2 ^ i) (2 ^ j) = F64 neg m e"
proof -
  have "bit_length (m * 2 ^ i) = Suc (52 + i)"
    using m by (intro bit_length_eq) (auto simp: power_add)
  then have e0: "int (bit_length (m * 2 ^ i)) - int (bit_length (2 ^ j)) - 53 = e - 1" using e by simp
  have ge: "ratio_ge_pow (m * 2 ^ i) (2 ^ j) (e - 1 + 53)"
  proof (cases "e - 1 + 53 \<ge> 0")
    case True
    then have "2 ^ j * 2 ^ nat (e - 1 + 53) = (2::nat) ^ (52 + i)"
      using e by (simp add: nat_diff_distrib' flip: power_add)
    with True m(1) show ?thesis by (simp add: ratio_ge_pow_def power_add)
  next
    case False
    then have "(2::nat) ^ j = 2 ^ (i + 52) * 2 ^ nat (- (e - 1 + 53))"
      using e by (simp flip: power_add)
    with False m(1) show ?thesis by (simp add: ratio_ge_pow_def power_add)
  qed
  have round: "scaled_round (m * 2 ^ i) (2 ^ j) e = m"
  proof (cases "e \<ge> 0")
    case True
    then have "(2::nat) ^ i = 2 ^ j * 2 ^ nat e" using e by (simp flip: power_add)
    with True round_half_even_exact[of "2 ^ j * 2 ^ nat e" m] show ?thesis
      by (simp add: scaled_round_def)
  next
    case False
    then have "(2::nat) ^ j = 2 ^ i * 2 ^ nat (- e)" using e by (simp flip: power_add)
    with False round_half_even_exact[of "2 ^ i * 2 ^ nat (- e)" m] show ?thesis
      by (simp add: scaled_round_def mult.assoc)
  qed
  have "m * 2 ^ i \<noteq> 0" "max e (- 1074) = e" "m \<noteq> 2 ^ 53" "\<not> e > 971" using m e(2,3) by auto
  with ge round show ?thesis unfolding f64_of_ratio_def Let_def e0 by simp
qed

text \<open>Whole seconds below \<open>2 ^ 53\<close>, and their products with powers of two.\<close>

lemma f64_of_nat_exact:
  assumes "0 < n" "n < 2 ^ 53"
  obtains m e where "f64_of_nat n = F64 False m e" "2 ^ 52 \<le> m" "m < 2 ^ 53"
    "- 52 \<le> e" "e \<le> 0" "m = n * 2 ^ nat (- e)"
proof -
  obtain k where k: "bit_length n = Suc k" "2 ^ k \<le> n" "n < 2 ^ Suc k"
    using bit_length_bounds[OF assms(1)] by blast
  have "(2::nat) ^ k < 2 ^ 53" using k(2) assms(2) by linarith
  then have k52: "k \<le> 52" using power_less_imp_less_exp[of "2::nat" k 53] by simp
  let ?m = "n * 2 ^ (52 - k)"
  have "2 ^ k * 2 ^ (52 - k) \<le> ?m" using k(2) by (intro mult_right_mono) auto
  then have lo: "2 ^ 52 \<le> ?m" using k52 by (simp flip: power_add)
  have "?m < 2 ^ Suc k * 2 ^ (52 - k)" using k(3) by (intro mult_strict_right_mono) auto
  also have "\<dots> = 2 ^ (Suc k + (52 - k))" by (rule power_add[symmetric])
  also have "Suc k + (52 - k) = 53" using k52 by simp
  finally have hi: "?m < 2 ^ 53" .
  have "f64_of_ratio False n 1 = F64 False ?m (int k - 52)"
  proof -
    have e0: "int (bit_length n) - int (bit_length 1) - 53 = int k - 53" using k(1) by simp
    have ge: "ratio_ge_pow n 1 (int k - 53 + 53)" using k(2) by (simp add: ratio_ge_pow_def)
    have e1: "max (int k - 53 + 1) (- 1074) = int k - 52" by simp
    have sr: "scaled_round n 1 (int k - 52) = ?m"
      using k52 round_half_even_exact[of 1 ?m]
      by (auto simp: scaled_round_def round_half_even_def nat_diff_distrib')
    show ?thesis
      using assms(1) e0 ge e1 sr hi k52 unfolding f64_of_ratio_def by (simp add: Let_def)
  qed
  then show thesis
    using lo hi k52 by (intro that[of ?m "int k - 52"]) (simp_all add: f64_of_nat_def nat_diff_distrib')
qed

lemma f64_zero: "f64_of_nat 0 = F64 False 0 (- 1074)"
  by (simp add: f64_of_nat_def f64_of_ratio_def)

lemma f64_pow2_exact:
  assumes "k \<le> 52"
  shows "f64_pow2 k = F64 False (2 ^ 52) (int k - 52)"
proof -
  have "f64_of_ratio False (2 ^ 52 * 2 ^ k) (2 ^ 52) = F64 False (2 ^ 52) (int k - 52)"
    by (rule f64_of_ratio_exact) (use assms in simp_all)
  moreover have "f64_of_nat (2 ^ k) = F64 False (2 ^ 52) (int k - 52)"
  proof -
    have "(2::nat) ^ k < 2 ^ 53" using assms by (intro power_strict_increasing) auto
    then obtain m e where m: "f64_of_nat (2 ^ k) = F64 False m e" "2 ^ 52 \<le> m" "m < 2 ^ 53"
      "- 52 \<le> e" "e \<le> 0" "m = 2 ^ k * 2 ^ nat (- e)"
      using f64_of_nat_exact[of "2 ^ k"] by (metis zero_less_numeral zero_less_power)
    then have mp: "m = 2 ^ (k + nat (- e))" by (simp add: power_add)
    with m(2,3) have "52 \<le> k + nat (- e)" "k + nat (- e) < 53"
      using power_le_imp_le_exp[of "2::nat" 52 "k + nat (- e)"]
        power_less_imp_less_exp[of "2::nat" "k + nat (- e)" 53] by auto
    then have eq: "k + nat (- e) = 52" by simp
    with m(5) have "e = int k - 52" by linarith
    with m(1) mp eq show ?thesis by simp
  qed
  ultimately show ?thesis by (simp add: f64_pow2_def)
qed

lemma as_secs_f64_whole:
  assumes "0 < s" "s < 2 ^ 53"
  shows "as_secs_f64 (from_secs s) = f64_of_nat s"
proof -
  obtain m e where m: "f64_of_nat s = F64 False m e" "2 ^ 52 \<le> m" "m < 2 ^ 53" "- 52 \<le> e" "e \<le> 0"
    using f64_of_nat_exact[OF assms] by metis
  obtain b q where "f64_of_nat nanos_per_sec = F64 False b q" "2 ^ 52 \<le> b"
    by (rule f64_of_nat_exact[of nanos_per_sec]) auto
  then have z: "f64_div (f64_of_nat 0) (f64_of_nat nanos_per_sec) = F64 False 0 (- 1074)"
    by (simp add: f64_zero f64_of_ratio_def)
  have "f64_add_nonneg (F64 False m e) (F64 False 0 (- 1074)) =
      f64_of_ratio False (m * 2 ^ nat (e + 1074)) (2 ^ 1074)"
    using m(4) by (simp add: Let_def pow2_num_def pow2_den_def min_def)
  also have "\<dots> = F64 False m e" using m by (intro f64_of_ratio_exact) simp_all
  finally show ?thesis using z m(1) by (simp add: as_secs_f64_def from_secs_def)
qed

lemma mul_f64_pow2:
  assumes "s * 2 ^ k < 2 ^ 64" "s < 2 ^ 53" "k \<le> 52"
  shows "mul_f64 (from_secs s) (f64_pow2 k) = Ok (from_secs (s * 2 ^ k))"
proof (cases "s = 0")
  case True
  have "as_secs_f64 0 = F64 False 0 (- 1074)"
    by (simp add: as_secs_f64_def f64_zero f64_of_nat_def f64_eval Let_def)
  with True assms(3) show ?thesis
    by (simp add: mul_f64_def from_secs_def f64_pow2_exact f64_of_ratio_def ratio_ge_pow_def
        round_half_even_def pow2_num_def pow2_den_def)
next
  case False
  then obtain m e where m: "f64_of_nat s = F64 False m e" "2 ^ 52 \<le> m" "m < 2 ^ 53"
      "- 52 \<le> e" "e \<le> 0" "m = s * 2 ^ nat (- e)"
    using f64_of_nat_exact[of s] assms(2) by (metis gr0I)
  let ?h = "int k - 52 + e"
  let ?E = "int k + e"
  have "f64_mul (f64_pow2 k) (F64 False m e) =
      f64_of_ratio False (m * 2 ^ (52 + nat (max ?h 0))) (2 ^ nat (max (- ?h) 0))"
    using assms(3) by (simp add: f64_pow2_exact pow2_num_def pow2_den_def power_add mult_ac)
  also have "\<dots> = F64 False m ?E"
    using m assms(3) by (intro f64_of_ratio_exact) auto
  finally have prod: "f64_mul (f64_pow2 k) (F64 False m e) = F64 False m ?E" .
  have val: "m * pow2_num ?E = s * 2 ^ k * pow2_den ?E"
  proof (cases "?E \<ge> 0")
    case True
    then have "(2::nat) ^ nat (- e) * 2 ^ nat ?E = 2 ^ k" using m(5) by (simp flip: power_add) 
    with True m(6) show ?thesis by (simp add: pow2_num_def pow2_den_def mult.assoc)
  next
    case False
    then have "(2::nat) ^ nat (- e) = 2 ^ k * 2 ^ nat (- ?E)" using m(5) by (simp flip: power_add)
    with False m(6) show ?thesis by (simp add: pow2_num_def pow2_den_def mult.assoc)
  qed
  have den: "pow2_den ?E > 0" by (simp add: pow2_den_def)
  have small: "\<not> ratio_ge_pow (m * pow2_num ?E) (pow2_den ?E) 64"
    using assms(1) den unfolding val by (simp add: ratio_ge_pow_def mult.commute)
  have "round_half_even (m * nanos_per_sec * pow2_num ?E) (pow2_den ?E) = s * 2 ^ k * nanos_per_sec"
  proof -
    have "m * nanos_per_sec * pow2_num ?E = m * pow2_num ?E * nanos_per_sec" by (simp only: mult_ac)
    also have "\<dots> = s * 2 ^ k * nanos_per_sec * pow2_den ?E" unfolding val by (simp only: mult_ac)
    finally show ?thesis by (simp only: round_half_even_exact[OF den])
  qed
  moreover have "as_secs_f64 (from_secs s) = F64 False m e"
    using False assms(2) m(1) by (simp add: as_secs_f64_whole)
  ultimately show ?thesis using small prod by (simp add: mul_f64_def) (simp add: from_secs_def)
qed

end
