(* ===== verification/Config.thy ===== *)
theory Config
  imports Ids Float64
begin

text \<open>
  Input configuration (\<^verbatim>\<open>libraries/message/src/config.rs\<close>, and the log levels of
  \<^verbatim>\<open>libraries/message/src/common.rs\<close>): queue policies, inputs with their options, and the
  textual form of an input mapping, which is also its serialized form: a descriptor sent from
  the command line to the coordinator and the daemons is printed and parsed again on the way.
  The text of an error is reduced to the condition it reports.
\<close>

section \<open>Log levels\<close>

datatype log_level = LevelError | LevelWarn | LevelInfo | LevelDebug | LevelTrace

datatype log_level_or_stdout = Stdout | LogLevel log_level

fun level_rank :: "log_level \<Rightarrow> nat" where
  "level_rank LevelError = 1"
| "level_rank LevelWarn = 2"
| "level_rank LevelInfo = 3"
| "level_rank LevelDebug = 4"
| "level_rank LevelTrace = 5"

fun passes :: "log_level_or_stdout \<Rightarrow> log_level_or_stdout \<Rightarrow> bool" where
  "passes Stdout Stdout = True"
| "passes Stdout (LogLevel mx) = False"
| "passes (LogLevel msg) Stdout = True"
| "passes (LogLevel msg) (LogLevel mx) = (level_rank msg \<le> level_rank mx)"

section \<open>Queue policies and inputs\<close>

definition DEFAULT_QUEUE_SIZE :: nat where
  "DEFAULT_QUEUE_SIZE = 10"

datatype queue_policy = DropOldest | Backpressure

fun effective_cap :: "queue_policy \<Rightarrow> nat \<Rightarrow> nat" where
  "effective_cap DropOldest queue_size = queue_size"
| "effective_cap Backpressure queue_size = max (saturating_mul queue_size 10) 100"

record log_subscription_filter =
  min_level :: "log_level_or_stdout option"
  node_filter :: "node_id option"

datatype input_mapping =
    Timer duration
  | Logs log_subscription_filter
  | User node_id data_id

record input =
  mapping :: input_mapping
  queue_size :: "nat option"
  input_timeout :: "f64 option"
  input_queue_policy :: "queue_policy option"

datatype input_def =
    MappingOnly input_mapping
  | WithOptions input_mapping "nat option" "f64 option" "queue_policy option"

definition input_def_of :: "input \<Rightarrow> input_def" where
  "input_def_of i =
     (if queue_size i = None \<and> input_timeout i = None \<and> input_queue_policy i = None
      then MappingOnly (mapping i)
      else WithOptions (mapping i) (queue_size i) (input_timeout i) (input_queue_policy i))"

fun input_of_def :: "input_def \<Rightarrow> input" where
  "input_of_def (MappingOnly m) =
     \<lparr>mapping = m, queue_size = None, input_timeout = None, input_queue_policy = None\<rparr>"
| "input_of_def (WithOptions s q t p) =
     \<lparr>mapping = s, queue_size = q, input_timeout = t, input_queue_policy = p\<rparr>"

definition DORA_NODE_ID :: node_id where
  "DORA_NODE_ID = NodeId ''dora''"

fun mapping_source :: "input_mapping \<Rightarrow> node_id" where
  "mapping_source (User s d) = s"
| "mapping_source (Timer d) = DORA_NODE_ID"
| "mapping_source (Logs f) = DORA_NODE_ID"

section \<open>Printing\<close>

fun format_log_level :: "log_level_or_stdout \<Rightarrow> string" where
  "format_log_level Stdout = ''stdout''"
| "format_log_level (LogLevel LevelError) = ''error''"
| "format_log_level (LogLevel LevelWarn) = ''warn''"
| "format_log_level (LogLevel LevelInfo) = ''info''"
| "format_log_level (LogLevel LevelDebug) = ''debug''"
| "format_log_level (LogLevel LevelTrace) = ''trace''"

definition format_duration :: "duration \<Rightarrow> string" where
  "format_duration d =
     (if subsec_millis d = 0 then ''secs/'' @ show_nat (as_secs d)
      else ''millis/'' @ show_nat (as_millis d))"

fun display_mapping :: "input_mapping \<Rightarrow> string" where
  "display_mapping (Timer interval) = ''dora/timer/'' @ format_duration interval"
| "display_mapping (Logs f) =
     ''dora/logs'' @
     (case min_level f of
        None \<Rightarrow> []
      | Some l \<Rightarrow> ''/'' @ format_log_level l @
          (case node_filter f of None \<Rightarrow> [] | Some n \<Rightarrow> ''/'' @ node_name n))"
| "display_mapping (User s d) = node_name s @ ''/'' @ data_name d"

section \<open>Parsing\<close>

datatype mapping_error =
    MissingSource
  | TimerNeedsUnit
  | SecsNotInteger string
  | MillisNotInteger string
  | HzNotNumber string
  | HzNotPositive string
  | UnknownTimerUnit string
  | UnknownLogLevel string
  | UnknownDoraInput string
  | InvalidDoraInput

definition parse_log_level_str :: "string \<Rightarrow> (mapping_error, log_level_or_stdout) outcome" where
  "parse_log_level_str s =
     (let l = to_lowercase s in
      if l = ''stdout'' then Ok Stdout
      else if l = ''error'' then Ok (LogLevel LevelError)
      else if l = ''warn'' then Ok (LogLevel LevelWarn)
      else if l = ''info'' then Ok (LogLevel LevelInfo)
      else if l = ''debug'' then Ok (LogLevel LevelDebug)
      else if l = ''trace'' then Ok (LogLevel LevelTrace)
      else Err (UnknownLogLevel l))"

text \<open>The timer arm: unit and value, and the interval they denote.\<close>

definition parse_timer :: "string \<Rightarrow> (mapping_error, input_mapping) outcome" where
  "parse_timer s =
     (case split_once (CHR ''/'') s of
        None \<Rightarrow> Err TimerNeedsUnit
      | Some (unit, v) \<Rightarrow>
          (if unit = ''secs'' then
             and_then (ok_or (SecsNotInteger v) (parse_uint u64_max v)) (\<lambda>n.
             Ok (Timer (from_secs n)))
           else if unit = ''millis'' then
             and_then (ok_or (MillisNotInteger v) (parse_uint u64_max v)) (\<lambda>n.
             Ok (Timer (from_millis n)))
           else if unit = ''hz'' then
             and_then (ok_or (HzNotNumber v) (parse_f64 v)) (\<lambda>hz.
             if \<not> is_finite hz \<or> f64_le_zero hz then Err (HzNotPositive v)
             else and_then (from_secs_f64 (f64_div f64_one hz)) (\<lambda>d. Ok (Timer d)))
           else Err (UnknownTimerUnit unit)))"

definition parse_logs :: "string \<Rightarrow> (mapping_error, input_mapping) outcome" where
  "parse_logs rest =
     (let (level, node) =
        (case split_once (CHR ''/'') rest of
           Some (l, n) \<Rightarrow> (Some l, Some (NodeId n))
         | None \<Rightarrow> (if rest = [] then (None, None) else (Some rest, None)))
      in and_then (case level of
             None \<Rightarrow> Ok None
           | Some l \<Rightarrow> and_then (parse_log_level_str l) (\<lambda>x. Ok (Some x))) (\<lambda>min.
         Ok (Logs \<lparr>min_level = min, node_filter = node\<rparr>)))"

definition input_mapping_from_str :: "string \<Rightarrow> (mapping_error, input_mapping) outcome" where
  "input_mapping_from_str s =
     (case split_once (CHR ''/'') s of
        None \<Rightarrow> Err MissingSource
      | Some (source, output) \<Rightarrow>
          (if source = ''dora'' then
             (case split_once (CHR ''/'') output of
                Some (kind, rest) \<Rightarrow>
                  (if kind = ''timer'' then parse_timer rest
                   else if kind = ''logs'' then parse_logs rest
                   else Err (UnknownDoraInput kind))
              | None \<Rightarrow>
                  (if output = ''logs'' then Ok (Logs \<lparr>min_level = None, node_filter = None\<rparr>)
                   else Err InvalidDoraInput))
           else
             and_then (node_id_from source) (\<lambda>n.
             and_then (data_id_from output) (\<lambda>d.
             Ok (User n d)))))"

section \<open>Lemmas\<close>

lemma input_def_roundtrip: "input_of_def (input_def_of i) = i"
  by (cases i) (auto simp: input_def_of_def)

lemma effective_cap_bounds:
  "effective_cap Backpressure q \<ge> 100"
  "q \<le> usize_max \<Longrightarrow> q \<le> effective_cap p q"
  "q \<le> usize_max \<Longrightarrow> effective_cap p q \<le> usize_max"
  by (cases p; simp add: saturating_mul_def)+

lemma format_log_level_no_slash [simp]: "CHR ''/'' \<notin> set (format_log_level l)"
  by (cases l rule: format_log_level.cases) auto

lemma format_log_level_not_Nil [simp]: "format_log_level l \<noteq> []"
  by (cases l rule: format_log_level.cases) auto

lemma parse_format_log_level [simp]: "parse_log_level_str (format_log_level l) = Ok l"
  by (cases l rule: format_log_level.cases)
    (auto simp: parse_log_level_str_def to_lowercase_def char_class_defs)

text \<open>
  The intervals that survive printing: whole milliseconds (whole seconds when there is no
  millisecond part), within the range the parser accepts.
\<close>

definition printable_interval :: "duration \<Rightarrow> bool" where
  "printable_interval d \<longleftrightarrow>
     (if d mod nanos_per_sec = 0 then as_secs d \<le> u64_max
      else d mod nanos_per_milli = 0 \<and> as_millis d \<le> u64_max)"

fun printable_mapping :: "input_mapping \<Rightarrow> bool" where
  "printable_mapping (Timer d) = printable_interval d"
| "printable_mapping (Logs f) = (min_level f = None \<longrightarrow> node_filter f = None)"
| "printable_mapping (User s d) =
     (valid_node_id (node_name s) \<and> node_name s \<noteq> ''dora'' \<and> valid_data_id (data_name d))"

text \<open>Identifiers of a mapping that came through validation.\<close>

fun valid_mapping_ids :: "input_mapping \<Rightarrow> bool" where
  "valid_mapping_ids (User s d) = (valid_node_id (node_name s) \<and> valid_data_id (data_name d))"
| "valid_mapping_ids m = True"

lemma parse_uint_show_nat_None: "\<not> n \<le> mx \<Longrightarrow> parse_uint mx (show_nat n) = None"
proof -
  assume "\<not> n \<le> mx"
  moreover have "hd (show_nat n) \<noteq> CHR ''+''"
    using show_nat_digits[of "hd (show_nat n)" n] digit_not_plus by (metis hd_in_set show_nat_not_Nil)
  ultimately show ?thesis
    using parse_digits_show[of 0 n] by (simp add: parse_uint_def)
qed

lemma parse_timer_format:
  "parse_timer (format_duration d) =
     (if subsec_millis d = 0
      then (if as_secs d \<le> u64_max then Ok (Timer (from_secs (as_secs d)))
            else Err (SecsNotInteger (show_nat (as_secs d))))
      else (if as_millis d \<le> u64_max then Ok (Timer (from_millis (as_millis d)))
            else Err (MillisNotInteger (show_nat (as_millis d)))))"
  by (simp add: parse_timer_def format_duration_def parse_uint_show_nat_None)

lemma from_secs_as_secs: "from_secs (as_secs d) = d \<longleftrightarrow> d mod nanos_per_sec = 0"
  unfolding from_secs_def as_secs_def using div_mult_mod_eq[of d nanos_per_sec] by linarith

lemma from_millis_as_millis: "from_millis (as_millis d) = d \<longleftrightarrow> d mod nanos_per_milli = 0"
  unfolding from_millis_def as_millis_def using div_mult_mod_eq[of d nanos_per_milli] by linarith

lemma timer_roundtrip: "parse_timer (format_duration d) = Ok (Timer d) \<longleftrightarrow> printable_interval d"
proof -
  have sub: "d mod nanos_per_sec = 0 \<Longrightarrow> subsec_millis d = 0"
    by (simp add: subsec_millis_def)
  have "d mod nanos_per_sec mod nanos_per_milli = d mod nanos_per_milli"
    by (rule mod_mod_cancel) simp
  then have sub': "subsec_millis d = 0 \<Longrightarrow> d mod nanos_per_milli = 0 \<Longrightarrow> d mod nanos_per_sec = 0"
    by (auto simp: subsec_millis_def)
  show ?thesis
    using sub sub' from_secs_as_secs[of d] from_millis_as_millis[of d]
    by (auto simp: parse_timer_format printable_interval_def)
qed

lemma parse_logs_format:
  "parse_logs (format_log_level l @ (case n of None \<Rightarrow> [] | Some n \<Rightarrow> ''/'' @ node_name n)) =
     Ok (Logs \<lparr>min_level = Some l, node_filter = n\<rparr>)"
  by (cases n) (auto simp: parse_logs_def split_once_append)

lemma dora_roundtrip:
  "input_mapping_from_str (display_mapping (Timer d)) = parse_timer (format_duration d)"
  "input_mapping_from_str (display_mapping (Logs f)) =
     Ok (Logs (if min_level f = None then \<lparr>min_level = None, node_filter = None\<rparr> else f))"
  by (auto simp: input_mapping_from_str_def parse_logs_format split: option.splits)

lemma user_parse:
  assumes "CHR ''/'' \<notin> set src" "src \<noteq> ''dora''"
  shows "input_mapping_from_str (src @ ''/'' @ out) =
    (if valid_node_id src \<and> valid_data_id out then Ok (User (NodeId src) (DataId out)) else Panic)"
  using assms
  by (simp add: input_mapping_from_str_def split_once_append node_id_from_def data_id_from_def)

lemma parse_timer_result: "parse_timer s = Ok m \<Longrightarrow> \<exists>d. m = Timer d"
  by (auto simp: parse_timer_def split: option.splits prod.splits if_splits)

lemma parse_logs_result: "parse_logs s = Ok m \<Longrightarrow> \<exists>f. m = Logs f"
  by (auto simp: parse_logs_def split: option.splits prod.splits if_splits)

lemma parse_user_result:
  assumes "input_mapping_from_str s = Ok (User n d)"
  shows "s = node_name n @ ''/'' @ data_name d" and "valid_node_id (node_name n)"
    and "valid_data_id (data_name d)" and "node_name n \<noteq> ''dora''"
  using assms
  by (auto simp: input_mapping_from_str_def split_once_Some split: option.splits prod.splits if_splits
      dest: parse_timer_result parse_logs_result)

lemma user_roundtrip:
  "input_mapping_from_str (display_mapping (User n d)) = Ok (User n d) \<longleftrightarrow> printable_mapping (User n d)"
  using parse_user_result[of "display_mapping (User n d)" n d] user_parse[of "node_name n" "data_name d"]
  by (auto simp: valid_node_id_no_slash)

lemma parse_hz_2000:
  "parse_f64 ''2000'' = Some (F64 False 8796093022208000 (- 42))"
  "f64_div f64_one (F64 False 8796093022208000 (- 42)) = F64 False 4611686018427388 (- 63)"
  "from_secs_f64 (F64 False 4611686018427388 (- 63)) = Ok 500000"
proof -
  have "parse_f64 ''2000'' = Some (f64_of_ratio False 2000 1)"
    by (simp add: parse_f64_eval)
  then show "parse_f64 ''2000'' = Some (F64 False 8796093022208000 (- 42))"
    by (simp add: f64_eval)
qed (simp_all add: f64_eval)

section \<open>Properties\<close>

text \<open>
  C40. Printing an input mapping and parsing the text gives the mapping back exactly for the printable
  ones: valid identifiers with a source other than the reserved name, timers of whole milliseconds
  in range, log filters that do not name a node without a level.
\<close>

theorem input_mapping_roundtrip:
  "input_mapping_from_str (display_mapping m) = Ok m \<longleftrightarrow> printable_mapping m"
proof (cases m)
  case (Timer d)
  then show ?thesis by (simp only: dora_roundtrip(1) timer_roundtrip printable_mapping.simps)
next
  case (Logs f)
  then show ?thesis by (cases f) (auto simp only: dora_roundtrip(2) printable_mapping.simps; auto)
next
  case (User n d)
  then show ?thesis by (simp only: user_roundtrip)
qed

text \<open>
  Parsing a user mapping: split at the first slash, the source and the output are accepted when they are
  valid identifiers; when one is not, the parser panics, although its type offers an error.
\<close>

theorem input_mapping_user:
  assumes "CHR ''/'' \<notin> set src" "src \<noteq> ''dora''"
  shows "input_mapping_from_str (src @ ''/'' @ out) =
    (if valid_node_id src \<and> valid_data_id out then Ok (User (NodeId src) (DataId out)) else Panic)"
  using assms by (rule user_parse)

theorem input_mapping_user_witness:
  "input_mapping_from_str (''camera'' @ ''/'' @ ''op/image'') =
     Ok (User (NodeId ''camera'') (DataId ''op/image'')) \<and>
   input_mapping_from_str (''cam 1'' @ ''/'' @ ''image'') = Panic"
  using input_mapping_user[of "''camera''" "''op/image''"] input_mapping_user[of "''cam 1''" "''image''"]
  by (simp add: valid_node_id_def valid_data_id_def node_id_char_def char_class_defs)

text \<open>
  A timer given as a frequency keeps its interval in nanoseconds when it is parsed, but not
  when it is printed: a 2 kHz timer has an interval of half a millisecond, is printed as zero seconds
  and comes back with the interval zero.
\<close>

theorem hz_timer_loses_interval:
  "input_mapping_from_str ''dora/timer/hz/2000'' = Ok (Timer 500000) \<and>
   display_mapping (Timer 500000) = ''dora/timer/secs/0'' \<and>
   input_mapping_from_str (display_mapping (Timer 500000)) = Ok (Timer 0)"
proof (intro conjI)
  show "input_mapping_from_str ''dora/timer/hz/2000'' = Ok (Timer 500000)"
    by (simp add: input_mapping_from_str_def parse_timer_def parse_hz_2000
        del: f64_div.simps from_secs_f64.simps)
  show "display_mapping (Timer 500000) = ''dora/timer/secs/0''"
    by (simp add: format_duration_def subsec_millis_def as_secs_def show_nat.simps) code_simp
  show "input_mapping_from_str (display_mapping (Timer 500000)) = Ok (Timer 0)"
    by (simp only: dora_roundtrip(1) parse_timer_format)
      (simp add: subsec_millis_def as_secs_def from_secs_def)
qed

end
