(* ===== verification/Messages.thy ===== *)
theory Messages
  imports Config
begin

text \<open>
  The messages a node receives: metadata and its parameters (\<^verbatim>\<open>libraries/message/src/metadata.rs\<close>),
  the events a daemon sends (\<^verbatim>\<open>libraries/message/src/daemon_to_node.rs\<close>), the items of the
  node's event channel (\<^verbatim>\<open>apis/rust/node/src/event_stream/thread.rs\<close>) and the events handed to
  user code (\<^verbatim>\<open>event.rs\<close>). Payloads are byte strings. An Arrow array, a JSON value and an error
  report are opaque: a number that identifies them. The Arrow description of a payload is reduced
  to its data type.
\<close>

section \<open>Metadata\<close>

text \<open>The data types the code names, of those that Arrow has; the others keep their name.\<close>

datatype data_type =
    DtNull
  | DtBoolean
  | DtInt32
  | DtInt64
  | DtUInt8
  | DtUInt32
  | DtUInt64
  | DtFloat32
  | DtFloat64
  | DtUtf8
  | DtLargeBinary
  | DtLargeList data_type
  | DtStruct "(string \<times> data_type \<times> bool) list"
  | DtOther string

datatype parameter =
    PBool bool
  | PInteger int
  | PString string
  | PListInt "int list"
  | PFloat f64
  | PListFloat "f64 list"
  | PListString "string list"
  | PTimestamp int

type_synonym metadata_parameters = "(string \<times> parameter) list"

record metadata =
  metadata_version :: nat
  metadata_timestamp :: nat
  type_info :: data_type
  parameters :: metadata_parameters

definition metadata_from_parameters :: "nat \<Rightarrow> data_type \<Rightarrow> metadata_parameters \<Rightarrow> metadata" where
  "metadata_from_parameters ts ti ps =
     \<lparr>metadata_version = 0, metadata_timestamp = ts, type_info = ti, parameters = ps\<rparr>"

definition metadata_new :: "nat \<Rightarrow> data_type \<Rightarrow> metadata" where
  "metadata_new ts ti = metadata_from_parameters ts ti []"

definition contains_key :: "string \<Rightarrow> metadata_parameters \<Rightarrow> bool" where
  "contains_key k ps \<longleftrightarrow> map_of ps k \<noteq> None"

definition get_string_param :: "metadata_parameters \<Rightarrow> string \<Rightarrow> string option" where
  "get_string_param ps k = (case map_of ps k of Some (PString s) \<Rightarrow> Some s | _ \<Rightarrow> None)"

definition get_integer_param :: "metadata_parameters \<Rightarrow> string \<Rightarrow> int option" where
  "get_integer_param ps k = (case map_of ps k of Some (PInteger n) \<Rightarrow> Some n | _ \<Rightarrow> None)"

definition get_bool_param :: "metadata_parameters \<Rightarrow> string \<Rightarrow> bool option" where
  "get_bool_param ps k = (case map_of ps k of Some (PBool b) \<Rightarrow> Some b | _ \<Rightarrow> None)"

definition open_telemetry_context :: "metadata \<Rightarrow> string" where
  "open_telemetry_context m =
     (case get_string_param (parameters m) ''open_telemetry_context'' of None \<Rightarrow> [] | Some s \<Rightarrow> s)"

abbreviation REQUEST_ID :: string where "REQUEST_ID \<equiv> ''request_id''"
abbreviation GOAL_ID :: string where "GOAL_ID \<equiv> ''goal_id''"
abbreviation GOAL_STATUS :: string where "GOAL_STATUS \<equiv> ''goal_status''"
abbreviation GOAL_STATUS_SUCCEEDED :: string where "GOAL_STATUS_SUCCEEDED \<equiv> ''succeeded''"
abbreviation GOAL_STATUS_ABORTED :: string where "GOAL_STATUS_ABORTED \<equiv> ''aborted''"
abbreviation GOAL_STATUS_CANCELED :: string where "GOAL_STATUS_CANCELED \<equiv> ''canceled''"
abbreviation FLUSH :: string where "FLUSH \<equiv> ''flush''"

section \<open>Events\<close>

type_synonym drop_token = nat

datatype data_message =
    DataVec "nat list"
  | SharedMemory string nat drop_token

fun data_drop_token :: "data_message \<Rightarrow> drop_token option" where
  "data_drop_token (DataVec bs) = None"
| "data_drop_token (SharedMemory i n t) = Some t"

datatype node_event =
    NStop
  | NReload "operator_id option"
  | NInput data_id metadata "data_message option"
  | NInputClosed data_id
  | NInputRecovered data_id
  | NNodeRestarted node_id
  | NAllInputsClosed
  | NParamUpdate string nat
  | NParamDeleted string
  | NNodeFailed "data_id list" string node_id

text \<open>An item of the event channel; the acknowledgement channel of a daemon event is its identity.\<close>

datatype event_item =
    NodeEvent node_event nat
  | ZenohInput data_id metadata "nat list"
  | FatalError string
  | TimeoutError string

datatype stop_cause = Manual | AllInputsClosed

datatype event =
    Input data_id metadata nat
  | InputClosed data_id
  | InputRecovered data_id
  | NodeRestarted node_id
  | Stop stop_cause
  | Reload "operator_id option"
  | ParamUpdate string nat
  | ParamDeleted string
  | NodeFailed "data_id list" string node_id
  | EventError string

text \<open>The key under which the scheduler queues everything that is not an input.\<close>

definition NON_INPUT_EVENT :: data_id where
  "NON_INPUT_EVENT = DataId ''dora.non_input_event''"

text \<open>The identifier and parameters of an input item, \<open>None\<close> for everything else.\<close>

fun input_params :: "event_item \<Rightarrow> (data_id \<times> metadata_parameters) option" where
  "input_params (NodeEvent (NInput i m d) a) = Some (i, parameters m)"
| "input_params (ZenohInput i m p) = Some (i, parameters m)"
| "input_params _ = None"

end
