(* ===== verification/Scheduler.thy ===== *)
theory Scheduler
  imports Messages "HOL-Library.Sublist"
begin

text \<open>
  The scheduler of a node's event stream (\<^verbatim>\<open>apis/rust/node/src/event_stream/scheduler.rs\<close>): one
  bounded queue per input and one for everything else, an eviction rule that protects messages
  correlated with a request or a goal, and a choice of the next event that serves other events
  first and the inputs in least-recently-used order. Drop counters are natural numbers.
\<close>

section \<open>Correlation and eviction\<close>

definition is_correlated :: "event_item \<Rightarrow> bool" where
  "is_correlated e =
     (case input_params e of
        None \<Rightarrow> False
      | Some (_, ps) \<Rightarrow>
          contains_key REQUEST_ID ps \<or> contains_key GOAL_ID ps \<or> contains_key GOAL_STATUS ps)"

datatype eviction = RemoveAt nat | DropIncoming | DropFrontLoud

definition select_eviction :: "event_item list \<Rightarrow> event_item \<Rightarrow> eviction" where
  "select_eviction queue incoming =
     (case position (\<lambda>e. \<not> is_correlated e) queue of
        Some idx \<Rightarrow> RemoveAt idx
      | None \<Rightarrow> if \<not> is_correlated incoming then DropIncoming else DropFrontLoud)"

text \<open>
  The report of a dropped correlated event: the input and the three correlation keys. An input that
  came over Zenoh is not reported.
\<close>

fun log_correlation_drop ::
    "data_id \<Rightarrow> event_item \<Rightarrow> (data_id \<times> string option \<times> string option \<times> string option) option" where
  "log_correlation_drop i (NodeEvent (NInput d m x) a) =
     Some (i, get_string_param (parameters m) REQUEST_ID,
           get_string_param (parameters m) GOAL_ID, get_string_param (parameters m) GOAL_STATUS)"
| "log_correlation_drop i _ = None"

section \<open>State and operations\<close>

record scheduler =
  last_used :: "data_id list"
  event_queues :: "(data_id \<times> nat \<times> event_item list) list"
  queue_policies :: "(data_id \<times> queue_policy) list"
  dropped :: "(data_id \<times> nat) list"

definition with_policies ::
    "(data_id \<times> nat \<times> event_item list) list \<Rightarrow> (data_id \<times> queue_policy) list \<Rightarrow> scheduler" where
  "with_policies queues policies =
     \<lparr>last_used = filter (\<lambda>t. t \<noteq> NON_INPUT_EVENT) (map fst queues),
      event_queues = queues, queue_policies = policies, dropped = []\<rparr>"

definition drain_drop_counts :: "scheduler \<Rightarrow> (data_id \<times> nat) list \<times> scheduler" where
  "drain_drop_counts s = (dropped s, s\<lparr>dropped := []\<rparr>)"

text \<open>The queue an event belongs to, and whether it asks for older messages to be discarded.\<close>

definition event_key :: "event_item \<Rightarrow> data_id" where
  "event_key e = (case input_params e of None \<Rightarrow> NON_INPUT_EVENT | Some (i, _) \<Rightarrow> i)"

definition should_flush :: "event_item \<Rightarrow> bool" where
  "should_flush e =
     (case input_params e of None \<Rightarrow> False | Some (_, ps) \<Rightarrow> get_bool_param ps FLUSH = Some True)"

definition flush_queue :: "data_id \<Rightarrow> scheduler \<Rightarrow> scheduler" where
  "flush_queue i s =
     (case map_of (event_queues s) i of
        None \<Rightarrow> s
      | Some (sz, q) \<Rightarrow>
          s\<lparr>event_queues := hm_insert i (sz, filter is_correlated q) (event_queues s)\<rparr>)"

definition ensure_queue :: "data_id \<Rightarrow> scheduler \<Rightarrow> scheduler" where
  "ensure_queue i s =
     (case map_of (event_queues s) i of
        Some _ \<Rightarrow> s
      | None \<Rightarrow>
          s\<lparr>event_queues := hm_insert i (DEFAULT_QUEUE_SIZE, []) (event_queues s),
            last_used := last_used s @ [i]\<rparr>)"

definition policy_of :: "scheduler \<Rightarrow> data_id \<Rightarrow> queue_policy" where
  "policy_of s i = (case map_of (queue_policies s) i of None \<Rightarrow> DropOldest | Some p \<Rightarrow> p)"

text \<open>Append under the capacity: the new queue, and whether an event was dropped for it.\<close>

definition enforce_limit :: "nat \<Rightarrow> event_item list \<Rightarrow> event_item \<Rightarrow> event_item list \<times> bool" where
  "enforce_limit cap q e =
     (if length q \<ge> cap then
        (case select_eviction q e of
           RemoveAt idx \<Rightarrow> (remove_at idx q @ [e], True)
         | DropIncoming \<Rightarrow> (q, True)
         | DropFrontLoud \<Rightarrow> (tl q @ [e], True))
      else (q @ [e], False))"

definition add_event :: "event_item \<Rightarrow> scheduler \<Rightarrow> scheduler" where
  "add_event e s =
     (let i = event_key e;
          s1 = (if should_flush e then flush_queue i s else s);
          s2 = ensure_queue i s1
      in case map_of (event_queues s2) i of
           None \<Rightarrow> s2
         | Some (sz, q) \<Rightarrow>
             (let (q', lost) = enforce_limit (effective_cap (policy_of s2 i) sz) q e
              in s2\<lparr>event_queues := hm_insert i (sz, q') (event_queues s2),
                    dropped := (if lost then hm_entry i 0 Suc (dropped s2) else dropped s2)\<rparr>))"

text \<open>The loop over the identifiers in least-recently-used order; the first argument has been passed.\<close>

fun next_input :: "data_id list \<Rightarrow> data_id list \<Rightarrow> scheduler \<Rightarrow> event_item option \<times> scheduler" where
  "next_input pre [] s = (None, s)"
| "next_input pre (i # rest) s =
     (case map_of (event_queues s) i of
        Some (sz, e # q) \<Rightarrow>
          (Some e, s\<lparr>event_queues := hm_insert i (sz, q) (event_queues s),
                     last_used := pre @ rest @ [i]\<rparr>)
      | _ \<Rightarrow> next_input (pre @ [i]) rest s)"

definition scheduler_next :: "scheduler \<Rightarrow> event_item option \<times> scheduler" where
  "scheduler_next s =
     (case map_of (event_queues s) NON_INPUT_EVENT of
        Some (sz, e # q) \<Rightarrow>
          (Some e, s\<lparr>event_queues := hm_insert NON_INPUT_EVENT (sz, q) (event_queues s)\<rparr>)
      | _ \<Rightarrow> next_input [] (last_used s) s)"

definition scheduler_is_empty :: "scheduler \<Rightarrow> bool" where
  "scheduler_is_empty s = list_all (\<lambda>(i, sz, q). q = []) (event_queues s)"

text \<open>
  How the event stream builds its scheduler from the configured inputs: one queue per input of the
  configured or default size, a queue of 1000 for the other events, and the policies.
\<close>

definition init_scheduler :: "(data_id \<times> input) list \<Rightarrow> scheduler" where
  "init_scheduler config =
     (let queues = fold (\<lambda>(i, c). hm_insert i
            (case queue_size c of None \<Rightarrow> DEFAULT_QUEUE_SIZE | Some n \<Rightarrow> n, [])) config [];
          policies = fold (\<lambda>(i, c) m. case input_queue_policy c of
            None \<Rightarrow> m | Some p \<Rightarrow> hm_insert i p m) config []
      in with_policies (hm_insert NON_INPUT_EVENT (1000, []) queues) policies)"

section \<open>Views of the state\<close>

definition queue_of :: "scheduler \<Rightarrow> data_id \<Rightarrow> event_item list" where
  "queue_of s i = (case map_of (event_queues s) i of None \<Rightarrow> [] | Some (sz, q) \<Rightarrow> q)"

definition capacity_of :: "scheduler \<Rightarrow> data_id \<Rightarrow> nat" where
  "capacity_of s i =
     effective_cap (policy_of s i)
       (case map_of (event_queues s) i of None \<Rightarrow> DEFAULT_QUEUE_SIZE | Some (sz, q) \<Rightarrow> sz)"

definition drop_count :: "scheduler \<Rightarrow> data_id \<Rightarrow> nat" where
  "drop_count s i = (case map_of (dropped s) i of None \<Rightarrow> 0 | Some n \<Rightarrow> n)"

text \<open>What is left of a queue for an incoming event: everything, or the correlated part on a flush.\<close>

definition kept_queue :: "event_item \<Rightarrow> scheduler \<Rightarrow> event_item list" where
  "kept_queue e s =
     (if should_flush e then filter is_correlated (queue_of s (event_key e))
      else queue_of s (event_key e))"

text \<open>Well-formed states: keys, order and queues fit together and no queue exceeds its capacity.\<close>

definition sched_inv :: "scheduler \<Rightarrow> bool" where
  "sched_inv s \<longleftrightarrow>
     hm_wf (event_queues s) \<and> distinct (last_used s) \<and>
     set (last_used s) \<subseteq> set (map fst (event_queues s)) \<and>
     set (map fst (event_queues s)) \<subseteq> insert NON_INPUT_EVENT (set (last_used s)) \<and>
     (\<forall>i. length (queue_of s i) \<le> max 1 (capacity_of s i)) \<and>
     (\<forall>i. \<forall>e \<in> set (queue_of s i). event_key e = i)"

section \<open>The bounded append\<close>

lemma enforce_limit_length:
  "length q \<le> max 1 cap \<Longrightarrow> length (fst (enforce_limit cap q e)) \<le> max 1 cap"
  by (auto simp: enforce_limit_def select_eviction_def remove_at_def
      split: option.splits dest!: position_SomeD)

lemma enforce_limit_count:
  "cap > 0 \<Longrightarrow>
   length (fst (enforce_limit cap q e)) + (if snd (enforce_limit cap q e) then 1 else 0) = Suc (length q)"
  by (auto simp: enforce_limit_def select_eviction_def
      split: option.splits dest!: position_SomeD)

lemma enforce_limit_correlated:
  assumes "is_correlated e \<Longrightarrow> length q < cap \<or> (\<exists>x \<in> set q. \<not> is_correlated x)"
  shows "filter is_correlated (fst (enforce_limit cap q e)) =
    filter is_correlated q @ (if is_correlated e then [e] else [])"
  using assms
  by (auto simp: enforce_limit_def select_eviction_def position_None
      split: option.splits dest!: position_SomeD)

lemma enforce_limit_set: "set (fst (enforce_limit cap q e)) \<subseteq> insert e (set q)"
  by (auto simp: enforce_limit_def select_eviction_def
      split: option.splits dest!: position_SomeD dest: subsetD[OF set_tl_subset])

lemma enforce_limit_subseq: "subseq (fst (enforce_limit cap q e)) (q @ [e])"
proof (cases "length q < cap")
  case True
  then show ?thesis by (simp add: enforce_limit_def)
next
  case False
  show ?thesis
  proof (cases "position (\<lambda>e. \<not> is_correlated e) q")
    case None
    have "subseq (tl q) q" by (cases q) auto
    with None False show ?thesis
      by (auto simp: enforce_limit_def select_eviction_def intro: list_emb_append_mono)
  next
    case (Some i)
    then obtain a x b where "q = a @ x # b" "length a = i" by (blast dest: position_SomeD)
    moreover have "subseq (a @ b) (a @ x # b)" by (intro list_emb_append_mono) auto
    ultimately show ?thesis
      using Some False
      by (auto simp: enforce_limit_def select_eviction_def intro: list_emb_append_mono)
  qed
qed

section \<open>Adding an event\<close>

lemma ensure_queue_views [simp]:
  "queue_of (ensure_queue i s) = queue_of s"
  "capacity_of (ensure_queue i s) = capacity_of s"
  "dropped (ensure_queue i s) = dropped s"
  "queue_policies (ensure_queue i s) = queue_policies s"
  by (auto simp: ensure_queue_def queue_of_def capacity_of_def policy_of_def fun_eq_iff
      split: option.splits)

lemma flush_queue_views [simp]:
  "queue_of (flush_queue i s) = (queue_of s)(i := filter is_correlated (queue_of s i))"
  "capacity_of (flush_queue i s) = capacity_of s"
  "dropped (flush_queue i s) = dropped s"
  "last_used (flush_queue i s) = last_used s"
  "map_of (event_queues (flush_queue i s)) j = None \<longleftrightarrow> map_of (event_queues s) j = None"
  by (auto simp: flush_queue_def queue_of_def capacity_of_def policy_of_def fun_eq_iff
      split: option.splits)

lemma ensure_queue_present: "\<exists>sz q. map_of (event_queues (ensure_queue i s)) i = Some (sz, q)"
  by (auto simp: ensure_queue_def split: option.splits)

lemma add_event_unfold:
  fixes e s
  defines "i \<equiv> event_key e"
  defines "s2 \<equiv> ensure_queue i (if should_flush e then flush_queue i s else s)"
  obtains sz q where
    "map_of (event_queues s2) i = Some (sz, q)" "q = kept_queue e s"
    "effective_cap (policy_of s2 i) sz = capacity_of s i"
    "add_event e s = s2\<lparr>event_queues := hm_insert i (sz, fst (enforce_limit (capacity_of s i) q e)) (event_queues s2),
       dropped := (if snd (enforce_limit (capacity_of s i) q e) then hm_entry i 0 Suc (dropped s) else dropped s)\<rparr>"
proof -
  obtain sz q where q: "map_of (event_queues s2) i = Some (sz, q)"
    using ensure_queue_present unfolding s2_def by blast
  have d: "dropped s2 = dropped s" by (simp add: s2_def)
  have "queue_of s2 i = kept_queue e s" "capacity_of s2 i = capacity_of s i"
    by (auto simp: s2_def kept_queue_def i_def)
  with q have *: "q = kept_queue e s" "effective_cap (policy_of s2 i) sz = capacity_of s i"
    by (auto simp: queue_of_def capacity_of_def)
  show thesis
    by (rule that[OF q *])
      (use q * d in \<open>simp add: add_event_def s2_def[symmetric] i_def[symmetric] Let_def d split: prod.splits\<close>)
qed

lemma add_event_queue_of:
  "queue_of (add_event e s) =
     (queue_of s)(event_key e := fst (enforce_limit (capacity_of s (event_key e)) (kept_queue e s) e))"
  by (rule add_event_unfold[of e s])
    (auto simp: queue_of_def fun_eq_iff ensure_queue_def flush_queue_def split: option.splits)

lemma capacity_of_update:
  "map_of (event_queues s) i = Some (sz, q) \<Longrightarrow>
   capacity_of (s\<lparr>event_queues := hm_insert i (sz, q') (event_queues s), dropped := d\<rparr>) = capacity_of s"
  by (simp add: capacity_of_def policy_of_def fun_eq_iff)

lemma add_event_capacity_of: "capacity_of (add_event e s) = capacity_of s"
  by (rule add_event_unfold[of e s]) (simp add: capacity_of_update)

lemma add_event_drop_count:
  "drop_count (add_event e s) =
     (drop_count s)(event_key e := drop_count s (event_key e) +
        (if snd (enforce_limit (capacity_of s (event_key e)) (kept_queue e s) e) then 1 else 0))"
  by (rule add_event_unfold[of e s]) (auto simp: drop_count_def fun_eq_iff split: option.splits)

lemma add_event_last_used:
  "last_used (add_event e s) =
     (if map_of (event_queues s) (event_key e) = None then last_used s @ [event_key e] else last_used s)"
  by (rule add_event_unfold[of e s])
    (auto simp: ensure_queue_def flush_queue_def split: option.splits)

lemma add_event_keys:
  "fst ` set (event_queues (add_event e s)) = insert (event_key e) (fst ` set (event_queues s))"
  by (rule add_event_unfold[of e s])
    (auto simp: ensure_queue_def flush_queue_def dom_map_of_conv_image_fst[symmetric] split: option.splits)

lemma add_event_wf: "hm_wf (event_queues s) \<Longrightarrow> hm_wf (event_queues (add_event e s))"
  by (rule add_event_unfold[of e s])
    (auto simp: ensure_queue_def flush_queue_def distinct_update split: option.splits)

lemma sched_inv_add_event:
  assumes "sched_inv s"
  shows "sched_inv (add_event e s)"
proof -
  let ?i = "event_key e"
  have kept: "length (kept_queue e s) \<le> max 1 (capacity_of s ?i)" "\<forall>x \<in> set (kept_queue e s). event_key x = ?i"
    using assms unfolding sched_inv_def kept_queue_def
    by (auto intro: order_trans[OF length_filter_le])
  have "length (queue_of (add_event e s) j) \<le> max 1 (capacity_of (add_event e s) j)" for j
    using assms kept enforce_limit_length[of "kept_queue e s" "capacity_of s ?i" e]
    by (simp add: sched_inv_def add_event_queue_of add_event_capacity_of)
  moreover have "\<forall>x \<in> set (queue_of (add_event e s) j). event_key x = j" for j
    using assms kept enforce_limit_set[of "capacity_of s ?i" "kept_queue e s" e]
    by (auto simp: sched_inv_def add_event_queue_of)
  moreover have "?i \<notin> set (last_used s)" if "map_of (event_queues s) ?i = None"
    using assms that by (auto simp: sched_inv_def map_of_eq_None_iff)
  moreover have "?i \<in> fst ` set (event_queues s)" if "map_of (event_queues s) ?i \<noteq> None"
    using that by (auto simp: map_of_eq_None_iff)
  ultimately show ?thesis
    using assms by (auto simp: sched_inv_def add_event_wf add_event_keys add_event_last_used)
qed

section \<open>Choosing the next event\<close>

lemma queue_of_Cons: "queue_of s i = e # q \<longleftrightarrow> (\<exists>sz. map_of (event_queues s) i = Some (sz, e # q))"
  by (auto simp: queue_of_def split: option.splits)

lemma next_input_none: "\<forall>i \<in> set ids. queue_of s i = [] \<Longrightarrow> next_input pre ids s = (None, s)"
  by (induction ids arbitrary: pre)
    (auto simp: queue_of_def split: option.splits list.splits prod.splits)

definition take_event :: "data_id \<Rightarrow> data_id list \<Rightarrow> scheduler \<Rightarrow> event_item option \<times> scheduler" where
  "take_event i order s =
     (Some (hd (queue_of s i)),
      s\<lparr>event_queues := hm_insert i
          (fst (the (map_of (event_queues s) i)), tl (queue_of s i)) (event_queues s),
        last_used := order\<rparr>)"

lemma next_input_first:
  "\<forall>j \<in> set a. queue_of s j = [] \<Longrightarrow> queue_of s i \<noteq> [] \<Longrightarrow>
   next_input pre (a @ i # b) s = take_event i (pre @ a @ b @ [i]) s"
proof (induction a arbitrary: pre)
  case Nil
  then obtain e q sz where "map_of (event_queues s) i = Some (sz, e # q)"
    by (cases "queue_of s i") (auto simp: queue_of_Cons)
  then show ?case by (simp add: take_event_def queue_of_def)
next
  case (Cons j a)
  then have "queue_of s j = []" by simp
  then have "next_input pre ((j # a) @ i # b) s = next_input (pre @ [j]) (a @ i # b) s"
    by (auto simp: queue_of_def split: option.splits list.splits)
  with Cons show ?case by simp
qed

lemma fst_take_event [simp]: "fst (take_event i ord s) = Some (hd (queue_of s i))"
  by (simp add: take_event_def)

lemma take_event_views:
  assumes "queue_of s i \<noteq> []"
  shows "queue_of (snd (take_event i ord s)) = (queue_of s)(i := tl (queue_of s i))"
    and "capacity_of (snd (take_event i ord s)) = capacity_of s"
    and "dropped (snd (take_event i ord s)) = dropped s"
    and "last_used (snd (take_event i ord s)) = ord"
    and "fst ` set (event_queues (snd (take_event i ord s))) = fst ` set (event_queues s)"
    and "hm_wf (event_queues s) \<Longrightarrow> hm_wf (event_queues (snd (take_event i ord s)))"
proof -
  obtain sz q where sq: "map_of (event_queues s) i = Some (sz, q)"
    using assms by (auto simp: queue_of_def split: option.splits)
  then have i: "i \<in> fst ` set (event_queues s)" by (metis map_of_eq_None_iff option.distinct(1))
  show "queue_of (snd (take_event i ord s)) = (queue_of s)(i := tl (queue_of s i))"
    "capacity_of (snd (take_event i ord s)) = capacity_of s"
    "dropped (snd (take_event i ord s)) = dropped s" "last_used (snd (take_event i ord s)) = ord"
    using sq by (auto simp: take_event_def queue_of_def capacity_of_def policy_of_def fun_eq_iff)
  show "fst ` set (event_queues (snd (take_event i ord s))) = fst ` set (event_queues s)"
    using i by (auto simp: take_event_def dom_map_of_conv_image_fst[symmetric])
  show "hm_wf (event_queues s) \<Longrightarrow> hm_wf (event_queues (snd (take_event i ord s)))"
    by (simp add: take_event_def distinct_update)
qed

text \<open>The three cases of the scheduler's choice.\<close>

lemma scheduler_next_urgent:
  "queue_of s NON_INPUT_EVENT \<noteq> [] \<Longrightarrow>
   scheduler_next s = take_event NON_INPUT_EVENT (last_used s) s"
  by (auto simp: scheduler_next_def take_event_def queue_of_def split: option.splits list.splits)

lemma scheduler_next_input:
  "queue_of s NON_INPUT_EVENT = [] \<Longrightarrow> last_used s = a @ i # b \<Longrightarrow> queue_of s i \<noteq> [] \<Longrightarrow>
   \<forall>j \<in> set a. queue_of s j = [] \<Longrightarrow> scheduler_next s = take_event i (a @ b @ [i]) s"
  using next_input_first[of a s i "[]" b]
  by (auto simp: scheduler_next_def queue_of_def split: option.splits list.splits)

lemma scheduler_next_none:
  "queue_of s NON_INPUT_EVENT = [] \<Longrightarrow> \<forall>i \<in> set (last_used s). queue_of s i = [] \<Longrightarrow>
   scheduler_next s = (None, s)"
  using next_input_none[of "last_used s" s "[]"]
  by (auto simp: scheduler_next_def queue_of_def split: option.splits list.splits)

lemma scheduler_next_cases:
  obtains
    (urgent) "queue_of s NON_INPUT_EVENT \<noteq> []"
      "scheduler_next s = take_event NON_INPUT_EVENT (last_used s) s"
  | (input) a i b where "queue_of s NON_INPUT_EVENT = []" "last_used s = a @ i # b"
      "queue_of s i \<noteq> []" "\<forall>j \<in> set a. queue_of s j = []"
      "scheduler_next s = take_event i (a @ b @ [i]) s"
  | (none) "queue_of s NON_INPUT_EVENT = []" "\<forall>i \<in> set (last_used s). queue_of s i = []"
      "scheduler_next s = (None, s)"
proof (cases "queue_of s NON_INPUT_EVENT = []")
  case False
  then show ?thesis using scheduler_next_urgent urgent by blast
next
  case True
  show ?thesis
  proof (cases "\<exists>i \<in> set (last_used s). queue_of s i \<noteq> []")
    case False
    with True show ?thesis using scheduler_next_none none by blast
  next
    case ex: True
    from split_list_first_prop[OF ex] obtain a i b
      where "last_used s = a @ i # b" "queue_of s i \<noteq> []" "\<forall>j \<in> set a. \<not> queue_of s j \<noteq> []" by blast
    with True show ?thesis using scheduler_next_input[of s a i b] input by blast
  qed
qed

lemma sched_inv_take_event:
  assumes "sched_inv s" "queue_of s i \<noteq> []" "distinct ord" "set ord = set (last_used s)"
  shows "sched_inv (snd (take_event i ord s))"
proof -
  have "length (tl (queue_of s i)) \<le> max 1 (capacity_of s i)"
    using assms(1) unfolding sched_inv_def by (simp) (meson diff_le_self le_trans)
  moreover have "\<forall>x \<in> set (tl (queue_of s i)). event_key x = i"
    using assms(1) set_tl_subset unfolding sched_inv_def by fastforce
  ultimately show ?thesis
    using assms by (auto simp: sched_inv_def take_event_views)
qed

lemma sched_inv_next:
  assumes "sched_inv s"
  shows "sched_inv (snd (scheduler_next s))"
proof (cases s rule: scheduler_next_cases)
  case urgent
  have "distinct (last_used s)" using assms by (simp add: sched_inv_def)
  with assms urgent show ?thesis by (simp add: sched_inv_take_event)
next
  case (input a i b)
  have "distinct (last_used s)" using assms by (simp add: sched_inv_def)
  with assms input show ?thesis by (auto intro!: sched_inv_take_event)
next
  case none
  with assms show ?thesis by simp
qed

section \<open>Fair service\<close>

text \<open>
  The contract behind the fairness claim of the scheduler: a service with one queue per key serves the
  first key of its order with a non-empty queue and moves it to the end; arrivals leave the queues of
  other keys and the order of the present keys alone. In rounds of arrivals followed by one service,
  an event at the head of a queue is then served after at most as many rounds as there are keys
  before it, whatever arrives for the other keys.
\<close>

fun serve_rounds ::
    "('e \<Rightarrow> 's \<Rightarrow> 's) \<Rightarrow> ('s \<Rightarrow> 'e option \<times> 's) \<Rightarrow> 'e list list \<Rightarrow> 's \<Rightarrow> 'e option list" where
  "serve_rounds arrive serve [] s = []"
| "serve_rounds arrive serve (b # bs) s =
     (let (e, s') = serve (fold arrive b s) in e # serve_rounds arrive serve bs s')"

locale lru_service =
  fixes serve :: "'s \<Rightarrow> 'e option \<times> 's"
    and arrive :: "'e \<Rightarrow> 's \<Rightarrow> 's"
    and key :: "'e \<Rightarrow> 'k"
    and queue :: "'s \<Rightarrow> 'k \<Rightarrow> 'e list"
    and order :: "'s \<Rightarrow> 'k list"
    and urgent :: 'k
  assumes serve_input:
      "queue s urgent = [] \<Longrightarrow> order s = a @ k # b \<Longrightarrow> queue s k \<noteq> [] \<Longrightarrow> \<forall>j \<in> set a. queue s j = [] \<Longrightarrow>
       fst (serve s) = Some (hd (queue s k)) \<and> order (snd (serve s)) = a @ b @ [k] \<and>
       queue (snd (serve s)) = (queue s)(k := tl (queue s k))"
    and arrive_queue: "k \<noteq> key x \<Longrightarrow> queue (arrive x s) k = queue s k"
    and arrive_order: "\<exists>t. order (arrive x s) = order s @ t"
begin

lemma arrivals_queue: "\<forall>x \<in> set xs. key x \<noteq> k \<Longrightarrow> queue (fold arrive xs s) k = queue s k"
  by (induction xs arbitrary: s) (auto simp: arrive_queue)

lemma arrivals_order: "\<exists>t. order (fold arrive xs s) = order s @ t"
proof (induction xs arbitrary: s)
  case Nil
  then show ?case by simp
next
  case (Cons x xs)
  from arrive_order[of x s] obtain t where "order (arrive x s) = order s @ t" ..
  moreover from Cons[of "arrive x s"] obtain u
    where "order (fold arrive xs (arrive x s)) = order (arrive x s) @ u" ..
  ultimately show ?case by simp
qed

lemma bounded_wait:
  assumes "queue s urgent = []" "order s = a @ k # b" "queue s k = e # q" "length a < length bs"
    and "\<forall>xs \<in> set bs. \<forall>x \<in> set xs. key x \<noteq> k \<and> key x \<noteq> urgent"
  shows "Some e \<in> set (take (Suc (length a)) (serve_rounds arrive serve bs s))"
  using assms
proof (induction "length a" arbitrary: a b bs s rule: less_induct)
  case less
  obtain xs bs' where bs: "bs = xs # bs'" using less.prems(4) by (cases bs) auto
  define s1 where "s1 = fold arrive xs s"
  from arrivals_order[of xs s] obtain t where ord: "order s1 = a @ k # b @ t"
    using less.prems(2) unfolding s1_def by auto
  have urg: "queue s1 urgent = []" and qk: "queue s1 k = e # q"
    using less.prems bs arrivals_queue unfolding s1_def by auto
  have rounds: "serve_rounds arrive serve bs s =
      fst (serve s1) # serve_rounds arrive serve bs' (snd (serve s1))"
    by (simp add: bs s1_def split: prod.splits)
  show ?case
  proof (cases "\<exists>j \<in> set a. queue s1 j \<noteq> []")
    case False
    then have "fst (serve s1) = Some e" using serve_input[OF urg ord] qk by auto
    then show ?thesis by (simp add: rounds)
  next
    case True
    from split_list_first_prop[OF True] obtain a1 j a2
      where a: "a = a1 @ j # a2" "queue s1 j \<noteq> []" "\<forall>i \<in> set a1. queue s1 i = []" by auto
    have step: "fst (serve s1) = Some (hd (queue s1 j))"
      "order (snd (serve s1)) = (a1 @ a2) @ k # (b @ t @ [j])"
      "queue (snd (serve s1)) = (queue s1)(j := tl (queue s1 j))"
      using serve_input[of s1 a1 j "a2 @ k # b @ t"] urg ord a by auto
    show ?thesis
    proof (cases "j = k")
      case True
      with qk step(1) show ?thesis by (simp add: rounds)
    next
      case False
      have "j \<noteq> urgent" using a(2) urg by auto
      with False have "Some e \<in> set (take (Suc (length (a1 @ a2))) (serve_rounds arrive serve bs' (snd (serve s1))))"
        using less.prems bs urg qk step a by (intro less.hyps[where b = "b @ t @ [j]"]) auto
      then show ?thesis by (simp add: rounds a(1))
    qed
  qed
qed

end

interpretation sched: lru_service scheduler_next add_event event_key queue_of last_used NON_INPUT_EVENT
proof unfold_locales
  fix s a k b
  assume "queue_of s NON_INPUT_EVENT = []" "last_used s = a @ k # b" "queue_of s k \<noteq> []"
    "\<forall>j \<in> set a. queue_of s j = []"
  then show "fst (scheduler_next s) = Some (hd (queue_of s k)) \<and>
      last_used (snd (scheduler_next s)) = a @ b @ [k] \<and>
      queue_of (snd (scheduler_next s)) = (queue_of s)(k := tl (queue_of s k))"
    using scheduler_next_input[of s a k b] take_event_views[of s k "a @ b @ [k]"]
    by (simp add: take_event_def)
qed (auto simp: add_event_queue_of add_event_last_used)

section \<open>Reachable states\<close>

inductive sched_step :: "scheduler \<Rightarrow> scheduler \<Rightarrow> bool" where
  step_add: "sched_step s (add_event e s)"
| step_next: "sched_step s (snd (scheduler_next s))"
| step_drain: "sched_step s (snd (drain_drop_counts s))"

inductive sched_reachable :: "(data_id \<times> input) list \<Rightarrow> scheduler \<Rightarrow> bool" for config where
  reach_init: "sched_reachable config (init_scheduler config)"
| reach_step: "sched_reachable config s \<Longrightarrow> sched_step s t \<Longrightarrow> sched_reachable config t"

lemma sched_inv_drain: "sched_inv s \<Longrightarrow> sched_inv (snd (drain_drop_counts s))"
  by (simp add: sched_inv_def drain_drop_counts_def queue_of_def capacity_of_def policy_of_def)

definition empty_queues :: "(data_id \<times> nat \<times> event_item list) list \<Rightarrow> bool" where
  "empty_queues m \<longleftrightarrow> hm_wf m \<and> (\<forall>i sz q. map_of m i = Some (sz, q) \<longrightarrow> q = [])"

lemma empty_queues_insert: "empty_queues m \<Longrightarrow> empty_queues (hm_insert i (n, []) m)"
  by (auto simp: empty_queues_def distinct_update)

lemma empty_queues_fold: "empty_queues m \<Longrightarrow> empty_queues (fold (\<lambda>(i, c). hm_insert i (f c, [])) config m)"
  by (induction config arbitrary: m) (auto intro: empty_queues_insert)

lemma init_scheduler_queues:
  "hm_wf (event_queues (init_scheduler config))" "queue_of (init_scheduler config) i = []"
proof -
  have "empty_queues (event_queues (init_scheduler config))"
    unfolding init_scheduler_def with_policies_def Let_def scheduler.simps
    by (intro empty_queues_insert empty_queues_fold) (simp add: empty_queues_def)
  then show "hm_wf (event_queues (init_scheduler config))" "queue_of (init_scheduler config) i = []"
    by (auto simp: empty_queues_def queue_of_def split: option.splits)
qed

lemma init_scheduler_order:
  "last_used (init_scheduler config) =
     filter (\<lambda>t. t \<noteq> NON_INPUT_EVENT) (map fst (event_queues (init_scheduler config)))"
  by (simp add: init_scheduler_def with_policies_def Let_def)

lemma sched_inv_init: "sched_inv (init_scheduler config)"
  using init_scheduler_queues[of config] unfolding sched_inv_def init_scheduler_order by auto

lemma sched_inv_reachable: "sched_reachable config s \<Longrightarrow> sched_inv s"
proof (induction rule: sched_reachable.induct)
  case reach_init
  show ?case by (rule sched_inv_init)
next
  case (reach_step s t)
  from reach_step(2,3) show ?case
    by (cases rule: sched_step.cases) (auto intro: sched_inv_add_event sched_inv_next sched_inv_drain)
qed

lemma is_empty_queues: "sched_inv s \<Longrightarrow> scheduler_is_empty s \<longleftrightarrow> (\<forall>i. queue_of s i = [])"
  unfolding sched_inv_def scheduler_is_empty_def queue_of_def list_all_iff
  by (auto split: option.splits simp: map_of_eq_Some_iff dest: map_of_SomeD)

lemma queue_of_outside: "sched_inv s \<Longrightarrow> i \<notin> insert NON_INPUT_EVENT (set (last_used s)) \<Longrightarrow> queue_of s i = []"
  unfolding sched_inv_def queue_of_def
  by (auto split: option.splits dest!: map_of_SomeD)

section \<open>Properties\<close>

text \<open>
  C23. In every state an event stream's scheduler reaches, each queue holds at most its effective
  capacity (one event when the capacity is zero) and only events of its own input, and the
  least-recently-used order lists exactly the configured inputs, without repetition.
\<close>

theorem scheduler_bounded:
  assumes "sched_reachable config s"
  shows "length (queue_of s i) \<le> max 1 (capacity_of s i) \<and>
    (e \<in> set (queue_of s i) \<longrightarrow> event_key e = i) \<and> distinct (last_used s) \<and>
    set (last_used s) \<subseteq> set (map fst (event_queues s)) \<and>
    set (map fst (event_queues s)) \<subseteq> insert NON_INPUT_EVENT (set (last_used s))"
  using sched_inv_reachable[OF assms] by (simp add: sched_inv_def)

text \<open>
  Adding an event with no flush request accounts for exactly one event: the events queued for its input
  and the drop counter together grow by one, and nothing changes for the other inputs.
\<close>

theorem add_event_accounts:
  assumes "capacity_of s (event_key e) > 0" "\<not> should_flush e"
  shows "length (queue_of (add_event e s) i) + drop_count (add_event e s) i =
    length (queue_of s i) + drop_count s i + (if i = event_key e then 1 else 0)"
  using assms enforce_limit_count[of "capacity_of s (event_key e)" "kept_queue e s" e]
  by (simp add: add_event_queue_of add_event_drop_count kept_queue_def)

text \<open>
  C8. Messages correlated with a request or a goal are never lost to make room, unless the incoming
  message is correlated as well and finds a full queue of correlated messages: the correlated part of
  the queue stays in order, also across a flush, and grows by the incoming message when it is correlated.
\<close>

theorem correlated_survive:
  assumes "is_correlated e \<Longrightarrow>
    length (kept_queue e s) < capacity_of s (event_key e) \<or> (\<exists>x \<in> set (kept_queue e s). \<not> is_correlated x)"
  shows "filter is_correlated (queue_of (add_event e s) (event_key e)) =
    filter is_correlated (queue_of s (event_key e)) @ (if is_correlated e then [e] else [])"
  using enforce_limit_correlated[OF assms] by (simp add: add_event_queue_of kept_queue_def)

text \<open>
  Service: the next event is none exactly when all queues are empty; otherwise it is the oldest event of
  one queue, which loses exactly that event. It is the queue of the other events if that has any, else
  that of the first input in least-recently-used order with an event, which moves to the end of the order.
\<close>

theorem scheduler_next_serves:
  assumes "sched_reachable config s" and "scheduler_next s = (r, s')"
  shows "(r = None \<longleftrightarrow> scheduler_is_empty s) \<and>
    (\<forall>e. r = Some e \<longrightarrow>
       (\<exists>i q. queue_of s i = e # q \<and> queue_of s' = (queue_of s)(i := q) \<and>
          (if queue_of s NON_INPUT_EVENT \<noteq> [] then i = NON_INPUT_EVENT \<and> last_used s' = last_used s
           else \<exists>a b. last_used s = a @ i # b \<and> (\<forall>j \<in> set a. queue_of s j = []) \<and>
                  last_used s' = a @ b @ [i])))"
proof -
  have rs: "r = fst (scheduler_next s)" "s' = snd (scheduler_next s)" using assms(2) by simp_all
  note emp = is_empty_queues[OF sched_inv_reachable[OF assms(1)]]
  show ?thesis
  proof (cases s rule: scheduler_next_cases)
    case urgent
    then obtain e q where "queue_of s NON_INPUT_EVENT = e # q" by (cases "queue_of s NON_INPUT_EVENT") auto
    moreover from this urgent rs take_event_views[OF urgent(1)]
    have "r = Some e" "queue_of s' = (queue_of s)(NON_INPUT_EVENT := q)" "last_used s' = last_used s" by simp_all
    moreover have "\<not> scheduler_is_empty s" using emp urgent(1) by blast
    ultimately show ?thesis using urgent(1) by auto
  next
    case (input a i b)
    then obtain e q where "queue_of s i = e # q" by (cases "queue_of s i") auto
    moreover from this input rs take_event_views[OF input(3)]
    have "r = Some e" "queue_of s' = (queue_of s)(i := q)" "last_used s' = a @ b @ [i]" by simp_all
    moreover have "\<not> scheduler_is_empty s" using emp input(3) by blast
    moreover have "\<exists>a b. last_used s = a @ i # b \<and> (\<forall>j \<in> set a. queue_of s j = []) \<and> last_used s' = a @ b @ [i]"
      using input(2,4) calculation by blast
    ultimately show ?thesis using input(1)
      by (intro conjI allI impI exI[of _ i] exI[of _ q]) simp_all
  next
    case none
    then have "queue_of s i = []" for i
      using queue_of_outside[OF sched_inv_reachable[OF assms(1)], of i] by auto
    with rs none emp show ?thesis by auto
  qed
qed

text \<open>
  C16. Fairness: while no other events arrive, the oldest event of an input is served after at most as many
  services as there are inputs before it in the order, however many events arrive for the other inputs between
  the services.
\<close>

theorem input_not_starved:
  assumes "queue_of s NON_INPUT_EVENT = []" and "last_used s = a @ i # b" and "queue_of s i = e # q"
    and "length a < length batches"
    and "\<forall>batch \<in> set batches. \<forall>x \<in> set batch. event_key x \<noteq> i \<and> event_key x \<noteq> NON_INPUT_EVENT"
  shows "Some e \<in> set (take (Suc (length a)) (serve_rounds add_event scheduler_next batches s))"
  using assms by (rule sched.bounded_wait)

text \<open>
  Order: the events of a queue stay in arrival order. After an addition the queue is a subsequence of the
  former queue followed by the incoming event.
\<close>

theorem add_event_keeps_order:
  "subseq (queue_of (add_event e s) (event_key e)) (queue_of s (event_key e) @ [e])"
proof -
  have "subseq (kept_queue e s) (queue_of s (event_key e))" by (simp add: kept_queue_def)
  then have "subseq (kept_queue e s @ [e]) (queue_of s (event_key e) @ [e])"
    by (intro list_emb_append_mono) auto
  then show ?thesis
    unfolding add_event_queue_of fun_upd_same by (rule subseq_order.order_trans[OF enforce_limit_subseq])
qed

definition example_config :: "(data_id \<times> input) list" where
  "example_config =
     [(DataId ''image'', \<lparr>mapping = User (NodeId ''camera'') (DataId ''image''), queue_size = Some 1,
        input_timeout = None, input_queue_policy = None\<rparr>),
      (DataId ''tick'', \<lparr>mapping = Timer 1000000, queue_size = None,
        input_timeout = None, input_queue_policy = None\<rparr>)]"

definition example_input :: "string \<Rightarrow> metadata_parameters \<Rightarrow> event_item" where
  "example_input i ps = NodeEvent (NInput (DataId i) (metadata_from_parameters 0 DtNull ps) None) 0"

definition example_sched :: scheduler where
  "example_sched =
     add_event (example_input ''tick'' []) (add_event (example_input ''image'' []) (init_scheduler example_config))"

lemma example_sched_reachable: "sched_reachable example_config example_sched"
  unfolding example_sched_def by (intro reach_step[OF _ step_add] reach_init)

lemma example_input_facts [simp]:
  "event_key (example_input i ps) = DataId i"
  "should_flush (example_input i ps) \<longleftrightarrow> get_bool_param ps FLUSH = Some True"
  "is_correlated (example_input i ps) \<longleftrightarrow>
     contains_key REQUEST_ID ps \<or> contains_key GOAL_ID ps \<or> contains_key GOAL_STATUS ps"
  by (simp_all add: event_key_def should_flush_def is_correlated_def example_input_def
      metadata_from_parameters_def)

lemma example_init:
  "capacity_of (init_scheduler example_config) (DataId ''image'') = 1"
  "capacity_of (init_scheduler example_config) (DataId ''tick'') = 10"
  "last_used (init_scheduler example_config) = [DataId ''image'', DataId ''tick'']"
  "map_of (event_queues (init_scheduler example_config)) (DataId ''image'') \<noteq> None"
  "map_of (event_queues (init_scheduler example_config)) (DataId ''tick'') \<noteq> None"
  "dropped (init_scheduler example_config) = []"
  by (simp_all add: init_scheduler_def example_config_def with_policies_def capacity_of_def
      policy_of_def NON_INPUT_EVENT_def DEFAULT_QUEUE_SIZE_def)

lemma example_sched_queues [simp]:
  "queue_of example_sched (DataId ''image'') = [example_input ''image'' []]"
  "queue_of example_sched (DataId ''tick'') = [example_input ''tick'' []]"
  "queue_of example_sched NON_INPUT_EVENT = []"
  "capacity_of example_sched (DataId ''image'') = 1"
  "last_used example_sched = [DataId ''image'', DataId ''tick'']"
  "drop_count example_sched (DataId ''image'') = 0"
  using add_event_keys[of "example_input ''image'' []" "init_scheduler example_config"] example_init(4,5)
  by (simp_all add: example_sched_def add_event_queue_of add_event_capacity_of add_event_drop_count
      add_event_last_used init_scheduler_queues example_init kept_queue_def get_bool_param_def
      enforce_limit_def NON_INPUT_EVENT_def drop_count_def map_of_eq_None_iff)

lemma scheduler_bounded_witness:
  "sched_reachable example_config example_sched \<and>
   length (queue_of example_sched (DataId ''image'')) \<le> max 1 (capacity_of example_sched (DataId ''image'')) \<and>
   distinct (last_used example_sched)"
  using scheduler_bounded[OF example_sched_reachable] example_sched_reachable by blast

lemma add_event_accounts_witness:
  "length (queue_of (add_event (example_input ''image'' []) example_sched) (DataId ''image'')) +
   drop_count (add_event (example_input ''image'' []) example_sched) (DataId ''image'') = 2"
  using add_event_accounts[of example_sched "example_input ''image'' []" "DataId ''image''"]
  by (simp add: get_bool_param_def)

lemma correlated_survive_witness:
  "filter is_correlated
     (queue_of (add_event (example_input ''image'' [(''goal_id'', PString ''g'')]) example_sched) (DataId ''image'')) =
   [example_input ''image'' [(''goal_id'', PString ''g'')]]"
  using correlated_survive[of "example_input ''image'' [(''goal_id'', PString ''g'')]" example_sched]
  by (simp add: kept_queue_def contains_key_def get_bool_param_def)

lemma scheduler_next_serves_witness:
  "\<not> scheduler_is_empty example_sched \<and> fst (scheduler_next example_sched) \<noteq> None"
proof -
  have "\<not> scheduler_is_empty example_sched"
    using is_empty_queues[OF sched_inv_reachable[OF example_sched_reachable]]
    by (metis example_sched_queues(1) list.distinct(1))
  with scheduler_next_serves[OF example_sched_reachable prod.collapse[symmetric]] show ?thesis by blast
qed

lemma input_not_starved_witness:
  "Some (example_input ''tick'' []) \<in>
     set (take 2 (serve_rounds add_event scheduler_next
       [[example_input ''image'' []], [example_input ''image'' [], example_input ''image'' []]] example_sched))"
  using input_not_starved[of example_sched "[DataId ''image'']" "DataId ''tick''" "[]"
      "example_input ''tick'' []" "[]"
      "[[example_input ''image'' []], [example_input ''image'' [], example_input ''image'' []]]"]
  by (simp add: numeral_2_eq_2) (simp add: NON_INPUT_EVENT_def)
end
