(* ===== verification/Event_Stream.thy ===== *)
theory Event_Stream
  imports Scheduler
begin

text \<open>
  The receiving side of a node: the event stream (\<^verbatim>\<open>apis/rust/node/src/event_stream/mod.rs\<close>), the
  thread that feeds it (\<^verbatim>\<open>thread.rs\<close>) and the tracker of input health (\<^verbatim>\<open>input_tracker.rs\<close>).
  The conversion of a payload into an Arrow array and the data type of an array are parameters,
  since both are the Arrow library's. A poll of the asynchronous receiver is \<open>Ready\<close> or \<open>Pending\<close>.
  Recording events to a file and log output are left out.
\<close>

section \<open>Conversion of items into events\<close>

text \<open>The conversion of the payload of an input item: an error text or the array.\<close>

type_synonym to_array = "event_item \<Rightarrow> string + nat"

definition input_event :: "to_array \<Rightarrow> data_id \<Rightarrow> metadata \<Rightarrow> event_item \<Rightarrow> event" where
  "input_event conv i m item =
     (case conv item of Inr a \<Rightarrow> Input i m a | Inl err \<Rightarrow> EventError err)"

fun convert_event_item :: "to_array \<Rightarrow> event_item \<Rightarrow> event" where
  "convert_event_item conv (NodeEvent NStop a) = Stop Manual"
| "convert_event_item conv (NodeEvent (NReload p) a) = Reload p"
| "convert_event_item conv (NodeEvent (NInputClosed i) a) = InputClosed i"
| "convert_event_item conv (NodeEvent (NInputRecovered i) a) = InputRecovered i"
| "convert_event_item conv (NodeEvent (NNodeRestarted n) a) = NodeRestarted n"
| "convert_event_item conv (NodeEvent (NInput i m d) a) =
     input_event conv i m (NodeEvent (NInput i m d) a)"
| "convert_event_item conv (NodeEvent NAllInputsClosed a) = Stop AllInputsClosed"
| "convert_event_item conv (NodeEvent (NParamUpdate k v) a) = ParamUpdate k v"
| "convert_event_item conv (NodeEvent (NParamDeleted k) a) = ParamDeleted k"
| "convert_event_item conv (NodeEvent (NNodeFailed ids err n) a) = NodeFailed ids err n"
| "convert_event_item conv (ZenohInput i m p) = input_event conv i m (ZenohInput i m p)"
| "convert_event_item conv (FatalError err) = EventError (''fatal event stream error: '' @ err)"
| "convert_event_item conv (TimeoutError err) = EventError (''Timeout event stream error: '' @ err)"

section \<open>Receiving\<close>

record event_stream =
  receiver :: "event_item list"
  receiver_closed :: bool
  es_scheduler :: scheduler
  use_scheduler :: bool
  input_type_checks :: "(data_id \<times> data_type) list"
  pending_passthrough :: "event list"

datatype 'a poll = Ready 'a | Pending

text \<open>
  The loop of \<^verbatim>\<open>recv_async\<close> that moves buffered items into the scheduler. It blocks when the
  scheduler is empty and the channel is empty but open; the result tells whether it went through.
\<close>

fun fill_scheduler :: "event_item list \<Rightarrow> bool \<Rightarrow> scheduler \<Rightarrow> bool \<times> scheduler" where
  "fill_scheduler [] closed s = (\<not> scheduler_is_empty s \<or> closed, s)"
| "fill_scheduler (e # es) closed s = fill_scheduler es closed (add_event e s)"

text \<open>The first-message type check: consumed by the first input that is not a pattern message.\<close>

definition is_pattern_message :: "metadata \<Rightarrow> bool" where
  "is_pattern_message m \<longleftrightarrow>
     contains_key REQUEST_ID (parameters m) \<or> contains_key GOAL_ID (parameters m) \<or>
     contains_key GOAL_STATUS (parameters m)"

fun consume_type_check :: "event option \<Rightarrow> event_stream \<Rightarrow> event_stream" where
  "consume_type_check (Some (Input i m a)) st =
     (if map_of (input_type_checks st) i \<noteq> None \<and> \<not> is_pattern_message m
      then st\<lparr>input_type_checks := hm_remove i (input_type_checks st)\<rparr> else st)"
| "consume_type_check _ st = st"

text \<open>The warning of that check: the expected and the actual type, on a mismatch.\<close>

fun type_mismatch :: "(nat \<Rightarrow> data_type) \<Rightarrow> event \<Rightarrow> event_stream \<Rightarrow> (data_type \<times> data_type) option" where
  "type_mismatch dt (Input i m a) st =
     (case map_of (input_type_checks st) i of
        None \<Rightarrow> None
      | Some expected \<Rightarrow>
          (if \<not> is_pattern_message m \<and> dt a \<noteq> DtNull \<and> dt a \<noteq> expected
           then Some (expected, dt a) else None))"
| "type_mismatch dt _ st = None"

definition recv_async :: "to_array \<Rightarrow> event_stream \<Rightarrow> event option poll \<times> event_stream" where
  "recv_async conv st =
     (case pending_passthrough st of
        e # rest \<Rightarrow> (Ready (Some e), st\<lparr>pending_passthrough := rest\<rparr>)
      | [] \<Rightarrow>
          if \<not> use_scheduler st then
            (case receiver st of
               item # rest \<Rightarrow>
                 (let e = Some (convert_event_item conv item)
                  in (Ready e, consume_type_check e (st\<lparr>receiver := rest\<rparr>)))
             | [] \<Rightarrow> if receiver_closed st then (Ready None, st) else (Pending, st))
          else
            (let (through, s) = fill_scheduler (receiver st) (receiver_closed st) (es_scheduler st)
             in if \<not> through then (Pending, st\<lparr>receiver := [], es_scheduler := s\<rparr>)
                else
                  (let (item, s') = scheduler_next s;
                       e = map_option (convert_event_item conv) item
                   in (Ready e, consume_type_check e (st\<lparr>receiver := [], es_scheduler := s'\<rparr>)))))"

definition stream_is_empty :: "event_stream \<Rightarrow> bool" where
  "stream_is_empty st \<longleftrightarrow>
     pending_passthrough st = [] \<and> scheduler_is_empty (es_scheduler st) \<and> receiver st = []"

datatype try_recv_error = RecvEmpty | RecvClosed

definition try_recv :: "to_array \<Rightarrow> event_stream \<Rightarrow> (try_recv_error + event) \<times> event_stream" where
  "try_recv conv st =
     (case recv_async conv st of
        (Ready (Some e), st') \<Rightarrow> (Inr e, st')
      | (Ready None, st') \<Rightarrow> (Inl RecvClosed, st')
      | (Pending, st') \<Rightarrow> (Inl RecvEmpty, st'))"

section \<open>Waiting for a correlated event\<close>

datatype pattern_error = WaitTimeout | ServerRestarted string | StreamEnded | StreamError string

datatype correlation_outcome =
  CMatch | CServerRestarted | CStreamEnded | CStreamError | CPassthrough

definition classify_correlation_event ::
    "event \<Rightarrow> node_id \<Rightarrow> (event \<Rightarrow> bool) \<Rightarrow> correlation_outcome" where
  "classify_correlation_event e expected_server is_match =
     (if is_match e then CMatch
      else (case e of
          NodeRestarted n \<Rightarrow> if n = expected_server then CServerRestarted else CPassthrough
        | Stop _ \<Rightarrow> CStreamEnded
        | EventError _ \<Rightarrow> CStreamError
        | _ \<Rightarrow> CPassthrough))"

definition push_passthrough :: "event \<Rightarrow> event_stream \<Rightarrow> event_stream" where
  "push_passthrough e st = st\<lparr>pending_passthrough := pending_passthrough st @ [e]\<rparr>"

text \<open>
  The waiting loop. Time is a list of polls: at each poll the listed items have arrived on the channel;
  the deadline passes when the list is used up. A pending receiver is polled again.
\<close>

fun wait_for_correlation ::
    "to_array \<Rightarrow> node_id \<Rightarrow> (event \<Rightarrow> bool) \<Rightarrow> event_item list list \<Rightarrow> event_stream
     \<Rightarrow> (pattern_error + event) \<times> event_stream" where
  "wait_for_correlation conv server is_match [] st = (Inl WaitTimeout, st)"
| "wait_for_correlation conv server is_match (arrived # polls) st =
     (case recv_async conv (st\<lparr>receiver := receiver st @ arrived\<rparr>) of
        (Pending, st') \<Rightarrow> wait_for_correlation conv server is_match polls st'
      | (Ready None, st') \<Rightarrow> (Inl StreamEnded, st')
      | (Ready (Some e), st') \<Rightarrow>
          (case classify_correlation_event e server is_match of
             CMatch \<Rightarrow> (Inr e, st')
           | CServerRestarted \<Rightarrow> (Inl (ServerRestarted (node_name server)), push_passthrough e st')
           | CStreamEnded \<Rightarrow> (Inl StreamEnded, push_passthrough e st')
           | CStreamError \<Rightarrow>
               (Inl (StreamError (case e of EventError err \<Rightarrow> err | _ \<Rightarrow> [])), st')
           | CPassthrough \<Rightarrow>
               wait_for_correlation conv server is_match polls (push_passthrough e st')))"

fun matches_request :: "string \<Rightarrow> event \<Rightarrow> bool" where
  "matches_request rid (Input i m a) = (get_string_param (parameters m) REQUEST_ID = Some rid)"
| "matches_request rid _ = False"

fun matches_goal_result :: "string \<Rightarrow> event \<Rightarrow> bool" where
  "matches_goal_result gid (Input i m a) =
     (get_string_param (parameters m) GOAL_ID = Some gid \<and>
      (get_string_param (parameters m) GOAL_STATUS = Some GOAL_STATUS_SUCCEEDED \<or>
       get_string_param (parameters m) GOAL_STATUS = Some GOAL_STATUS_ABORTED \<or>
       get_string_param (parameters m) GOAL_STATUS = Some GOAL_STATUS_CANCELED))"
| "matches_goal_result gid _ = False"

definition recv_service_response ::
    "to_array \<Rightarrow> string \<Rightarrow> node_id \<Rightarrow> event_item list list \<Rightarrow> event_stream
     \<Rightarrow> (pattern_error + event) \<times> event_stream" where
  "recv_service_response conv rid server polls st =
     wait_for_correlation conv server (matches_request rid) polls st"

definition recv_action_result ::
    "to_array \<Rightarrow> string \<Rightarrow> node_id \<Rightarrow> event_item list list \<Rightarrow> event_stream
     \<Rightarrow> (pattern_error + event) \<times> event_stream" where
  "recv_action_result conv gid server polls st =
     wait_for_correlation conv server (matches_goal_result gid) polls st"

section \<open>Draining\<close>

definition queued :: "scheduler \<Rightarrow> nat" where
  "queued s = sum_list (map (\<lambda>(i, sz, q). length q) (event_queues s))"

definition buffered :: "event_stream \<Rightarrow> nat" where
  "buffered st =
     length (pending_passthrough st) + length (receiver st) + queued (es_scheduler st)"

lemma queued_update:
  assumes "map_of m i = Some (sz, q)"
  shows "sum_list (map (\<lambda>(i, sz, q). length q) (hm_insert i (sz', q') m)) + length q =
    sum_list (map (\<lambda>(i, sz, q). length q) m) + length q'"
  using assms by (induction m) auto

lemma queued_insert:
  assumes "map_of m i = None"
  shows "sum_list (map (\<lambda>(i, sz, q). length q) (hm_insert i (sz', q') m)) =
    sum_list (map (\<lambda>(i, sz, q). length q) m) + length q'"
  using assms by (induction m) (auto split: if_splits)

lemma queued_flush: "queued (flush_queue i s) \<le> queued s"
proof (cases "map_of (event_queues s) i")
  case None
  then show ?thesis by (simp add: flush_queue_def)
next
  case (Some p)
  then obtain sz q where p: "map_of (event_queues s) i = Some (sz, q)" by (cases p) auto
  with queued_update[OF p, of sz "filter is_correlated q"]
  have "queued (flush_queue i s) + length q = queued s + length (filter is_correlated q)"
    by (simp add: flush_queue_def queued_def)
  with length_filter_le[of is_correlated q] show ?thesis by linarith
qed

lemma queued_ensure: "queued (ensure_queue i s) = queued s"
  by (auto simp: ensure_queue_def queued_def queued_insert split: option.splits)

lemma enforce_limit_grows: "length (fst (enforce_limit cap q e)) \<le> Suc (length q)"
  by (auto simp: enforce_limit_def select_eviction_def remove_at_def
      split: option.splits dest!: position_SomeD)

lemma queued_add_event: "queued (add_event e s) \<le> Suc (queued s)"
proof (rule add_event_unfold[of e s])
  let ?s2 = "ensure_queue (event_key e) (if should_flush e then flush_queue (event_key e) s else s)"
  fix sz q
  assume q: "map_of (event_queues ?s2) (event_key e) = Some (sz, q)"
    and eq: "add_event e s = ?s2\<lparr>event_queues := hm_insert (event_key e)
        (sz, fst (enforce_limit (capacity_of s (event_key e)) q e)) (event_queues ?s2),
      dropped := (if snd (enforce_limit (capacity_of s (event_key e)) q e)
        then hm_entry (event_key e) 0 Suc (dropped s) else dropped s)\<rparr>"
  have "queued ?s2 \<le> queued s" by (simp add: queued_ensure queued_flush)
  moreover have "queued (add_event e s) + length q =
      queued ?s2 + length (fst (enforce_limit (capacity_of s (event_key e)) q e))"
    using queued_update[OF q] by (simp add: eq queued_def)
  ultimately show ?thesis
    using enforce_limit_grows[of "capacity_of s (event_key e)" q e] by linarith
qed

lemma queued_fill: "queued (snd (fill_scheduler es c s)) \<le> length es + queued s"
proof (induction es arbitrary: s)
  case Nil
  then show ?case by simp
next
  case (Cons e es)
  from Cons[of "add_event e s"] queued_add_event[of e s] show ?case by simp
qed

lemma queued_take_event: "queue_of s i \<noteq> [] \<Longrightarrow> Suc (queued (snd (take_event i ord s))) = queued s"
proof -
  assume ne: "queue_of s i \<noteq> []"
  then obtain sz x q where p: "map_of (event_queues s) i = Some (sz, x # q)"
    by (cases "queue_of s i") (auto simp: queue_of_Cons)
  with queued_update[OF p, of sz q] show ?thesis
    by (simp add: take_event_def queued_def queue_of_def)
qed

lemma queued_next: "scheduler_next s = (Some e, s') \<Longrightarrow> Suc (queued s') = queued s"
  by (cases s rule: scheduler_next_cases) (metis queued_take_event snd_conv, metis queued_take_event snd_conv, simp)

lemma consume_type_check_views [simp]:
  "receiver (consume_type_check e st) = receiver st"
  "receiver_closed (consume_type_check e st) = receiver_closed st"
  "es_scheduler (consume_type_check e st) = es_scheduler st"
  "use_scheduler (consume_type_check e st) = use_scheduler st"
  "pending_passthrough (consume_type_check e st) = pending_passthrough st"
  by (cases "(e, st)" rule: consume_type_check.cases; simp)+

lemma recv_async_buffered:
  "recv_async conv st = (Ready (Some e), st') \<Longrightarrow> buffered st' < buffered st"
  using queued_fill[of "receiver st" "receiver_closed st" "es_scheduler st"]
  by (auto simp: recv_async_def buffered_def Let_def dest!: queued_next
      split: list.splits if_splits prod.splits)

lemma try_recv_buffered: "try_recv conv st = (Inr e, st') \<Longrightarrow> buffered st' < buffered st"
  by (auto simp: try_recv_def recv_async_buffered split: prod.splits poll.splits option.splits)

function drain_loop :: "to_array \<Rightarrow> event_stream \<Rightarrow> event list \<times> bool \<times> event_stream" where
  "drain_loop conv st =
     (case try_recv conv st of
        (Inr e, st') \<Rightarrow> (let (es, closed, st'') = drain_loop conv st' in (e # es, closed, st''))
      | (Inl err, st') \<Rightarrow> ([], err = RecvClosed, st'))"
  by pat_completeness auto
termination
  by (relation "measure (\<lambda>(conv, st). buffered st)") (auto dest: try_recv_buffered[OF sym])

definition stream_drain :: "to_array \<Rightarrow> event_stream \<Rightarrow> event list option \<times> event_stream" where
  "stream_drain conv st =
     (let (es, closed, st') = drain_loop conv st
      in (if es = [] \<and> closed then None else Some es, st'))"

section \<open>The receiving thread\<close>

text \<open>
  The state of an acknowledgement channel when it is polled: a message on it (which the node API
  never sends), closed because the event was dropped, or still open.
\<close>

datatype ack_status = AckMessage | AckDisconnected | AckEmpty

text \<open>A token that waits for its event to be dropped: token, channel, start of the wait, warnings.\<close>

type_synonym pending_token = "drop_token \<times> nat \<times> nat \<times> nat"

fun poll_tokens ::
    "(nat \<Rightarrow> ack_status) \<Rightarrow> pending_token list \<Rightarrow> pending_token list \<Rightarrow> drop_token list
     \<Rightarrow> bool \<times> pending_token list \<times> drop_token list" where
  "poll_tokens ack [] still tokens = (True, still, tokens)"
| "poll_tokens ack ((t, ch, since, warn) # ps) still tokens =
     (case ack ch of
        AckMessage \<Rightarrow> (False, [], tokens)
      | AckDisconnected \<Rightarrow> poll_tokens ack ps still (tokens @ [t])
      | AckEmpty \<Rightarrow> poll_tokens ack ps (still @ [(t, ch, since, warn + 1)]) tokens)"

definition handle_pending_drop_tokens ::
    "(nat \<Rightarrow> ack_status) \<Rightarrow> pending_token list \<Rightarrow> drop_token list
     \<Rightarrow> bool \<times> pending_token list \<times> drop_token list" where
  "handle_pending_drop_tokens ack pending tokens = poll_tokens ack pending [] tokens"

record thread_state =
  tx_open :: bool
  sent :: "event_item list"
  pending_drop_tokens :: "pending_token list"
  next_ack :: nat

fun event_drop_token :: "node_event \<Rightarrow> drop_token option" where
  "event_drop_token (NInput i m (Some d)) = data_drop_token d"
| "event_drop_token _ = None"

text \<open>
  The loop over the events of one reply. The receiver may be gone when an item is sent, which
  ends the thread's loop: the result tells whether it goes on.
\<close>

fun forward_events :: "(nat \<Rightarrow> bool) \<Rightarrow> nat \<Rightarrow> node_event list \<Rightarrow> thread_state \<Rightarrow> bool \<times> thread_state" where
  "forward_events alive now [] ts = (True, ts)"
| "forward_events alive now (ev # evs) ts =
     (if tx_open ts then
        (if \<not> alive (next_ack ts) then (False, ts)
         else
           forward_events alive now evs
             (ts\<lparr>tx_open := (ev \<noteq> NAllInputsClosed),
                sent := sent ts @ [NodeEvent ev (next_ack ts)],
                pending_drop_tokens := pending_drop_tokens ts @
                  (case event_drop_token ev of None \<Rightarrow> [] | Some t \<Rightarrow> [(t, next_ack ts, now, 1)]),
                next_ack := next_ack ts + 1\<rparr>))
      else forward_events alive now evs ts)"

section \<open>The input tracker\<close>

datatype input_state = Healthy | Closed

record input_tracker =
  states :: "(data_id \<times> input_state) list"
  cache :: "(data_id \<times> nat) list"
  source_map :: "(data_id \<times> node_id) list"

definition tracker_new :: input_tracker where
  "tracker_new = \<lparr>states = [], cache = [], source_map = []\<rparr>"

definition with_source_map :: "(data_id \<times> node_id) list \<Rightarrow> input_tracker" where
  "with_source_map sm = \<lparr>states = [], cache = [], source_map = sm\<rparr>"

fun recover_sources ::
    "node_id \<Rightarrow> (data_id \<times> node_id) list \<Rightarrow> (data_id \<times> input_state) list \<Rightarrow> (data_id \<times> input_state) list" where
  "recover_sources restarted [] st = st"
| "recover_sources restarted ((i, source) # sm) st =
     recover_sources restarted sm
       (if source = restarted \<and> map_of st i = Some Closed then hm_insert i Healthy st else st)"

fun process_event :: "event \<Rightarrow> input_tracker \<Rightarrow> bool \<times> input_tracker" where
  "process_event (Input i m a) tr =
     (True, tr\<lparr>states := hm_insert i Healthy (states tr), cache := hm_insert i a (cache tr)\<rparr>)"
| "process_event (InputClosed i) tr = (True, tr\<lparr>states := hm_insert i Closed (states tr)\<rparr>)"
| "process_event (InputRecovered i) tr = (True, tr\<lparr>states := hm_insert i Healthy (states tr)\<rparr>)"
| "process_event (NodeRestarted n) tr =
     (True, tr\<lparr>states := recover_sources n (source_map tr) (states tr)\<rparr>)"
| "process_event _ tr = (False, tr)"

definition input_state_of :: "input_tracker \<Rightarrow> data_id \<Rightarrow> input_state option" where
  "input_state_of tr i = map_of (states tr) i"

definition is_closed :: "input_tracker \<Rightarrow> data_id \<Rightarrow> bool" where
  "is_closed tr i \<longleftrightarrow> map_of (states tr) i = Some Closed"

definition last_value :: "input_tracker \<Rightarrow> data_id \<Rightarrow> nat option" where
  "last_value tr i = map_of (cache tr) i"

definition closed_inputs :: "input_tracker \<Rightarrow> data_id list" where
  "closed_inputs tr = map fst (filter (\<lambda>(i, s). s = Closed) (states tr))"

definition any_closed :: "input_tracker \<Rightarrow> bool" where
  "any_closed tr \<longleftrightarrow> list_ex (\<lambda>(i, s). s = Closed) (states tr)"

section \<open>Lemmas: receiving\<close>

lemma recv_async_stashed:
  "pending_passthrough st = e # rest \<Longrightarrow>
   recv_async conv st = (Ready (Some e), st\<lparr>pending_passthrough := rest\<rparr>)"
  by (simp add: recv_async_def)

lemma recv_async_pending_passthrough:
  "pending_passthrough st = [] \<Longrightarrow> recv_async conv st = (r, st') \<Longrightarrow> pending_passthrough st' = []"
  by (auto simp: recv_async_def Let_def split: list.splits if_splits prod.splits)

text \<open>Once only unrelated events are stashed, the waiting loop reads nothing but the stash.\<close>

lemma wait_reads_stash:
  assumes "pending_passthrough st \<noteq> []"
    and "\<forall>e \<in> set (pending_passthrough st). classify_correlation_event e server is_match = CPassthrough"
  shows "\<exists>st'. wait_for_correlation conv server is_match polls st = (Inl WaitTimeout, st') \<and>
    mset (pending_passthrough st') = mset (pending_passthrough st) \<and> es_scheduler st' = es_scheduler st \<and>
    receiver st' = receiver st @ concat polls"
  using assms
proof (induction polls arbitrary: st)
  case Nil
  then show ?case by simp
next
  case (Cons arrived polls)
  then obtain e rest where p: "pending_passthrough st = e # rest" by (cases "pending_passthrough st") auto
  define st1 where "st1 = push_passthrough e (st\<lparr>receiver := receiver st @ arrived, pending_passthrough := rest\<rparr>)"
  have "wait_for_correlation conv server is_match (arrived # polls) st =
      wait_for_correlation conv server is_match polls st1"
    using Cons.prems p by (simp add: recv_async_stashed st1_def)
  moreover have "pending_passthrough st1 = rest @ [e]" "receiver st1 = receiver st @ arrived"
    "es_scheduler st1 = es_scheduler st"
    by (simp_all add: st1_def push_passthrough_def)
  ultimately show ?case using Cons.IH[of st1] Cons.prems(2) p by auto
qed

lemma fill_scheduler_eq:
  "fill_scheduler es c s =
     (\<not> scheduler_is_empty (fold add_event es s) \<or> c, fold add_event es s)"
  by (induction es arbitrary: s) auto

lemma sched_inv_fold: "sched_inv s \<Longrightarrow> sched_inv (fold add_event es s)"
  by (induction es arbitrary: s) (auto intro: sched_inv_add_event)

lemma next_None_iff: "sched_inv s \<Longrightarrow> fst (scheduler_next s) = None \<longleftrightarrow> scheduler_is_empty s"
proof (cases s rule: scheduler_next_cases)
  case none
  assume inv: "sched_inv s"
  have "queue_of s i = []" for i
    using queue_of_outside[OF inv, of i] none by auto
  with none inv show ?thesis by (simp add: is_empty_queues)
qed (auto simp: is_empty_queues)

lemma next_None_same: "scheduler_next s = (None, s') \<Longrightarrow> s' = s"
  by (cases s rule: scheduler_next_cases) (auto simp: take_event_def)

text \<open>A receive on a scheduled stream: what it keeps, and that it gives nothing only when nothing is buffered.\<close>

lemma recv_async_scheduler:
  assumes "pending_passthrough st = []" "use_scheduler st"
    and "s = fold add_event (receiver st) (es_scheduler st)"
  shows "recv_async conv st =
    (if scheduler_is_empty s \<and> \<not> receiver_closed st then (Pending, st\<lparr>receiver := [], es_scheduler := s\<rparr>)
     else (Ready (map_option (convert_event_item conv) (fst (scheduler_next s))),
       consume_type_check (map_option (convert_event_item conv) (fst (scheduler_next s)))
         (st\<lparr>receiver := [], es_scheduler := snd (scheduler_next s)\<rparr>)))"
  using assms by (simp add: recv_async_def fill_scheduler_eq Let_def split: prod.splits)

lemma recv_async_scheduled:
  assumes "use_scheduler st" "sched_inv (es_scheduler st)" "recv_async conv st = (r, st')"
  shows "use_scheduler st' \<and> sched_inv (es_scheduler st') \<and> receiver_closed st' = receiver_closed st"
    and "(\<exists>e. r = Ready (Some e)) \<or> stream_is_empty st'"
    and "r = Ready None \<Longrightarrow> receiver_closed st"
proof -
  define s where "s = fold add_event (receiver st) (es_scheduler st)"
  have inv: "sched_inv s" "sched_inv (snd (scheduler_next s))"
    using sched_inv_fold[OF assms(2)] sched_inv_next unfolding s_def by auto
  have none: "fst (scheduler_next s) = None \<longleftrightarrow> scheduler_is_empty s"
    "fst (scheduler_next s) = None \<Longrightarrow> snd (scheduler_next s) = s"
    using next_None_iff[OF inv(1)] next_None_same[of s "snd (scheduler_next s)"] by (simp, metis prod.collapse)
  have all: "(use_scheduler st' \<and> sched_inv (es_scheduler st') \<and> receiver_closed st' = receiver_closed st) \<and>
      ((\<exists>e. r = Ready (Some e)) \<or> stream_is_empty st') \<and> (r = Ready None \<longrightarrow> receiver_closed st)"
  proof (cases "pending_passthrough st")
    case Nil
    show ?thesis
    proof (cases "scheduler_is_empty s")
      case True
      with recv_async_scheduler[OF Nil assms(1) s_def] assms none inv Nil show ?thesis
        by (auto simp: stream_is_empty_def split: if_splits)
    next
      case False
      with none obtain i where "fst (scheduler_next s) = Some i" by auto
      with False recv_async_scheduler[OF Nil assms(1) s_def] assms inv show ?thesis by auto
    qed
  next
    case (Cons e rest)
    with recv_async_stashed[OF Cons] assms show ?thesis by auto
  qed
  from all show "use_scheduler st' \<and> sched_inv (es_scheduler st') \<and> receiver_closed st' = receiver_closed st"
    "(\<exists>e. r = Ready (Some e)) \<or> stream_is_empty st'" "r = Ready None \<Longrightarrow> receiver_closed st" by blast+
qed

lemma drain_loop_empties:
  assumes "use_scheduler st" "sched_inv (es_scheduler st)" "drain_loop conv st = (es, closed, st')"
  shows "stream_is_empty st' \<and> (closed \<longrightarrow> receiver_closed st)"
  using assms
proof (induction conv st arbitrary: es closed rule: drain_loop.induct)
  case (1 conv st)
  obtain r st1 where r: "recv_async conv st = (r, st1)" by fastforce
  note recv = recv_async_scheduled[OF 1(2,3) r]
  show ?case
  proof (cases "\<exists>e. r = Ready (Some e)")
    case False
    with r 1(4) recv(2,3) show ?thesis
      by (cases r) (auto simp: drain_loop.simps[of conv st] try_recv_def split: option.splits)
  next
    case True
    then obtain e where e: "r = Ready (Some e)" by blast
    then have t: "try_recv conv st = (Inr e, st1)" using r by (simp add: try_recv_def)
    obtain es1 where "drain_loop conv st1 = (es1, closed, st')"
      using 1(4) t by (auto simp: drain_loop.simps[of conv st] split: prod.splits)
    with 1(1)[OF t[symmetric] refl] recv(1) show ?thesis by auto
  qed
qed

section \<open>Lemmas: the receiving thread and the tracker\<close>

definition token_dropped :: "(nat \<Rightarrow> ack_status) \<Rightarrow> pending_token \<Rightarrow> bool" where
  "token_dropped ack p = (ack (fst (snd p)) = AckDisconnected)"

lemma poll_tokens_partition:
  assumes "\<forall>p \<in> set ps. ack (fst (snd p)) \<noteq> AckMessage"
  shows "poll_tokens ack ps still tokens =
    (True, still @ map (\<lambda>(t, ch, since, warn). (t, ch, since, warn + 1)) (filter (\<lambda>p. \<not> token_dropped ack p) ps),
     tokens @ map fst (filter (token_dropped ack) ps))"
  using assms
proof (induction ps arbitrary: still tokens)
  case Nil
  then show ?case by simp
next
  case (Cons p ps)
  then show ?case by (cases p) (auto simp: token_dropped_def split: ack_status.splits)
qed

fun upto_closed :: "node_event list \<Rightarrow> node_event list" where
  "upto_closed [] = []"
| "upto_closed (e # es) = e # (if e = NAllInputsClosed then [] else upto_closed es)"

fun item_event :: "event_item \<Rightarrow> node_event option" where
  "item_event (NodeEvent e a) = Some e"
| "item_event _ = None"

lemma forward_closed: "\<not> tx_open ts \<Longrightarrow> forward_events alive now evs ts = (True, ts)"
  by (induction evs) auto

lemma forward_open:
  assumes "tx_open ts" "\<And>n. alive n" "forward_events alive now evs ts = (c, ts')"
  shows "c \<and> map item_event (sent ts') = map item_event (sent ts) @ map Some (upto_closed evs) \<and>
    map fst (pending_drop_tokens ts') =
      map fst (pending_drop_tokens ts) @ List.map_filter event_drop_token (upto_closed evs) \<and>
    (tx_open ts' \<longleftrightarrow> NAllInputsClosed \<notin> set evs)"
  using assms
proof (induction evs arbitrary: ts)
  case Nil
  then show ?case by (simp add: List.map_filter_def)
next
  case (Cons ev evs)
  show ?case
  proof (cases "ev = NAllInputsClosed")
    case True
    with Cons.prems show ?thesis by (auto simp: forward_closed List.map_filter_def)
  next
    case False
    define ts1 where "ts1 = ts\<lparr>tx_open := True, sent := sent ts @ [NodeEvent ev (next_ack ts)],
      pending_drop_tokens := pending_drop_tokens ts @
        (case event_drop_token ev of None \<Rightarrow> [] | Some t \<Rightarrow> [(t, next_ack ts, now, 1)]),
      next_ack := next_ack ts + 1\<rparr>"
    have "forward_events alive now evs ts1 = (c, ts')"
      using Cons.prems(1,3) Cons.prems(2)[of "next_ack ts"] False by (simp add: ts1_def)
    from Cons.IH[OF _ Cons.prems(2) this] False show ?thesis
      by (auto simp: ts1_def List.map_filter_def split: option.splits)
  qed
qed

text \<open>What the tracker does to one input, whatever the iteration order of its maps.\<close>

fun track_input :: "node_id option \<Rightarrow> data_id \<Rightarrow> event \<Rightarrow> input_state option \<Rightarrow> input_state option" where
  "track_input src i (Input j m a) st = (if j = i then Some Healthy else st)"
| "track_input src i (InputClosed j) st = (if j = i then Some Closed else st)"
| "track_input src i (InputRecovered j) st = (if j = i then Some Healthy else st)"
| "track_input src i (NodeRestarted n) st = (if src = Some n \<and> st = Some Closed then Some Healthy else st)"
| "track_input src i _ st = st"

fun track_value :: "data_id \<Rightarrow> event \<Rightarrow> nat option \<Rightarrow> nat option" where
  "track_value i (Input j m a) v = (if j = i then Some a else v)"
| "track_value i _ v = v"

lemma recover_sources_map_of:
  "hm_wf sm \<Longrightarrow> map_of (recover_sources n sm st) i =
     (if map_of sm i = Some n \<and> map_of st i = Some Closed then Some Healthy else map_of st i)"
proof (induction sm arbitrary: st)
  case Nil
  then show ?case by simp
next
  case (Cons p sm)
  obtain j src where p: "p = (j, src)" by (cases p)
  then have "map_of sm j = None" using Cons.prems by (auto simp: map_of_eq_None_iff)
  with Cons p show ?case by auto
qed

lemma process_event_state:
  assumes "hm_wf (source_map tr)"
  shows "input_state_of (snd (process_event e tr)) i =
      track_input (map_of (source_map tr) i) i e (input_state_of tr i)"
    and "last_value (snd (process_event e tr)) i = track_value i e (last_value tr i)"
    and "source_map (snd (process_event e tr)) = source_map tr"
  using assms
  by (cases e; simp add: input_state_of_def last_value_def recover_sources_map_of)+

lemma closed_inputs_iff: "hm_wf (states tr) \<Longrightarrow> i \<in> set (closed_inputs tr) \<longleftrightarrow> is_closed tr i"
  by (force simp: closed_inputs_def is_closed_def)

lemma process_events_fold:
  assumes "hm_wf (source_map tr)" "hm_wf (states tr)"
  defines "run \<equiv> fold (\<lambda>e t. snd (process_event e t))"
  shows "input_state_of (run es tr) i = fold (track_input (map_of (source_map tr) i) i) es (input_state_of tr i)"
    and "last_value (run es tr) i = fold (track_value i) es (last_value tr i)"
    and "hm_wf (states (run es tr))"
proof -
  have wf_recover: "hm_wf st \<Longrightarrow> hm_wf (recover_sources n sm st)" for n sm st
    by (induction n sm st rule: recover_sources.induct) (auto simp: distinct_update)
  have wf: "hm_wf (states t) \<Longrightarrow> hm_wf (states (snd (process_event e t)))" for e t
    by (cases e) (auto simp: distinct_update wf_recover)
  have "hm_wf (source_map tr) \<Longrightarrow> hm_wf (states tr) \<Longrightarrow>
      input_state_of (run es tr) i = fold (track_input (map_of (source_map tr) i) i) es (input_state_of tr i) \<and>
      last_value (run es tr) i = fold (track_value i) es (last_value tr i) \<and> hm_wf (states (run es tr))"
    unfolding run_def
    by (induction es arbitrary: tr) (simp_all add: process_event_state wf)
  with assms show "input_state_of (run es tr) i =
        fold (track_input (map_of (source_map tr) i) i) es (input_state_of tr i)"
    "last_value (run es tr) i = fold (track_value i) es (last_value tr i)"
    "hm_wf (states (run es tr))" by blast+
qed

section \<open>Properties\<close>

text \<open>
  C25. The waiting loop of the service and action helpers does not get past an unrelated event: once
  the stream yields one, the event is stashed, read back from the stash at every following poll, and the
  wait ends in a timeout whatever arrives on the channel, the awaited response included, which
  stays unread on the channel.
\<close>

theorem wait_starved_by_unrelated_event:
  assumes "pending_passthrough st = []"
    and "recv_async conv (st\<lparr>receiver := receiver st @ arrived\<rparr>) = (Ready (Some e), st')"
    and "classify_correlation_event e server is_match = CPassthrough"
  shows "\<exists>st''. wait_for_correlation conv server is_match (arrived # polls) st = (Inl WaitTimeout, st'') \<and>
    pending_passthrough st'' = [e] \<and> receiver st'' = receiver st' @ concat polls"
proof -
  have p: "pending_passthrough st' = []"
    using recv_async_pending_passthrough[OF _ assms(2)] assms(1) by simp
  from wait_reads_stash[of "push_passthrough e st'" server is_match conv polls] assms(3) p
  obtain st'' where w: "wait_for_correlation conv server is_match polls (push_passthrough e st') = (Inl WaitTimeout, st'')"
    "mset (pending_passthrough st'') = {#e#}" "receiver st'' = receiver st' @ concat polls"
    by (auto simp: push_passthrough_def)
  then have "pending_passthrough st'' = [e]" by (simp add: mset_single_iff)
  with w assms show ?thesis by simp
qed

definition example_array :: to_array where
  "example_array item = Inr 0"

definition example_stream :: event_stream where
  "example_stream =
     \<lparr>receiver = [NodeEvent (NInputClosed (DataId ''tick'')) 0], receiver_closed = False,
      es_scheduler = init_scheduler example_config, use_scheduler = True,
      input_type_checks = [], pending_passthrough = []\<rparr>"

lemma example_stream_recv:
  "fst (recv_async example_array example_stream) = Ready (Some (InputClosed (DataId ''tick'')))"
  by (simp add: recv_async_def example_stream_def init_scheduler_def example_config_def
      with_policies_def add_event_def event_key_def should_flush_def ensure_queue_def enforce_limit_def
      policy_of_def scheduler_next_def scheduler_is_empty_def NON_INPUT_EVENT_def DEFAULT_QUEUE_SIZE_def)

theorem wait_starved_witness:
  "fst (recv_service_response example_array ''r1'' (NodeId ''server'')
     [[], [example_input ''image'' [(''request_id'', PString ''r1'')]]] example_stream) = Inl WaitTimeout"
proof -
  have "example_stream\<lparr>receiver := receiver example_stream @ []\<rparr> = example_stream" by simp
  then obtain st' where "recv_async example_array (example_stream\<lparr>receiver := receiver example_stream @ []\<rparr>) =
      (Ready (Some (InputClosed (DataId ''tick''))), st')"
    using example_stream_recv by (metis prod.collapse)
  from wait_starved_by_unrelated_event[OF _ this, of "NodeId ''server''" "matches_request ''r1''"
      "[[example_input ''image'' [(''request_id'', PString ''r1'')]]]"]
  show ?thesis
    by (auto simp: recv_service_response_def example_stream_def classify_correlation_event_def)
qed

text \<open>
  C37. Draining a scheduled stream ends, leaves nothing buffered (stash, scheduler and channel are empty), and
  reports a closed stream only when the channel is closed.
\<close>

theorem stream_drain_empties:
  assumes "use_scheduler st" "sched_inv (es_scheduler st)"
  shows "stream_is_empty (snd (stream_drain conv st)) \<and>
    (fst (stream_drain conv st) = None \<longrightarrow> receiver_closed st)"
proof -
  obtain es closed st' where d: "drain_loop conv st = (es, closed, st')" by (metis prod.exhaust)
  from drain_loop_empties[OF assms d] d show ?thesis
    by (simp add: stream_drain_def del: drain_loop.simps)
qed

theorem stream_drain_witness:
  "stream_is_empty (snd (stream_drain example_array example_stream)) \<and>
   fst (stream_drain example_array example_stream) \<noteq> None"
  using stream_drain_empties[of example_stream example_array] sched_inv_init[of example_config]
  by (auto simp: example_stream_def)

text \<open>
  One poll of the pending drop tokens, when no acknowledgement channel carries a message, splits
  them without loss or duplication: the tokens of dropped events are appended to the report in order, and the others keep
  waiting.
\<close>

theorem drop_tokens_split:
  assumes "\<forall>p \<in> set pending. ack (fst (snd p)) \<noteq> AckMessage"
  shows "\<exists>pending'. handle_pending_drop_tokens ack pending tokens =
      (True, pending', tokens @ map fst (filter (token_dropped ack) pending)) \<and>
    map fst pending' = map fst (filter (\<lambda>p. \<not> token_dropped ack p) pending)"
  using poll_tokens_partition[OF assms, of "[]" tokens]
  by (auto simp: handle_pending_drop_tokens_def comp_def case_prod_beta')

theorem drop_tokens_split_witness:
  "\<exists>pending'. handle_pending_drop_tokens (\<lambda>ch. if ch = 1 then AckDisconnected else AckEmpty)
      [(7, 1, 0, 1), (8, 2, 0, 1)] [5] = (True, pending', [5, 7]) \<and> map fst pending' = [8]"
  using drop_tokens_split[of "[(7, 1, 0, 1), (8, 2, 0, 1)]" "\<lambda>ch. if ch = 1 then AckDisconnected else AckEmpty" "[5]"]
  by (simp add: token_dropped_def)

text \<open>
  While the receiver is alive, the thread forwards the events of a reply in order up to and
  including the notice that all inputs are closed, and tracks the drop token of every event it
  forwards; events after the notice are not forwarded and their tokens are not tracked.
\<close>

theorem forward_events_prefix:
  assumes "tx_open ts" "\<And>n. alive n" "forward_events alive now evs ts = (c, ts')"
  shows "c \<and> map item_event (sent ts') = map item_event (sent ts) @ map Some (upto_closed evs) \<and>
    map fst (pending_drop_tokens ts') =
      map fst (pending_drop_tokens ts) @ List.map_filter event_drop_token (upto_closed evs) \<and>
    (tx_open ts' \<longleftrightarrow> NAllInputsClosed \<notin> set evs)"
  using assms by (rule forward_open)

theorem forward_events_prefix_witness:
  "\<exists>ts'. forward_events (\<lambda>n. True) 0
      [NInput (DataId ''a'') (metadata_new 0 DtNull) (Some (SharedMemory ''m'' 4 9)), NAllInputsClosed,
       NInput (DataId ''a'') (metadata_new 0 DtNull) (Some (SharedMemory ''m'' 4 10))]
      \<lparr>tx_open = True, sent = [], pending_drop_tokens = [], next_ack = 0\<rparr> = (True, ts') \<and>
    map fst (pending_drop_tokens ts') = [9]"
proof -
  let ?ts = "\<lparr>tx_open = True, sent = [], pending_drop_tokens = [], next_ack = 0\<rparr>"
  let ?evs = "[NInput (DataId ''a'') (metadata_new 0 DtNull) (Some (SharedMemory ''m'' 4 9)), NAllInputsClosed,
       NInput (DataId ''a'') (metadata_new 0 DtNull) (Some (SharedMemory ''m'' 4 10))]"
  obtain c ts' where f: "forward_events (\<lambda>n. True) 0 ?evs ?ts = (c, ts')" by fastforce
  from forward_events_prefix[OF _ _ f] have c: "c = True" and t: "map fst (pending_drop_tokens ts') = [9]"
    by (simp_all add: List.map_filter_def)
  show ?thesis by (intro exI[of _ ts'] conjI t f[unfolded c])
qed

text \<open>
  C36. The input tracker follows each input on its own: its state is that of the automaton driven by the
  input's events and the restarts of its source, its cached value that of the last input, and the closed
  inputs it reports are exactly those whose state is closed, whatever the order of its hash maps.
\<close>

theorem tracker_follows_events:
  assumes "hm_wf sm" "tr = fold (\<lambda>e t. snd (process_event e t)) es (with_source_map sm)"
  shows "input_state_of tr i = fold (track_input (map_of sm i) i) es None \<and>
    last_value tr i = fold (track_value i) es None \<and>
    (i \<in> set (closed_inputs tr) \<longleftrightarrow> input_state_of tr i = Some Closed) \<and>
    (any_closed tr \<longleftrightarrow> (\<exists>j. input_state_of tr j = Some Closed))"
proof -
  let ?t0 = "with_source_map sm"
  have t0: "hm_wf (source_map ?t0)" "hm_wf (states ?t0)" "input_state_of ?t0 i = None" "last_value ?t0 i = None"
    "source_map ?t0 = sm"
    using assms(1) by (simp_all add: with_source_map_def input_state_of_def last_value_def)
  note run = process_events_fold[OF t0(1,2), of es]
  have "any_closed tr \<longleftrightarrow> closed_inputs tr \<noteq> []"
    by (auto simp: any_closed_def closed_inputs_def list_ex_iff filter_empty_conv)
  also have "\<dots> \<longleftrightarrow> (\<exists>j. input_state_of tr j = Some Closed)"
    using closed_inputs_iff[OF run(3)] assms(2)
    by (metis input_state_of_def is_closed_def last_in_set list.set_cases empty_iff empty_set)
  finally have "any_closed tr \<longleftrightarrow> (\<exists>j. input_state_of tr j = Some Closed)" .
  moreover have "i \<in> set (closed_inputs tr) \<longleftrightarrow> input_state_of tr i = Some Closed"
    using closed_inputs_iff[OF run(3), of i] assms(2) by (simp add: is_closed_def input_state_of_def)
  ultimately show ?thesis using run(1,2)[of i] t0 assms(2) by simp
qed

theorem tracker_follows_events_witness:
  "input_state_of (fold (\<lambda>e t. snd (process_event e t))
      [InputClosed (DataId ''a''), NodeRestarted (NodeId ''n'')]
      (with_source_map [(DataId ''a'', NodeId ''n'')])) (DataId ''a'') = Some Healthy"
  using tracker_follows_events[of "[(DataId ''a'', NodeId ''n'')]" _
      "[InputClosed (DataId ''a''), NodeRestarted (NodeId ''n'')]" "DataId ''a''"] by simp

end
