(* ===== verification/Descriptor.thy ===== *)
theory Descriptor
  imports Messages
begin

text \<open>
  Dataflow descriptors (\<^verbatim>\<open>libraries/message/src/descriptor.rs\<close>) and their resolution
  (\<^verbatim>\<open>libraries/core/src/descriptor/mod.rs\<close>): the kind of a node, the replacement of aliases for
  single-operator nodes, defaults, and the merge of dataflow-level environment variables.

  Field groups that several structures of the source repeat (the ports of
  \<^verbatim>\<open>NodeRunConfig\<close>, log options, restart options, git options) are records of their own here.
  The JSON text of a ROS2 configuration is a parameter.
\<close>

section \<open>The structures\<close>

datatype output_framing = Raw | ArrowIpc

type_synonym input_map = "(data_id \<times> input) list"

record node_run_config =
  inputs :: input_map
  outputs :: "data_id list"
  output_types :: "(data_id \<times> string) list"
  output_framings :: "(data_id \<times> output_framing) list"
  input_types :: "(data_id \<times> string) list"

record log_options =
  send_stdout_as :: "string option"
  send_logs_as :: "string option"
  min_log_level :: "string option"
  max_log_size :: "string option"
  max_rotated_files :: "nat option"

datatype restart_policy = Never | OnFailure | Always

record restart_options =
  restart_policy :: restart_policy
  max_restarts :: nat
  restart_delay :: "f64 option"
  max_restart_delay :: "f64 option"
  restart_window :: "f64 option"
  health_check_timeout :: "f64 option"

datatype distribute_strategy = DistributeLocal | DistributeScp | DistributeHttp

record deploy =
  machine :: "string option"
  working_dir :: "string option"
  labels :: "(string \<times> string) list"
  distribute :: distribute_strategy

datatype env_value = EnvBool bool | EnvInteger int | EnvFloat f64 | EnvString string

type_synonym env_map = "(string \<times> env_value) list"

datatype operator_source = SharedLibrary string | Python string "string option" | Wasm string

record operator_config =
  op_name :: "string option"
  op_description :: "string option"
  op_run :: node_run_config
  op_output_metadata :: "(data_id \<times> string list) list"
  op_pattern :: "string option"
  op_source :: operator_source
  op_build :: "string option"
  op_log :: log_options

record operator_definition =
  op_id :: operator_id
  op_config :: operator_config

record single_operator =
  sop_id :: "operator_id option"
  sop_config :: operator_config

datatype git_repo_rev = Branch string | Tag string | Rev string

datatype node_source = Local | GitBranch string "git_repo_rev option"

fun is_git :: "node_source \<Rightarrow> bool" where
  "is_git (GitBranch repo r) = True"
| "is_git Local = False"

record custom_node =
  custom_path :: string
  custom_source :: node_source
  custom_args :: "string option"
  custom_envs :: "env_map option"
  custom_build :: "string option"
  custom_log :: log_options
  custom_restart :: restart_options
  run_config :: node_run_config

datatype ros2_role = Client | Server

datatype ros2_direction = Subscribe | Publish

record ros2_qos =
  reliable :: bool
  durability :: "string option"
  liveliness :: "string option"
  lease_duration :: "f64 option"
  max_blocking_time :: "f64 option"
  keep_last :: "int option"
  keep_all :: bool

record ros2_topic =
  rt_topic :: string
  rt_message_type :: string
  rt_direction :: ros2_direction
  rt_output :: "string option"
  rt_input :: "string option"
  rt_qos :: "ros2_qos option"

record ros2_bridge_config =
  topic :: "string option"
  message_type :: "string option"
  direction :: ros2_direction
  topics :: "ros2_topic list option"
  service :: "string option"
  service_type :: "string option"
  action :: "string option"
  action_type :: "string option"
  role :: "ros2_role option"
  qos :: ros2_qos
  namespace :: string
  ros2_node_name :: "string option"

record git_options =
  git :: "string option"
  branch :: "string option"
  tag :: "string option"
  revision :: "string option"

record node =
  id_of :: node_id
  name_of :: "string option"
  description_of :: "string option"
  path_of :: "string option"
  args_of :: "string option"
  env_of :: "env_map option"
  operators :: "operator_definition list option"
  operator :: "single_operator option"
  ros2 :: "ros2_bridge_config option"
  custom :: "custom_node option"
  node_run :: node_run_config
  output_metadata :: "(data_id \<times> string list) list"
  pattern :: "string option"
  node_log :: log_options
  build_of :: "string option"
  node_git :: git_options
  node_restart :: restart_options
  module_of :: "string option"
  params_of :: "(string \<times> string) list"
  cpu_affinity :: "nat list option"
  deploy_of :: "deploy option"

record descriptor =
  nodes :: "node list"
  desc_deploy :: "deploy option"
  enable_debug_inspection :: bool
  health_check_interval :: "f64 option"
  strict_types :: "bool option"
  type_rules :: "(string \<times> string) list"
  desc_env :: "env_map option"

datatype core_node_kind = Runtime "operator_definition list" | Custom custom_node

record resolved_node =
  rn_id :: node_id
  rn_name :: "string option"
  rn_description :: "string option"
  rn_env :: "env_map option"
  rn_cpu_affinity :: "nat list option"
  rn_deploy :: "deploy option"
  rn_kind :: core_node_kind

fun as_custom :: "core_node_kind \<Rightarrow> custom_node option" where
  "as_custom (Runtime ops) = None"
| "as_custom (Custom c) = Some c"

definition has_git_source :: "resolved_node \<Rightarrow> bool" where
  "has_git_source n = (case as_custom (rn_kind n) of None \<Rightarrow> False | Some c \<Rightarrow> is_git (custom_source c))"

definition SHELL_SOURCE :: string where
  "SHELL_SOURCE = ''shell''"

definition DYNAMIC_SOURCE :: string where
  "DYNAMIC_SOURCE = ''dynamic''"

section \<open>The kind of a node\<close>

datatype resolve_error =
    NoKind node_id
  | MultipleKinds node_id
  | UnexpandedModule node_id
  | MultipleRevs
  | RevWithoutGit

datatype node_kind =
    KStandard string
  | KRuntime "operator_definition list"
  | KCustom custom_node
  | KOperator single_operator
  | KRos2Bridge ros2_bridge_config
  | KModule string

definition kind_of :: "node \<Rightarrow> (resolve_error, node_kind) outcome" where
  "kind_of n =
     (case (path_of n, operators n, custom n, operator n, ros2 n, module_of n) of
        (None, None, None, None, None, None) \<Rightarrow> Err (NoKind (id_of n))
      | (None, None, None, Some op, None, None) \<Rightarrow> Ok (KOperator op)
      | (None, None, Some c, None, None, None) \<Rightarrow> Ok (KCustom c)
      | (None, Some r, None, None, None, None) \<Rightarrow> Ok (KRuntime r)
      | (Some p, None, None, None, None, None) \<Rightarrow> Ok (KStandard p)
      | (None, None, None, None, Some r, None) \<Rightarrow> Ok (KRos2Bridge r)
      | (None, None, None, None, None, Some m) \<Rightarrow> Ok (KModule m)
      | _ \<Rightarrow> Err (MultipleKinds (id_of n)))"

definition git_rev :: "git_options \<Rightarrow> (resolve_error, git_repo_rev option) outcome" where
  "git_rev g =
     (case (branch g, tag g, revision g) of
        (None, None, None) \<Rightarrow> Ok None
      | (Some b, None, None) \<Rightarrow> Ok (Some (Branch b))
      | (None, Some t, None) \<Rightarrow> Ok (Some (Tag t))
      | (None, None, Some r) \<Rightarrow> Ok (Some (Rev r))
      | _ \<Rightarrow> Err MultipleRevs)"

definition standard_source :: "git_options \<Rightarrow> (resolve_error, node_source) outcome" where
  "standard_source g =
     (case git g of
        None \<Rightarrow>
          (if branch g = None \<and> tag g = None \<and> revision g = None then Ok Local else Err RevWithoutGit)
      | Some repo \<Rightarrow> and_then (git_rev g) (\<lambda>r. Ok (GitBranch repo r)))"

section \<open>Resolution\<close>

definition SINGLE_OPERATOR_DEFAULT_ID :: operator_id where
  "SINGLE_OPERATOR_DEFAULT_ID = OperatorId ''op''"

definition operator_id_or_default :: "single_operator \<Rightarrow> operator_id" where
  "operator_id_or_default op =
     (case sop_id op of None \<Rightarrow> SINGLE_OPERATOR_DEFAULT_ID | Some i \<Rightarrow> i)"

text \<open>The nodes that hold a single operator, with the name of that operator.\<close>

definition single_operator_nodes :: "node list \<Rightarrow> (node_id \<times> operator_id) list" where
  "single_operator_nodes ns =
     fold (\<lambda>n m. case operator n of
         None \<Rightarrow> m | Some op \<Rightarrow> hm_insert (id_of n) (operator_id_or_default op) m) ns []"

text \<open>An input fed by such a node gets the operator name in front of the output; the
  conversion to an identifier panics when the operator name is not a valid one.\<close>

definition alias_input :: "(node_id \<times> operator_id) list \<Rightarrow> input \<Rightarrow> (resolve_error, input) outcome" where
  "alias_input sops i =
     (case mapping i of
        User s d \<Rightarrow>
          (case map_of sops s of
             None \<Rightarrow> Ok i
           | Some op \<Rightarrow>
               and_then (data_id_from (operator_name op @ ''/'' @ data_name d)) (\<lambda>d'.
               Ok (i\<lparr>mapping := User s d'\<rparr>)))
      | _ \<Rightarrow> Ok i)"

definition alias_inputs ::
    "(node_id \<times> operator_id) list \<Rightarrow> input_map \<Rightarrow> (resolve_error, input_map) outcome" where
  "alias_inputs sops m = try_map (\<lambda>(k, i). and_then (alias_input sops i) (\<lambda>j. Ok (k, j))) m"

definition alias_run ::
    "(node_id \<times> operator_id) list \<Rightarrow> node_run_config \<Rightarrow> (resolve_error, node_run_config) outcome" where
  "alias_run sops r = and_then (alias_inputs sops (inputs r)) (\<lambda>m. Ok (r\<lparr>inputs := m\<rparr>))"

definition alias_operator ::
    "(node_id \<times> operator_id) list \<Rightarrow> operator_config \<Rightarrow> (resolve_error, operator_config) outcome" where
  "alias_operator sops c = and_then (alias_run sops (op_run c)) (\<lambda>r. Ok (c\<lparr>op_run := r\<rparr>))"

definition custom_of_node ::
    "node \<Rightarrow> string \<Rightarrow> node_source \<Rightarrow> string option \<Rightarrow> env_map option \<Rightarrow> node_run_config \<Rightarrow> custom_node" where
  "custom_of_node n p src bld envs r =
     \<lparr>custom_path = p, custom_source = src, custom_args = args_of n, custom_envs = envs,
      custom_build = bld, custom_log = node_log n, custom_restart = node_restart n, run_config = r\<rparr>"

definition resolve_kind ::
    "(ros2_bridge_config \<Rightarrow> string) \<Rightarrow> (node_id \<times> operator_id) list \<Rightarrow> node
     \<Rightarrow> (resolve_error, core_node_kind) outcome" where
  "resolve_kind json sops n0 =
     and_then (if ros2 n0 = None then Ok n0
               else and_then (alias_run sops (node_run n0)) (\<lambda>r. Ok (n0\<lparr>node_run := r\<rparr>))) (\<lambda>n.
     and_then (kind_of n) (\<lambda>k.
     case k of
       KModule m \<Rightarrow> Err (UnexpandedModule (id_of n))
     | KStandard p \<Rightarrow>
         and_then (standard_source (node_git n)) (\<lambda>src.
         and_then (alias_run sops (node_run n)) (\<lambda>r.
         Ok (Custom (custom_of_node n p src (build_of n) None r))))
     | KRuntime ops \<Rightarrow>
         and_then (try_map (\<lambda>od. and_then (alias_operator sops (op_config od)) (\<lambda>c.
           Ok (od\<lparr>op_config := c\<rparr>))) ops) (\<lambda>ops'.
         Ok (Runtime ops'))
     | KCustom c \<Rightarrow>
         and_then (alias_run sops (run_config c)) (\<lambda>r. Ok (Custom (c\<lparr>run_config := r\<rparr>)))
     | KOperator op \<Rightarrow>
         and_then (alias_operator sops (sop_config op)) (\<lambda>c.
         Ok (Runtime [\<lparr>op_id = operator_id_or_default op, op_config = c\<rparr>]))
     | KRos2Bridge cfg \<Rightarrow>
         Ok (Custom (custom_of_node n ''dora-ros2-bridge-node'' Local None
           (Some [(''DORA_ROS2_BRIDGE_CONFIG'', EnvString (json cfg))]) (node_run n)))))"

definition merge_env :: "env_map option \<Rightarrow> env_map option \<Rightarrow> env_map option" where
  "merge_env global node =
     (case (global, node) of
        (None, nd) \<Rightarrow> nd
      | (Some g, None) \<Rightarrow> if g = [] then None else Some g
      | (Some g, Some nd) \<Rightarrow> Some (bt_extend nd g))"

definition resolve_node ::
    "(ros2_bridge_config \<Rightarrow> string) \<Rightarrow> env_map option \<Rightarrow> (node_id \<times> operator_id) list \<Rightarrow> node
     \<Rightarrow> (resolve_error, resolved_node) outcome" where
  "resolve_node json genv sops n =
     and_then (resolve_kind json sops n) (\<lambda>k.
     Ok \<lparr>rn_id = id_of n, rn_name = name_of n, rn_description = description_of n,
         rn_env = merge_env genv (env_of n), rn_cpu_affinity = cpu_affinity n,
         rn_deploy = deploy_of n, rn_kind = k\<rparr>)"

definition resolve_aliases_and_set_defaults ::
    "(ros2_bridge_config \<Rightarrow> string) \<Rightarrow> descriptor \<Rightarrow> (resolve_error, (node_id \<times> resolved_node) list) outcome" where
  "resolve_aliases_and_set_defaults json d =
     (let sops = single_operator_nodes (nodes d)
      in try_fold (\<lambda>n m. and_then (resolve_node json (desc_env d) sops n) (\<lambda>r.
           Ok (bt_insert (id_of n) r m))) (nodes d) [])"

definition source_is_url :: "string \<Rightarrow> bool" where
  "source_is_url s \<longleftrightarrow> starts_with ''https://'' s \<or> starts_with ''http://'' s"

section \<open>Lemmas\<close>

text \<open>How many of the mutually exclusive fields of a node are set.\<close>

definition kinds_set :: "node \<Rightarrow> nat" where
  "kinds_set n =
     length (filter (\<lambda>b. b) [path_of n \<noteq> None, operators n \<noteq> None, custom n \<noteq> None,
       operator n \<noteq> None, ros2 n \<noteq> None, module_of n \<noteq> None])"

lemma kind_of_cases:
  "kind_of n =
     (if kinds_set n = 0 then Err (NoKind (id_of n))
      else if kinds_set n > 1 then Err (MultipleKinds (id_of n))
      else Ok (if path_of n \<noteq> None then KStandard (the (path_of n))
        else if operators n \<noteq> None then KRuntime (the (operators n))
        else if custom n \<noteq> None then KCustom (the (custom n))
        else if operator n \<noteq> None then KOperator (the (operator n))
        else if ros2 n \<noteq> None then KRos2Bridge (the (ros2 n))
        else KModule (the (module_of n))))"
  by (cases "path_of n"; cases "operators n"; cases "custom n"; cases "operator n"; cases "ros2 n";
      cases "module_of n"; simp add: kind_of_def kinds_set_def)

lemma kind_of_not_Panic [simp]: "kind_of n \<noteq> Panic"
  by (simp add: kind_of_cases)

lemma standard_source_not_Panic [simp]: "standard_source g \<noteq> Panic"
  by (auto simp: standard_source_def git_rev_def split: option.splits)

lemma merge_env_lookup:
  assumes "pred_option bt_wf global" "pred_option bt_wf node"
  shows "map_of (case merge_env global node of None \<Rightarrow> [] | Some e \<Rightarrow> e) k =
    (case map_of (case node of None \<Rightarrow> [] | Some nd \<Rightarrow> nd) k of
       Some v \<Rightarrow> Some v
     | None \<Rightarrow> map_of (case global of None \<Rightarrow> [] | Some g \<Rightarrow> g) k)"
proof (cases global)
  case None
  then show ?thesis by (auto simp: merge_env_def split: option.splits)
next
  case (Some g)
  show ?thesis
  proof (cases node)
    case None
    with Some show ?thesis by (auto simp: merge_env_def)
  next
    case (Some nd)
    have "map_of (rev nd) = map_of nd"
      using assms(2) Some bt_wf_distinct by (intro map_of_inject_set[THEN iffD2])
        (auto simp: rev_map[symmetric])
    with \<open>global = Some g\<close> Some assms show ?thesis
      by (auto simp: merge_env_def bt.get_extend map_add_def split: option.splits)
  qed
qed

text \<open>Aliasing panics exactly when the operator name makes the joined name invalid.\<close>

lemma alias_input_Panic:
  "alias_input sops i = Panic \<longleftrightarrow>
   (\<exists>s d op. mapping i = User s d \<and> map_of sops s = Some op \<and>
      \<not> valid_data_id (operator_name op @ ''/'' @ data_name d))"
  by (auto simp: alias_input_def split: input_mapping.splits option.splits)

lemma alias_input_not_Err [simp]: "alias_input sops i \<noteq> Err e"
  by (auto simp: alias_input_def split: input_mapping.splits option.splits)

lemma try_map_no_Panic: "(\<And>x. x \<in> set xs \<Longrightarrow> f x \<noteq> Panic) \<Longrightarrow> try_map f xs \<noteq> Panic"
  by (induction xs) auto

definition safe_inputs :: "(node_id \<times> operator_id) list \<Rightarrow> input_map \<Rightarrow> bool" where
  "safe_inputs sops m \<longleftrightarrow> (\<forall>(k, i) \<in> set m. alias_input sops i \<noteq> Panic)"

text \<open>All the input maps of a node, wherever they are declared.\<close>

definition node_input_maps :: "node \<Rightarrow> input_map list" where
  "node_input_maps n =
     inputs (node_run n) #
     (case operators n of None \<Rightarrow> [] | Some ops \<Rightarrow> map (\<lambda>od. inputs (op_run (op_config od))) ops) @
     (case operator n of None \<Rightarrow> [] | Some op \<Rightarrow> [inputs (op_run (sop_config op))]) @
     (case custom n of None \<Rightarrow> [] | Some c \<Rightarrow> [inputs (run_config c)])"

lemma alias_run_no_Panic: "safe_inputs sops (inputs r) \<Longrightarrow> alias_run sops r \<noteq> Panic"
  using try_map_no_Panic[of "inputs r" "\<lambda>(k, i). and_then (alias_input sops i) (\<lambda>j. Ok (k, j))"]
  by (force simp: alias_run_def alias_inputs_def safe_inputs_def)

lemma alias_operator_no_Panic: "safe_inputs sops (inputs (op_run c)) \<Longrightarrow> alias_operator sops c \<noteq> Panic"
  by (simp add: alias_operator_def alias_run_no_Panic)

lemma resolve_kind_no_Panic:
  assumes "\<forall>m \<in> set (node_input_maps n). safe_inputs sops m"
  shows "resolve_kind json sops n \<noteq> Panic"
proof -
  have run: "alias_run sops (node_run n) \<noteq> Panic"
    using assms by (intro alias_run_no_Panic) (simp add: node_input_maps_def)
  have ops: "try_map (\<lambda>od. and_then (alias_operator sops (op_config od)) (\<lambda>c. Ok (od\<lparr>op_config := c\<rparr>))) ops \<noteq> Panic"
    if "operators n = Some ops" for ops
    using assms that by (intro try_map_no_Panic) (auto simp: node_input_maps_def alias_operator_no_Panic)
  have op: "alias_operator sops (sop_config op) \<noteq> Panic" if "operator n = Some op" for op
    using assms that by (intro alias_operator_no_Panic) (simp add: node_input_maps_def)
  have cus: "alias_run sops (run_config c) \<noteq> Panic" if "custom n = Some c" for c
    using assms that by (intro alias_run_no_Panic) (simp add: node_input_maps_def split: option.splits)
  show ?thesis
    using run ops op cus
    by (cases "ros2 n") (auto simp: resolve_kind_def kind_of_cases kinds_set_def split: if_splits)
qed

text \<open>The fold over the nodes: for each identifier the last node wins.\<close>

lemma resolve_fold:
  assumes "try_fold (\<lambda>n m. and_then (f n) (\<lambda>r. Ok (bt_insert (id_of n) r m))) ns m0 = Ok m" "bt_wf m0"
  shows "bt_wf m \<and> map_of m k = (case find (\<lambda>n. id_of n = k) (rev ns) of
      None \<Rightarrow> map_of m0 k
    | Some n \<Rightarrow> (case f n of Ok r \<Rightarrow> Some r | _ \<Rightarrow> None))"
  using assms(1)
proof (induction ns arbitrary: m rule: rev_induct)
  case Nil
  with assms(2) show ?case by simp
next
  case (snoc n ns)
  then obtain m1 r where "try_fold (\<lambda>n m. and_then (f n) (\<lambda>r. Ok (bt_insert (id_of n) r m))) ns m0 = Ok m1"
    "f n = Ok r" "m = bt_insert (id_of n) r m1"
    by (auto simp: try_fold_append)
  with snoc.IH[of m1] show ?case by auto
qed

lemma try_fold_keys:
  "try_fold (\<lambda>n m. and_then (f n) (\<lambda>r. Ok (bt_insert (id_of n) r m))) ns m0 = Ok m \<Longrightarrow>
   set (map fst m) = set (map fst m0) \<union> id_of ` set ns"
proof (induction ns arbitrary: m0)
  case Nil
  then show ?case by simp
next
  case (Cons n ns)
  then obtain r where
    "try_fold (\<lambda>n m. and_then (f n) (\<lambda>r. Ok (bt_insert (id_of n) r m))) ns (bt_insert (id_of n) r m0) = Ok m"
    by auto
  from Cons.IH[OF this] show ?case by (simp add: bt_insert_keys)
qed

lemma find_rev_mem: "(\<exists>n. find P (rev ns) = Some n) \<longleftrightarrow> (\<exists>n \<in> set ns. P n)"
  by (metis find_None_iff find_SomeD not_None_eq set_rev)

section \<open>Properties\<close>

text \<open>
  A node has a kind exactly when one, and only one, of its six exclusive fields is set; otherwise
  the error says whether there was none or more than one.
\<close>

theorem kind_of_exactly_one:
  "(is_ok (kind_of n) \<longleftrightarrow> kinds_set n = 1) \<and>
   (kind_of n = Err (NoKind (id_of n)) \<longleftrightarrow> kinds_set n = 0) \<and>
   (kind_of n = Err (MultipleKinds (id_of n)) \<longleftrightarrow> kinds_set n > 1)"
  by (auto simp: kind_of_cases)

text \<open>
  Resolution gives an ordered map whose keys are the identifiers of the nodes. The entry of an
  identifier is the resolution of the last node that carries it: an earlier node with the same identifier
  disappears without an error.
\<close>

theorem resolve_last_node_wins:
  assumes "resolve_aliases_and_set_defaults json d = Ok m"
  shows "bt_wf m \<and> set (map fst m) = id_of ` set (nodes d) \<and>
    (\<forall>k r. map_of m k = Some r \<longleftrightarrow>
      (\<exists>n. find (\<lambda>n. id_of n = k) (rev (nodes d)) = Some n \<and>
        resolve_node json (desc_env d) (single_operator_nodes (nodes d)) n = Ok r))"
proof -
  let ?f = "resolve_node json (desc_env d) (single_operator_nodes (nodes d))"
  have fold: "try_fold (\<lambda>n m. and_then (?f n) (\<lambda>r. Ok (bt_insert (id_of n) r m))) (nodes d) [] = Ok m"
    using assms by (simp add: resolve_aliases_and_set_defaults_def Let_def)
  have wf: "bt_wf m" using resolve_fold[OF fold bt_wf_Nil] by blast
  have lookup: "map_of m k = (case find (\<lambda>n. id_of n = k) (rev (nodes d)) of
      None \<Rightarrow> None | Some n \<Rightarrow> (case ?f n of Ok r \<Rightarrow> Some r | _ \<Rightarrow> None))" for k
    using resolve_fold[OF fold bt_wf_Nil, of k] by (simp split: option.splits)
  have "set (map fst m) = id_of ` set (nodes d)"
    using try_fold_keys[OF fold] by simp
  with wf show ?thesis
    by (auto simp: lookup split: option.splits outcome.splits)
qed

text \<open>The pieces of a small dataflow for the concrete instances below.\<close>

definition empty_run :: node_run_config where
  "empty_run = \<lparr>inputs = [], outputs = [], output_types = [], output_framings = [], input_types = []\<rparr>"

definition no_log :: log_options where
  "no_log = \<lparr>send_stdout_as = None, send_logs_as = None, min_log_level = None,
     max_log_size = None, max_rotated_files = None\<rparr>"

definition example_node :: "string \<Rightarrow> string \<Rightarrow> node_run_config \<Rightarrow> node" where
  "example_node i p r =
     \<lparr>id_of = NodeId i, name_of = None, description_of = None, path_of = Some p, args_of = None,
      env_of = None, operators = None, operator = None, ros2 = None, custom = None, node_run = r,
      output_metadata = [], pattern = None, node_log = no_log, build_of = None,
      node_git = \<lparr>git = None, branch = None, tag = None, revision = None\<rparr>,
      node_restart = \<lparr>restart_policy = Never, max_restarts = 0, restart_delay = None,
        max_restart_delay = None, restart_window = None, health_check_timeout = None\<rparr>,
      module_of = None, params_of = [], cpu_affinity = None, deploy_of = None\<rparr>"

definition example_operator_node :: "string \<Rightarrow> string \<Rightarrow> node_run_config \<Rightarrow> node" where
  "example_operator_node i opid r =
     (example_node i [] empty_run)\<lparr>path_of := None,
       operator := Some \<lparr>sop_id = Some (OperatorId opid), sop_config =
         \<lparr>op_name = None, op_description = None, op_run = r, op_output_metadata = [],
          op_pattern = None, op_source = Python ''op.py'' None, op_build = None, op_log = no_log\<rparr>\<rparr>\<rparr>"

definition example_descriptor :: "node list \<Rightarrow> descriptor" where
  "example_descriptor ns =
     \<lparr>nodes = ns, desc_deploy = None, enable_debug_inspection = False, health_check_interval = None,
      strict_types = None, type_rules = [], desc_env = None\<rparr>"

definition user_input :: "string \<Rightarrow> string \<Rightarrow> input" where
  "user_input s d =
     \<lparr>mapping = User (NodeId s) (DataId d), queue_size = None, input_timeout = None, input_queue_policy = None\<rparr>"

theorem resolve_last_node_wins_witness:
  "\<exists>m r. resolve_aliases_and_set_defaults (\<lambda>_. [])
      (example_descriptor [example_node ''a'' ''first'' empty_run, example_node ''a'' ''second'' empty_run]) = Ok m \<and>
    map fst m = [NodeId ''a''] \<and> map_of m (NodeId ''a'') = Some r \<and>
    rn_kind r = Custom (custom_of_node (example_node ''a'' ''second'' empty_run) ''second'' Local None None empty_run)"
proof -
  let ?d = "example_descriptor [example_node ''a'' ''first'' empty_run, example_node ''a'' ''second'' empty_run]"
  obtain m where m: "resolve_aliases_and_set_defaults (\<lambda>_. []) ?d = Ok m" "map fst m = [NodeId ''a'']"
    by (simp add: resolve_aliases_and_set_defaults_def example_descriptor_def example_node_def
        resolve_node_def resolve_kind_def kind_of_def standard_source_def alias_run_def alias_inputs_def
        empty_run_def)
  obtain r where r: "resolve_node (\<lambda>_. []) (desc_env ?d) (single_operator_nodes (nodes ?d)) (example_node ''a'' ''second'' empty_run) = Ok r"
      "rn_kind r = Custom (custom_of_node (example_node ''a'' ''second'' empty_run) ''second'' Local None None empty_run)"
    by (simp add: example_node_def resolve_node_def resolve_kind_def kind_of_def
        standard_source_def alias_run_def alias_inputs_def empty_run_def custom_of_node_def)
  have "find (\<lambda>n. id_of n = NodeId ''a'') (rev (nodes ?d)) = Some (example_node ''a'' ''second'' empty_run)"
    by (simp add: example_descriptor_def example_node_def)
  with resolve_last_node_wins[OF m(1)] r(1) have k: "map_of m (NodeId ''a'') = Some r" by blast
  show ?thesis by (intro exI[of _ m] exI[of _ r] conjI m k r(2))
qed

text \<open>
  The environment of a resolved node: a variable set on the node keeps its value, and a variable the
  node does not set has the value of the dataflow.
\<close>

theorem merge_env_node_wins:
  assumes "pred_option bt_wf global" "pred_option bt_wf node"
  shows "map_of (case merge_env global node of None \<Rightarrow> [] | Some e \<Rightarrow> e) k =
    (case map_of (case node of None \<Rightarrow> [] | Some nd \<Rightarrow> nd) k of
       Some v \<Rightarrow> Some v
     | None \<Rightarrow> map_of (case global of None \<Rightarrow> [] | Some g \<Rightarrow> g) k)"
  using assms by (rule merge_env_lookup)

theorem merge_env_node_wins_witness:
  "map_of (case merge_env (Some [(''A'', EnvBool True), (''B'', EnvBool True)]) (Some [(''A'', EnvBool False)]) of
      None \<Rightarrow> [] | Some e \<Rightarrow> e) ''A'' = Some (EnvBool False)"
  using merge_env_node_wins[of "Some [(''A'', EnvBool True), (''B'', EnvBool True)]" "Some [(''A'', EnvBool False)]" "''A''"]
  by (simp add: bt_wf_def)

text \<open>
  Resolution never panics when the identifiers it joins are valid. Operator identifiers are not
  validated when a descriptor is read, so this is a condition on the descriptor: an operator name with a
  space in it makes the resolution of a dataflow that uses the operator's output panic.
\<close>

theorem resolve_no_panic:
  assumes "\<forall>n \<in> set (nodes d). \<forall>m \<in> set (node_input_maps n). safe_inputs (single_operator_nodes (nodes d)) m"
  shows "resolve_aliases_and_set_defaults json d \<noteq> Panic"
proof -
  have "resolve_node json (desc_env d) (single_operator_nodes (nodes d)) n \<noteq> Panic" if "n \<in> set (nodes d)" for n
    using assms that resolve_kind_no_Panic by (auto simp: resolve_node_def)
  then have "try_fold (\<lambda>n m. and_then (resolve_node json (desc_env d) (single_operator_nodes (nodes d)) n) (\<lambda>r.
      Ok (bt_insert (id_of n) r m))) ns m0 \<noteq> Panic" if "set ns \<subseteq> set (nodes d)" for ns m0
    using that by (induction ns arbitrary: m0) auto
  then show ?thesis by (simp add: resolve_aliases_and_set_defaults_def Let_def)
qed

theorem resolve_no_panic_witness:
  "resolve_aliases_and_set_defaults (\<lambda>_. []) (example_descriptor
     [example_operator_node ''a'' ''detect'' empty_run,
      example_node ''b'' ''sink'' (empty_run\<lparr>inputs := [(DataId ''x'', user_input ''a'' ''box'')]\<rparr>)]) \<noteq> Panic \<and>
   resolve_aliases_and_set_defaults (\<lambda>_. []) (example_descriptor
     [example_operator_node ''a'' ''my op'' empty_run,
      example_node ''b'' ''sink'' (empty_run\<lparr>inputs := [(DataId ''x'', user_input ''a'' ''box'')]\<rparr>)]) = Panic"
proof
  show "resolve_aliases_and_set_defaults (\<lambda>_. []) (example_descriptor
     [example_operator_node ''a'' ''detect'' empty_run,
      example_node ''b'' ''sink'' (empty_run\<lparr>inputs := [(DataId ''x'', user_input ''a'' ''box'')]\<rparr>)]) \<noteq> Panic"
    by (rule resolve_no_panic)
      (simp add: example_descriptor_def example_operator_node_def example_node_def empty_run_def
        node_input_maps_def safe_inputs_def alias_input_def user_input_def single_operator_nodes_def
        operator_id_or_default_def valid_data_id_def valid_node_id_def node_id_char_def char_class_defs)
  show "resolve_aliases_and_set_defaults (\<lambda>_. []) (example_descriptor
     [example_operator_node ''a'' ''my op'' empty_run,
      example_node ''b'' ''sink'' (empty_run\<lparr>inputs := [(DataId ''x'', user_input ''a'' ''box'')]\<rparr>)]) = Panic"
    by (simp add: resolve_aliases_and_set_defaults_def example_descriptor_def example_operator_node_def
        example_node_def empty_run_def resolve_node_def resolve_kind_def kind_of_def standard_source_def
        alias_run_def alias_operator_def alias_inputs_def alias_input_def user_input_def
        single_operator_nodes_def operator_id_or_default_def data_id_from_def valid_data_id_def
        valid_node_id_def node_id_char_def char_class_defs)
qed

end
