(* ===== verification/Expand.thy ===== *)
theory Expand
  imports Descriptor
begin

text \<open>
  Module expansion (\<^verbatim>\<open>libraries/core/src/descriptor/expand.rs\<close>): nodes that refer to a module
  file are replaced by the nodes of that file, with prefixed identifiers and rewired inputs, recursively.
  The file system is a parameter: how a path is made canonical and what loading a module file gives
  (its size, its contents or an error). A path is the list of the parts of its text between slashes,
  with the root \<^verbatim>\<open>/\<close> as first part when it is absolute. A canonical path has only proper
  parts; a joined path keeps the empty and \<^verbatim>\<open>.\<close> parts of the text that was joined, which
  \<^verbatim>\<open>Path::components\<close> skips and \<^verbatim>\<open>Path::strip_prefix\<close> leaves inside its result.
\<close>

section \<open>Paths and module files\<close>

type_synonym path = "string list"

definition skipped_part :: "string \<Rightarrow> bool" where
  "skipped_part c \<longleftrightarrow> c = [] \<or> c = ''.''"

definition is_absolute_any_platform :: "string \<Rightarrow> bool" where
  "is_absolute_any_platform s \<longleftrightarrow> starts_with ''/'' s"

definition path_join :: "path \<Rightarrow> string \<Rightarrow> path" where
  "path_join p s =
     (if is_absolute_any_platform s then ''/'' # split_on (CHR ''/'') s else p @ split_on (CHR ''/'') s)"

definition path_parent :: "path \<Rightarrow> ('e, path) outcome" where
  "path_parent p = (if p = [] \<or> p = [''/''] then Panic else Ok (butlast p))"

definition path_starts_with :: "path \<Rightarrow> path \<Rightarrow> bool" where
  "path_starts_with p base \<longleftrightarrow> take (length base) p = base"

fun path_string :: "path \<Rightarrow> string" where
  "path_string [] = []"
| "path_string [c] = c"
| "path_string (c # cs) = (if c = ''/'' then c else c @ ''/'') @ path_string cs"

text \<open>
  \<^verbatim>\<open>strip_prefix\<close> compares component by component; what remains loses the skipped parts at its
  two ends only.
\<close>

fun strip_parts :: "path \<Rightarrow> path \<Rightarrow> path option" where
  "strip_parts [] p = Some p"
| "strip_parts (b # bs) [] = None"
| "strip_parts (b # bs) (c # cs) =
     (if skipped_part c then strip_parts (b # bs) cs
      else if c = b then strip_parts bs cs else None)"

definition trim_parts :: "path \<Rightarrow> path" where
  "trim_parts p = rev (dropWhile skipped_part (rev (dropWhile skipped_part p)))"

definition path_strip_prefix :: "path \<Rightarrow> path \<Rightarrow> path option" where
  "path_strip_prefix p base = map_option trim_parts (strip_parts base p)"

record module_file =
  mod_name :: string
  mod_inputs :: "data_id list"
  mod_inputs_optional :: "data_id list"
  mod_outputs :: "data_id list"
  mod_nodes :: "node list"
  mod_build :: "string option"

record file_system =
  canonicalize :: "path \<Rightarrow> path option"
  file_size :: "path \<Rightarrow> nat option"
  parse_module :: "path \<Rightarrow> module_file option"

datatype expand_error =
    DepthLimit node_id
  | AbsoluteModulePath string node_id
  | ModuleNotFound path
  | EscapesProject string node_id
  | CircularModule path node_id
  | ModuleTooLarge path
  | ModuleUnreadable path
  | MissingRequiredInput string data_id node_id
  | InvalidParamKey string node_id
  | UnboundModuleInput string
  | PathOutsideProject node_id string
  | UndeclaredModuleOutput node_id string string
  | OutputNotProduced string data_id
  | DuplicateNodeId node_id
  | UndeclaredModuleInput string node_id data_id string
  | BaseDirNotFound path

definition MAX_MODULE_DEPTH :: nat where
  "MAX_MODULE_DEPTH = 8"

definition MAX_MODULE_FILE_SIZE :: nat where
  "MAX_MODULE_FILE_SIZE = 1048576"

definition MODULE_INPUT_SOURCE :: string where
  "MODULE_INPUT_SOURCE = ''_mod''"

definition load_module_file :: "file_system \<Rightarrow> path \<Rightarrow> (expand_error, module_file) outcome" where
  "load_module_file fs p =
     (case file_size fs p of
        None \<Rightarrow> Err (ModuleUnreadable p)
      | Some n \<Rightarrow>
          (if n > MAX_MODULE_FILE_SIZE then Err (ModuleTooLarge p)
           else ok_or (ModuleUnreadable p) (parse_module fs p)))"

section \<open>Parameters\<close>

definition substitute_params_in_str :: "string \<Rightarrow> (string \<times> string) list \<Rightarrow> string" where
  "substitute_params_in_str s params =
     fold (\<lambda>(k, v) r. replace_str (''${_param.'' @ k @ ''}'') v r) params s"

definition substitute_params_in_node :: "(string \<times> string) list \<Rightarrow> node \<Rightarrow> node" where
  "substitute_params_in_node params n =
     n\<lparr>args_of := map_option (\<lambda>a. substitute_params_in_str a params) (args_of n),
       env_of := Some (fold (\<lambda>(k, v). bt_insert (''PARAM_'' @ to_uppercase k) (EnvString v)) params
         (case env_of n of None \<Rightarrow> [] | Some e \<Rightarrow> e))\<rparr>"

definition valid_param_key :: "string \<Rightarrow> bool" where
  "valid_param_key k \<longleftrightarrow> list_all (\<lambda>c. is_ascii_alphanumeric c \<or> c = CHR ''_'') k \<and> k \<noteq> []"

section \<open>Rewiring\<close>

definition or_else :: "'a option \<Rightarrow> 'a option \<Rightarrow> 'a option" where
  "or_else a b = (case a of Some x \<Rightarrow> Some x | None \<Rightarrow> b)"

definition rewrite_module_input ::
    "string \<Rightarrow> input_map \<Rightarrow> string list \<Rightarrow> string list \<Rightarrow> input \<Rightarrow> (expand_error, input option) outcome" where
  "rewrite_module_input module_id module_inputs inner_ids optional i =
     (case mapping i of
        User s d \<Rightarrow>
          (if node_name s = MODULE_INPUT_SOURCE then
             (case map_of module_inputs (DataId (data_name d)) of
                Some b \<Rightarrow>
                  Ok (Some \<lparr>mapping = mapping b, queue_size = or_else (queue_size i) (queue_size b),
                    input_timeout = or_else (input_timeout i) (input_timeout b),
                    input_queue_policy = or_else (input_queue_policy i) (input_queue_policy b)\<rparr>)
              | None \<Rightarrow>
                  (if data_name d \<in> set optional then Ok None
                   else Err (UnboundModuleInput (data_name d))))
           else if node_name s \<in> set inner_ids then
             and_then (node_id_from (module_id @ ''.'' @ node_name s)) (\<lambda>s'.
             Ok (Some (i\<lparr>mapping := User s' d\<rparr>)))
           else Ok (Some i))
      | _ \<Rightarrow> Ok (Some i))"

fun rewrite_module_inputs ::
    "string \<Rightarrow> input_map \<Rightarrow> string list \<Rightarrow> string list \<Rightarrow> input_map \<Rightarrow> (expand_error, input_map) outcome" where
  "rewrite_module_inputs mid mins inner opt [] = Ok []"
| "rewrite_module_inputs mid mins inner opt ((k, i) # m) =
     and_then (rewrite_module_input mid mins inner opt i) (\<lambda>r.
     and_then (rewrite_module_inputs mid mins inner opt m) (\<lambda>m'.
     Ok (case r of None \<Rightarrow> m' | Some j \<Rightarrow> (k, j) # m')))"

type_synonym output_map = "(string \<times> string) list"

definition rewrite_external_input ::
    "(string \<times> output_map) list \<Rightarrow> node_id \<Rightarrow> input \<Rightarrow> (expand_error, input) outcome" where
  "rewrite_external_input omaps nid i =
     (case mapping i of
        User s d \<Rightarrow>
          (case map_of omaps (node_name s) of
             None \<Rightarrow> Ok i
           | Some omap \<Rightarrow>
               (case map_of omap (data_name d) of
                  None \<Rightarrow> Err (UndeclaredModuleOutput nid (node_name s) (data_name d))
                | Some prefixed \<Rightarrow>
                    and_then (node_id_from prefixed) (\<lambda>s'. Ok (i\<lparr>mapping := User s' d\<rparr>))))
      | _ \<Rightarrow> Ok i)"

definition rewrite_inputs_map ::
    "(string \<times> output_map) list \<Rightarrow> node_id \<Rightarrow> input_map \<Rightarrow> (expand_error, input_map) outcome" where
  "rewrite_inputs_map omaps nid m =
     try_map (\<lambda>(k, i). and_then (rewrite_external_input omaps nid i) (\<lambda>j. Ok (k, j))) m"

definition rewrite_run ::
    "(string \<times> output_map) list \<Rightarrow> node_id \<Rightarrow> node_run_config \<Rightarrow> (expand_error, node_run_config) outcome" where
  "rewrite_run omaps nid r =
     and_then (rewrite_inputs_map omaps nid (inputs r)) (\<lambda>m. Ok (r\<lparr>inputs := m\<rparr>))"

definition rewrite_config ::
    "(string \<times> output_map) list \<Rightarrow> node_id \<Rightarrow> operator_config \<Rightarrow> (expand_error, operator_config) outcome" where
  "rewrite_config omaps nid c =
     and_then (rewrite_run omaps nid (op_run c)) (\<lambda>r. Ok (c\<lparr>op_run := r\<rparr>))"

definition option_map_try :: "('a \<Rightarrow> ('e, 'a) outcome) \<Rightarrow> 'a option \<Rightarrow> ('e, 'a option) outcome" where
  "option_map_try f x = (case x of None \<Rightarrow> Ok None | Some v \<Rightarrow> and_then (f v) (\<lambda>w. Ok (Some w)))"

definition rewrite_node :: "(string \<times> output_map) list \<Rightarrow> node \<Rightarrow> (expand_error, node) outcome" where
  "rewrite_node omaps n =
     and_then (rewrite_run omaps (id_of n) (node_run n)) (\<lambda>r.
     and_then (option_map_try (try_map (\<lambda>od. and_then (rewrite_config omaps (id_of n) (op_config od)) (\<lambda>c.
       Ok (od\<lparr>op_config := c\<rparr>)))) (operators n)) (\<lambda>ops.
     and_then (option_map_try (\<lambda>op. and_then (rewrite_config omaps (id_of n) (sop_config op)) (\<lambda>c.
       Ok (op\<lparr>sop_config := c\<rparr>))) (operator n)) (\<lambda>op.
     and_then (option_map_try (\<lambda>c. and_then (rewrite_run omaps (id_of n) (run_config c)) (\<lambda>r.
       Ok (c\<lparr>run_config := r\<rparr>))) (custom n)) (\<lambda>c.
     Ok (n\<lparr>node_run := r, operators := ops, operator := op, custom := c\<rparr>)))))"

definition rewrite_external_refs ::
    "(string \<times> output_map) list \<Rightarrow> node list \<Rightarrow> (expand_error, node list) outcome" where
  "rewrite_external_refs omaps ns = (if omaps = [] then Ok ns else try_map (rewrite_node omaps) ns)"

section \<open>Expansion\<close>

definition check_required_inputs :: "module_file \<Rightarrow> node \<Rightarrow> (expand_error, unit) outcome" where
  "check_required_inputs mf n =
     try_each (\<lambda>d. if map_of (inputs (node_run n)) d = None
       then Err (MissingRequiredInput (mod_name mf) d (id_of n)) else Ok ()) (mod_inputs mf)"

definition check_params :: "node \<Rightarrow> (expand_error, unit) outcome" where
  "check_params n =
     try_each (\<lambda>(k, v). if \<not> valid_param_key k then Err (InvalidParamKey k (id_of n)) else Ok ()) (params_of n)"

text \<open>The relative path of an inner node, made relative to the project directory.\<close>

definition resolve_inner_path ::
    "path \<Rightarrow> path \<Rightarrow> node_id \<Rightarrow> string option \<Rightarrow> (expand_error, string option) outcome" where
  "resolve_inner_path module_dir base nid p =
     (case p of
        None \<Rightarrow> Ok None
      | Some s \<Rightarrow>
          (if source_is_url s \<or> starts_with ''/'' s then Ok (Some s)
           else (case path_strip_prefix (path_join module_dir s) base of
               Some r \<Rightarrow> Ok (Some (path_string r))
             | None \<Rightarrow> Err (PathOutsideProject nid s))))"

text \<open>The first phase for one inner node.\<close>

definition prefix_node ::
    "module_file \<Rightarrow> node \<Rightarrow> path \<Rightarrow> path \<Rightarrow> node \<Rightarrow> (expand_error, node) outcome" where
  "prefix_node mf outer module_dir base inner =
     (let mid = node_name (id_of outer) in
      and_then (node_id_from (mid @ ''.'' @ node_name (id_of inner))) (\<lambda>pid.
      and_then (rewrite_module_inputs mid (inputs (node_run outer))
        (map (\<lambda>n. node_name (id_of n)) (mod_nodes mf))
        (map data_name (mod_inputs_optional mf)) (inputs (node_run inner))) (\<lambda>ins.
      and_then (resolve_inner_path module_dir base pid (path_of inner)) (\<lambda>p.
      let n1 = inner\<lparr>id_of := pid, node_run := (node_run inner)\<lparr>inputs := ins\<rparr>, path_of := p,
                 deploy_of := or_else (deploy_of inner) (deploy_of outer)\<rparr>;
          n2 = (if params_of outer \<noteq> [] then substitute_params_in_node (params_of outer) n1 else n1)
      in Ok (case mod_build mf of
           None \<Rightarrow> n2
         | Some mb \<Rightarrow>
             n2\<lparr>build_of := Some (case build_of n2 of
                  Some existing \<Rightarrow> mb @ [CHR 0x0A] @ existing | None \<Rightarrow> mb)\<rparr>)))))"

text \<open>The third phase: which inner node produces each declared output.\<close>

definition build_output_map :: "module_file \<Rightarrow> node list \<Rightarrow> (expand_error, output_map) outcome" where
  "build_output_map mf final =
     try_fold (\<lambda>d m.
       case find (\<lambda>n. d \<in> set (outputs (node_run n))) final of
         None \<Rightarrow> Err (OutputNotProduced (mod_name mf) d)
       | Some n \<Rightarrow> Ok (bt_insert (data_name d) (node_name (id_of n)) m)) (mod_outputs mf) []"

text \<open>
  Opening a module: the checks on its path and the load. The result is the canonical path, the file
  and the directory it lies in.
\<close>

definition open_module ::
    "file_system \<Rightarrow> node \<Rightarrow> string \<Rightarrow> path \<Rightarrow> path \<Rightarrow> path list
     \<Rightarrow> (expand_error, path \<times> module_file \<times> path) outcome" where
  "open_module fs n mpath base_dir base seen =
     (if is_absolute_any_platform mpath then Err (AbsoluteModulePath mpath (id_of n))
      else (case canonicalize fs (path_join base_dir mpath) of
          None \<Rightarrow> Err (ModuleNotFound (path_join base_dir mpath))
        | Some canonical \<Rightarrow>
            (if \<not> path_starts_with canonical base then Err (EscapesProject mpath (id_of n))
             else if canonical \<in> set seen then Err (CircularModule (path_join base_dir mpath) (id_of n))
             else
               and_then (load_module_file fs canonical) (\<lambda>mf.
               and_then (path_parent canonical) (\<lambda>dir.
               Ok (canonical, mf, dir))))))"

text \<open>
  The recursion over nested modules. The set of open module files is extended for the nested modules and
  shrinks again on the way back, so that a file may be used more than once but not inside itself.
\<close>

function (sequential)
  expand_module_node ::
    "file_system \<Rightarrow> path \<Rightarrow> nat \<Rightarrow> node \<Rightarrow> path \<Rightarrow> path list
     \<Rightarrow> (expand_error, (node list \<times> output_map) \<times> path list) outcome" and
  expand_inner ::
    "file_system \<Rightarrow> path \<Rightarrow> nat \<Rightarrow> path \<Rightarrow> node list \<Rightarrow> (string \<times> output_map) list \<Rightarrow> path list
     \<Rightarrow> (expand_error, (node list \<times> (string \<times> output_map) list) \<times> path list) outcome" where
  "expand_module_node fs base depth n base_dir seen =
     (if depth \<ge> MAX_MODULE_DEPTH then Err (DepthLimit (id_of n))
      else (case module_of n of
          None \<Rightarrow> Panic
        | Some mpath \<Rightarrow>
            and_then (open_module fs n mpath base_dir base seen) (\<lambda>(canonical, mf, dir).
            and_then (check_required_inputs mf n) (\<lambda>_.
            and_then (check_params n) (\<lambda>_.
            and_then (try_map (prefix_node mf n dir base) (mod_nodes mf)) (\<lambda>prefixed.
            and_then (expand_inner fs base (depth + 1) dir prefixed [] (canonical # seen))
              (\<lambda>((final, omaps), seen').
            and_then (rewrite_external_refs omaps final) (\<lambda>final'.
            and_then (build_output_map mf final') (\<lambda>omap.
            Ok ((final', omap), removeAll canonical seen'))))))))))"
| "expand_inner fs base depth dir [] omaps seen = Ok (([], omaps), seen)"
| "expand_inner fs base depth dir (n # ns) omaps seen =
     (if module_of n \<noteq> None then
        and_then (expand_module_node fs base depth n dir seen) (\<lambda>((nested, omap), seen').
        and_then (expand_inner fs base depth dir ns (bt_insert (node_name (id_of n)) omap omaps) seen')
          (\<lambda>((final, omaps'), seen'').
        Ok ((nested @ final, omaps'), seen'')))
      else
        and_then (expand_inner fs base depth dir ns omaps seen) (\<lambda>((final, omaps'), seen').
        Ok ((n # final, omaps'), seen')))"
  by pat_completeness auto
termination
  by (relation "inv_image (less_than <*lex*> less_than) (\<lambda>x. case x of
      Inl (fs, base, depth, n, base_dir, seen) \<Rightarrow> (MAX_MODULE_DEPTH - depth, 0)
    | Inr (fs, base, depth, dir, ns, omaps, seen) \<Rightarrow> (MAX_MODULE_DEPTH - depth, Suc (length ns)))") auto


section \<open>The whole descriptor\<close>

type_synonym boundaries = "(string \<times> string list) list"

record expanded_descriptor =
  flat_descriptor :: descriptor
  module_boundaries :: boundaries

text \<open>The loop over the nodes of the descriptor.\<close>

fun expand_nodes ::
    "file_system \<Rightarrow> path \<Rightarrow> path \<Rightarrow> node list \<Rightarrow> (string \<times> output_map) list \<Rightarrow> boundaries \<Rightarrow> path list
     \<Rightarrow> (expand_error, node list \<times> (string \<times> output_map) list \<times> boundaries) outcome" where
  "expand_nodes fs base dir [] omaps bs seen = Ok ([], omaps, bs)"
| "expand_nodes fs base dir (n # ns) omaps bs seen =
     (if module_of n \<noteq> None then
        and_then (expand_module_node fs base 0 n dir seen) (\<lambda>((expanded, omap), seen').
        and_then (expand_nodes fs base dir ns (bt_insert (node_name (id_of n)) omap omaps)
            (bt_insert (node_name (id_of n)) (map (\<lambda>m. node_name (id_of m)) expanded) bs) seen')
          (\<lambda>(flat, omaps', bs'). Ok (expanded @ flat, omaps', bs')))
      else
        and_then (expand_nodes fs base dir ns omaps bs seen) (\<lambda>(flat, omaps', bs').
        Ok (n # flat, omaps', bs')))"

fun check_unique_ids :: "node list \<Rightarrow> string list \<Rightarrow> (expand_error, unit) outcome" where
  "check_unique_ids [] ids = Ok ()"
| "check_unique_ids (n # ns) ids =
     (if node_name (id_of n) \<in> set ids then Err (DuplicateNodeId (id_of n))
      else check_unique_ids ns (node_name (id_of n) # ids))"

definition expand_modules_with_boundaries ::
    "file_system \<Rightarrow> descriptor \<Rightarrow> path \<Rightarrow> (expand_error, expanded_descriptor) outcome" where
  "expand_modules_with_boundaries fs d base_dir =
     (if \<not> list_ex (\<lambda>n. module_of n \<noteq> None) (nodes d)
      then Ok \<lparr>flat_descriptor = d, module_boundaries = []\<rparr>
      else
        and_then (ok_or (BaseDirNotFound base_dir) (canonicalize fs base_dir)) (\<lambda>base.
        and_then (expand_nodes fs base base_dir (nodes d) [] [] []) (\<lambda>(flat, omaps, bs).
        and_then (rewrite_external_refs omaps flat) (\<lambda>flat'.
        and_then (check_unique_ids flat' []) (\<lambda>_.
        Ok \<lparr>flat_descriptor = d\<lparr>nodes := flat'\<rparr>, module_boundaries = bs\<rparr>)))))"

definition expand_modules :: "file_system \<Rightarrow> descriptor \<Rightarrow> path \<Rightarrow> (expand_error, descriptor) outcome" where
  "expand_modules fs d base_dir =
     and_then (expand_modules_with_boundaries fs d base_dir) (\<lambda>e. Ok (flat_descriptor e))"

section \<open>Checking a module file on its own\<close>

definition check_mod_reference ::
    "module_file \<Rightarrow> string list \<Rightarrow> node \<Rightarrow> data_id \<times> input \<Rightarrow> (expand_error, unit) outcome" where
  "check_mod_reference mf names n e =
     (case mapping (snd e) of
        User s d \<Rightarrow>
          (if node_name s = MODULE_INPUT_SOURCE \<and> data_name d \<notin> set names
           then Err (UndeclaredModuleInput (mod_name mf) (id_of n) (fst e) (data_name d)) else Ok ())
      | _ \<Rightarrow> Ok ())"

text \<open>The outputs that a nested module declares, after the checks on its path.\<close>

definition nested_outputs ::
    "file_system \<Rightarrow> module_file \<Rightarrow> path \<Rightarrow> node \<Rightarrow> (expand_error, string list) outcome" where
  "nested_outputs fs mf dir n =
     (case module_of n of
        None \<Rightarrow> Ok []
      | Some mpath \<Rightarrow>
          (if is_absolute_any_platform mpath then Err (AbsoluteModulePath mpath (id_of n))
           else
             and_then (ok_or (ModuleNotFound (path_join dir mpath)) (canonicalize fs (path_join dir mpath)))
               (\<lambda>nested.
             and_then (ok_or (BaseDirNotFound dir) (canonicalize fs dir)) (\<lambda>base.
             if \<not> path_starts_with nested base then Err (EscapesProject mpath (id_of n))
             else and_then (load_module_file fs nested) (\<lambda>nf. Ok (map data_name (mod_outputs nf)))))))"

definition check_module_file :: "file_system \<Rightarrow> path \<Rightarrow> (expand_error, unit) outcome" where
  "check_module_file fs p =
     and_then (ok_or (ModuleNotFound p) (canonicalize fs p)) (\<lambda>canonical.
     and_then (load_module_file fs canonical) (\<lambda>mf.
     and_then (path_parent canonical) (\<lambda>dir.
     let names = map data_name (mod_inputs mf @ mod_inputs_optional mf) in
     and_then (try_each (\<lambda>n. try_each (check_mod_reference mf names n) (inputs (node_run n))) (mod_nodes mf)) (\<lambda>_.
     and_then (try_map (nested_outputs fs mf dir) (mod_nodes mf)) (\<lambda>nested.
     let produced = concat (map (\<lambda>n. map data_name (outputs (node_run n)))
           (filter (\<lambda>n. module_of n = None) (mod_nodes mf))) @ concat nested
     in try_each (\<lambda>d. if data_name d \<in> set produced then Ok ()
          else Err (OutputNotProduced (mod_name mf) d)) (mod_outputs mf))))))"

section \<open>What expansion keeps\<close>

definition produces :: "string \<Rightarrow> string \<Rightarrow> node \<Rightarrow> bool" where
  "produces p d m \<longleftrightarrow> node_name (id_of m) = p \<and> d \<in> data_name ` set (outputs (node_run m))"

definition omap_ok :: "node set \<Rightarrow> string \<Rightarrow> output_map \<Rightarrow> bool" where
  "omap_ok N k om \<longleftrightarrow> (\<forall>(d, p) \<in> set om. (\<exists>m \<in> N. produces p d m) \<and> (\<exists>x. p = k @ ''.'' @ x))"

definition omaps_ok :: "node set \<Rightarrow> (string \<times> output_map) list \<Rightarrow> bool" where
  "omaps_ok N oms \<longleftrightarrow> (\<forall>(k, om) \<in> set oms. omap_ok N k om)"

definition within :: "node \<Rightarrow> node \<Rightarrow> bool" where
  "within n m \<longleftrightarrow> (\<exists>x. node_name (id_of m) = node_name (id_of n) @ ''.'' @ x)"

lemma omaps_ok_mono: "omaps_ok N oms \<Longrightarrow> N \<subseteq> N' \<Longrightarrow> omaps_ok N' oms"
  by (fastforce simp: omaps_ok_def omap_ok_def)

lemma omap_ok_mono: "omap_ok N k om \<Longrightarrow> N \<subseteq> N' \<Longrightarrow> omap_ok N' k om"
  by (fastforce simp: omap_ok_def)

lemma set_bt_insert_subset: "set (bt_insert k v m) \<subseteq> insert (k, v) (set m)"
  by (induction k v m rule: bt_insert.induct) auto

lemma omaps_ok_insert: "omaps_ok N oms \<Longrightarrow> omap_ok N k om \<Longrightarrow> omaps_ok N (bt_insert k om oms)"
  using set_bt_insert_subset[of k om oms] by (fastforce simp: omaps_ok_def)

lemma omap_ok_insert:
  assumes "omap_ok N k m" "omap_ok N k [(a, b)]"
  shows "omap_ok N k (bt_insert a b m)"
proof -
  have "\<forall>e \<in> insert (a, b) (set m). case e of (d, p) \<Rightarrow>
      (\<exists>m \<in> N. produces p d m) \<and> (\<exists>x. p = k @ ''.'' @ x)"
    using assms unfolding omap_ok_def by simp
  then show ?thesis
    unfolding omap_ok_def using set_bt_insert_subset by (metis (no_types, lifting) subsetD)
qed

lemma rewrite_node_keeps:
  assumes "rewrite_node omaps n = Ok m"
  shows "id_of m = id_of n" "module_of m = module_of n" "outputs (node_run m) = outputs (node_run n)"
  using assms by (auto simp: rewrite_node_def rewrite_run_def)

lemma rewrite_external_refs_keeps:
  assumes "rewrite_external_refs omaps ns = Ok ms"
  shows "list_all2 (\<lambda>n m. id_of m = id_of n \<and> module_of m = module_of n \<and>
    outputs (node_run m) = outputs (node_run n)) ns ms"
  using assms
  by (auto simp: rewrite_external_refs_def try_map_Ok_list_all2 rewrite_node_keeps list.rel_refl
      split: if_splits elim!: list_all2_mono)

lemma rewrite_external_refs_mem:
  assumes "rewrite_external_refs omaps ns = Ok ms" "m \<in> set ms"
  obtains n where "n \<in> set ns" "id_of m = id_of n" "module_of m = module_of n"
    "outputs (node_run m) = outputs (node_run n)"
proof -
  obtain i where "i < length ms" "m = ms ! i" using assms(2) by (auto simp: in_set_conv_nth)
  then show thesis
    using rewrite_external_refs_keeps[OF assms(1)] that[of "ns ! i"] by (simp add: list_all2_conv_all_nth)
qed

lemma substitute_params_keeps [simp]:
  "id_of (substitute_params_in_node ps n) = id_of n"
  "module_of (substitute_params_in_node ps n) = module_of n"
  "node_run (substitute_params_in_node ps n) = node_run n"
  by (simp_all add: substitute_params_in_node_def)

lemma prefix_node_Ok:
  assumes "prefix_node mf outer dir base inner = Ok m"
  shows "within outer m" "module_of m = module_of inner"
  using assms
  by (cases "mod_build mf"; cases "params_of outer = []";
      force simp: prefix_node_def within_def Let_def)+

lemma build_output_map_ok:
  assumes "build_output_map mf ns = Ok om" and "\<forall>m \<in> set ns. within n m"
  shows "omap_ok (set ns) (node_name (id_of n)) om"
proof (rule try_fold_invariant[OF assms(1)[unfolded build_output_map_def]])
  show "omap_ok (set ns) (node_name (id_of n)) []" by (simp add: omap_ok_def)
next
  fix d m m'
  assume m: "omap_ok (set ns) (node_name (id_of n)) m"
    and "(case find (\<lambda>n. d \<in> set (outputs (node_run n))) ns of
         None \<Rightarrow> Err (OutputNotProduced (mod_name mf) d)
       | Some n \<Rightarrow> Ok (bt_insert (data_name d) (node_name (id_of n)) m)) = Ok m'"
  then obtain q where q: "q \<in> set ns" "d \<in> set (outputs (node_run q))"
      and m': "m' = bt_insert (data_name d) (node_name (id_of q)) m"
    by (auto split: option.splits dest!: find_SomeD)
  have "within n q" using assms(2) q(1) by blast
  with q have "omap_ok (set ns) (node_name (id_of n)) [(data_name d, node_name (id_of q))]"
    by (auto simp: omap_ok_def produces_def within_def)
  with m show "omap_ok (set ns) (node_name (id_of n)) m'"
    unfolding m' by (rule omap_ok_insert)
qed

lemma within_trans: "within a b \<Longrightarrow> within b c \<Longrightarrow> within a c"
  by (auto simp: within_def)

lemma expansion_keeps:
  "expand_module_node fs base depth n bd seen = Ok ((ns, om), seen1) \<Longrightarrow>
    (\<forall>m \<in> set ns. module_of m = None \<and> within n m) \<and> omap_ok (set ns) (node_name (id_of n)) om"
  "expand_inner fs base depth dir is omaps seen = Ok ((ns, omaps1), seen1) \<Longrightarrow> omaps_ok N omaps \<Longrightarrow>
    (\<forall>m \<in> set ns. module_of m = None \<and> (\<exists>n \<in> set is. m = n \<or> within n m)) \<and> omaps_ok (N \<union> set ns) omaps1"
proof (induction fs base depth n bd seen and fs base depth dir "is" omaps seen
    arbitrary: ns om seen1 and ns omaps1 seen1 N rule: expand_module_node_expand_inner.induct)
  case (1 fs base depth n bd seen)
  from "1.prems" obtain mpath canonical mf dir pre final oms seen2
    where d: "\<not> MAX_MODULE_DEPTH \<le> depth" "module_of n = Some mpath"
      and o: "open_module fs n mpath bd base seen = Ok (canonical, mf, dir)"
      and c: "check_required_inputs mf n = Ok ()" "check_params n = Ok ()"
      and p: "try_map (prefix_node mf n dir base) (mod_nodes mf) = Ok pre"
      and e: "expand_inner fs base (depth + 1) dir pre [] (canonical # seen) = Ok ((final, oms), seen2)"
      and r: "rewrite_external_refs oms final = Ok ns"
      and b: "build_output_map mf ns = Ok om"
    by (auto split: if_splits option.splits)
  have inner: "\<forall>m \<in> set final. module_of m = None \<and> (\<exists>n \<in> set pre. m = n \<or> within n m)"
    using "1.IH"[OF d e, of "{}"] by (auto simp: omaps_ok_def)
  have "module_of m = None \<and> within n m" if mem: "m \<in> set ns" for m
  proof -
    obtain f where f: "f \<in> set final" "id_of m = id_of f" "module_of m = module_of f"
      using rewrite_external_refs_mem[OF r mem] by metis
    then obtain q where "q \<in> set pre" "f = q \<or> within q f" using inner by blast
    moreover have "within n q" using p \<open>q \<in> set pre\<close> prefix_node_Ok(1) by (auto elim: try_map_mem)
    ultimately have "within n f" by (auto intro: within_trans)
    then show ?thesis using f inner by (simp add: within_def)
  qed
  then show ?case using build_output_map_ok[OF b, of n] by blast
next
  case (2 fs base depth dir omaps seen)
  then show ?case by simp
next
  case (3 fs base depth dir n is' omaps seen)
  show ?case
  proof (cases "module_of n")
    case None
    then obtain rest where ns: "ns = n # rest"
        and e: "expand_inner fs base depth dir is' omaps seen = Ok ((rest, omaps1), seen1)"
      using "3.prems"(1) by auto
    from "3.IH"(3)[OF _ e "3.prems"(2)] None show ?thesis
      by (auto simp: ns elim: omaps_ok_mono)
  next
    case (Some mpath)
    then obtain nested om seen2 rest where ns: "ns = nested @ rest"
        and m: "expand_module_node fs base depth n dir seen = Ok ((nested, om), seen2)"
        and e: "expand_inner fs base depth dir is' (bt_insert (node_name (id_of n)) om omaps) seen2
          = Ok ((rest, omaps1), seen1)"
      using "3.prems"(1) by auto
    have nest: "(\<forall>x \<in> set nested. module_of x = None \<and> within n x) \<and> omap_ok (set nested) (node_name (id_of n)) om"
      using "3.IH"(1)[OF _ m] Some by simp
    then have "omaps_ok (N \<union> set nested) (bt_insert (node_name (id_of n)) om omaps)"
      using "3.prems"(2) by (auto intro!: omaps_ok_insert elim: omaps_ok_mono omap_ok_mono)
    from "3.IH"(2)[OF _ e this] Some nest show ?thesis
      by (auto simp: ns Un_assoc)
  qed
qed
lemma check_unique_ids_Ok:
  "check_unique_ids ns ids = Ok () \<longleftrightarrow>
     distinct (map (\<lambda>n. node_name (id_of n)) ns) \<and> (\<forall>n \<in> set ns. node_name (id_of n) \<notin> set ids)"
  by (induction ns ids rule: check_unique_ids.induct) (simp, simp, metis (no_types, lifting) image_iff)

lemma distinct_node_ids: "distinct (map (\<lambda>n. node_name (id_of n)) ns) \<longleftrightarrow> distinct (map id_of ns)"
  by (auto simp: distinct_map inj_on_def intro: node_id.expand)

text \<open>
  The loop over the descriptor: where each node of the result comes from, that a node that is no module
  stays, and what the output maps hold.
\<close>

lemma expand_nodes_keeps:
  assumes "expand_nodes fs base dir ns omaps bs seen = Ok (flat, omaps1, bs1)" and "omaps_ok N omaps"
  shows "(\<forall>m \<in> set flat. module_of m = None \<and> (\<exists>n \<in> set ns. m = n \<or> within n m)) \<and>
    (\<forall>n \<in> set ns. module_of n = None \<longrightarrow> n \<in> set flat) \<and> omaps_ok (N \<union> set flat) omaps1 \<and>
    fst ` set omaps1 =
      fst ` set omaps \<union> (\<lambda>n. node_name (id_of n)) ` {n \<in> set ns. module_of n \<noteq> None}"
  using assms
proof (induction ns arbitrary: omaps bs seen flat N)
  case Nil
  then show ?case by simp
next
  case (Cons n ns)
  show ?case
  proof (cases "module_of n")
    case None
    then obtain rest where f: "flat = n # rest"
        and r: "expand_nodes fs base dir ns omaps bs seen = Ok (rest, omaps1, bs1)"
      using Cons.prems(1) by auto
    note IH = Cons.IH[OF r Cons.prems(2)]
    have "omaps_ok (N \<union> set flat) omaps1"
      using IH by (auto simp: f elim!: omaps_ok_mono)
    moreover have "{x \<in> set (n # ns). module_of x \<noteq> None} = {x \<in> set ns. module_of x \<noteq> None}"
      using None by auto
    ultimately show ?thesis using IH None by (auto simp: f)
  next
    case (Some mpath)
    then obtain nested om seen2 rest where f: "flat = nested @ rest"
        and m: "expand_module_node fs base 0 n dir seen = Ok ((nested, om), seen2)"
        and r: "expand_nodes fs base dir ns (bt_insert (node_name (id_of n)) om omaps)
          (bt_insert (node_name (id_of n)) (map (\<lambda>m. node_name (id_of m)) nested) bs) seen2
          = Ok (rest, omaps1, bs1)"
      using Cons.prems(1) by auto
    note nest = expansion_keeps(1)[OF m]
    have ins: "omaps_ok (N \<union> set nested) (bt_insert (node_name (id_of n)) om omaps)"
      using Cons.prems(2) nest by (auto intro!: omaps_ok_insert elim: omaps_ok_mono omap_ok_mono)
    have "{x \<in> set (n # ns). module_of x \<noteq> None} = insert n {x \<in> set ns. module_of x \<noteq> None}"
      using Some by auto
    then show ?thesis
      using Cons.IH[OF r ins] nest Some by (auto simp: f Un_assoc bt_insert_keys)
  qed
qed

section \<open>Wiring after expansion\<close>

text \<open>
  What an input of the flat dataflow must be: an input fed by a module is fed by a node of that module
  that has the output, any other input is unchanged.
\<close>

definition has_module :: "node list \<Rightarrow> node_id \<Rightarrow> bool" where
  "has_module ns s \<longleftrightarrow> (\<exists>m \<in> set ns. module_of m \<noteq> None \<and> id_of m = s)"

definition rewired :: "node list \<Rightarrow> node list \<Rightarrow> input \<Rightarrow> input \<Rightarrow> bool" where
  "rewired ns flat i j \<longleftrightarrow>
     (case mapping i of
        User s d \<Rightarrow>
          (if has_module ns s
           then \<exists>p \<in> set flat. \<exists>x. node_name (id_of p) = node_name s @ ''.'' @ x \<and>
             d \<in> set (outputs (node_run p)) \<and> j = i\<lparr>mapping := User (id_of p) d\<rparr>
           else j = i)
      | _ \<Rightarrow> j = i)"

lemma rewired_module:
  assumes "mapping i = User s d" "has_module ns s"
  shows "rewired ns flat i j \<longleftrightarrow> (\<exists>p \<in> set flat. \<exists>x. node_name (id_of p) = node_name s @ ''.'' @ x \<and>
    d \<in> set (outputs (node_run p)) \<and> j = i\<lparr>mapping := User (id_of p) d\<rparr>)"
  using assms by (simp add: rewired_def)

lemma rewired_other:
  assumes "\<And>s d. mapping i = User s d \<Longrightarrow> \<not> has_module ns s"
  shows "rewired ns flat i j \<longleftrightarrow> j = i"
  using assms by (simp add: rewired_def split: input_mapping.splits)

lemma omaps_ok_lookup:
  assumes "omaps_ok N omaps" "map_of omaps k = Some om" "map_of om (data_name d) = Some p"
  obtains m x where "m \<in> N" "node_name (id_of m) = p" "p = k @ ''.'' @ x" "d \<in> set (outputs (node_run m))"
proof -
  have "(k, om) \<in> set omaps" "(data_name d, p) \<in> set om" using assms(2,3) by (auto dest: map_of_SomeD)
  then have "omap_ok N k om" using assms(1) by (force simp: omaps_ok_def)
  then have "(\<exists>m \<in> N. produces p (data_name d) m) \<and> (\<exists>x. p = k @ ''.'' @ x)"
    using \<open>(data_name d, p) \<in> set om\<close> by (force simp: omap_ok_def)
  then obtain m x where m: "m \<in> N" "produces p (data_name d) m" and x: "p = k @ ''.'' @ x" by blast
  from m(2) obtain e where "e \<in> set (outputs (node_run m))" "data_name e = data_name d"
    by (auto simp: produces_def)
  then have "d \<in> set (outputs (node_run m))" by (metis data_id.expand)
  then show thesis using that m x by (simp add: produces_def)
qed

lemma rewrite_external_input_rewired:
  assumes ok: "omaps_ok (set flat) omaps" and keys: "fst ` set omaps = (\<lambda>n. node_name (id_of n)) ` {n \<in> set ns. module_of n \<noteq> None}"
    and r: "rewrite_external_input omaps nid i = Ok j"
  shows "rewired ns flat i j"
proof (cases "mapping i")
  case (User s d)
  have dom: "map_of omaps (node_name s) = None \<longleftrightarrow> \<not> has_module ns s"
    unfolding map_of_eq_None_iff keys has_module_def by (auto dest: node_id.expand)
  show ?thesis
  proof (cases "map_of omaps (node_name s)")
    case None
    with r User dom show ?thesis
      by (subst rewired_other) (auto simp: rewrite_external_input_def)
  next
    case (Some om)
    with r User obtain p where p: "map_of om (data_name d) = Some p" and j: "j = i\<lparr>mapping := User (NodeId p) d\<rparr>"
      by (auto simp: rewrite_external_input_def split: option.splits)
    obtain m x where "m \<in> set flat" "node_name (id_of m) = p" "p = node_name s @ ''.'' @ x" "d \<in> set (outputs (node_run m))"
      using omaps_ok_lookup[OF ok Some p] .
    moreover from this have "NodeId p = id_of m" by (metis node_id.collapse)
    ultimately show ?thesis
      using Some dom User j by (subst rewired_module) (simp_all, metis)
  qed
qed (use r in \<open>simp_all add: rewired_def rewrite_external_input_def\<close>)

lemma rewired_cong:
  assumes "list_all2 (\<lambda>n m. id_of m = id_of n \<and> module_of m = module_of n \<and>
      outputs (node_run m) = outputs (node_run n)) flat flat'"
    and "rewired ns flat i j"
  shows "rewired ns flat' i j"
proof -
  have other: "\<exists>p' \<in> set flat'. id_of p' = id_of p \<and> outputs (node_run p') = outputs (node_run p)"
    if "p \<in> set flat" for p
    using list_all2_left[OF assms(1) that] by metis
  show ?thesis
  proof (cases "\<exists>s d. mapping i = User s d \<and> has_module ns s")
    case True
    then obtain s d where m: "mapping i = User s d" "has_module ns s" by blast
    with assms(2) obtain p x where p: "p \<in> set flat" "node_name (id_of p) = node_name s @ ''.'' @ x"
        "d \<in> set (outputs (node_run p))" "j = i\<lparr>mapping := User (id_of p) d\<rparr>"
      by (auto simp: rewired_module)
    from other[OF p(1)] obtain p' where "p' \<in> set flat'" "id_of p' = id_of p"
        "outputs (node_run p') = outputs (node_run p)" by blast
    with p m show ?thesis unfolding rewired_module[OF m] by metis
  next
    case False
    then have "rewired ns X i j \<longleftrightarrow> j = i" for X by (intro rewired_other) blast
    with assms(2) show ?thesis by simp
  qed
qed

lemma rewrite_inputs_map_rewired:
  assumes "omaps_ok (set flat) omaps"
    and "fst ` set omaps = (\<lambda>n. node_name (id_of n)) ` {n \<in> set ns. module_of n \<noteq> None}"
    and "rewrite_inputs_map omaps nid m = Ok m'"
  shows "list_all2 (\<lambda>(k, i) (k', j). k' = k \<and> rewired ns flat i j) m m'"
  using assms(3) unfolding rewrite_inputs_map_def try_map_Ok_list_all2
  by (rule list_all2_mono) (auto intro: rewrite_external_input_rewired[OF assms(1,2)])

lemma rewrite_node_inputs:
  "rewrite_node omaps n = Ok m \<Longrightarrow>
    rewrite_inputs_map omaps (id_of n) (inputs (node_run n)) = Ok (inputs (node_run m))"
  by (auto simp: rewrite_node_def rewrite_run_def)

lemma rewrite_external_refs_rewired:
  assumes "omaps_ok (set flat) omaps" "omaps \<noteq> []"
    and "fst ` set omaps = (\<lambda>n. node_name (id_of n)) ` {n \<in> set ns. module_of n \<noteq> None}"
    and "rewrite_external_refs omaps flat = Ok flat'" and "n \<in> set flat"
  obtains n' where "n' \<in> set flat'" "id_of n' = id_of n"
    "list_all2 (\<lambda>(k, i) (k', j). k' = k \<and> rewired ns flat' i j) (inputs (node_run n)) (inputs (node_run n'))"
proof -
  have "list_all2 (\<lambda>x y. rewrite_node omaps x = Ok y) flat flat'"
    using assms(2,4) by (simp add: rewrite_external_refs_def try_map_Ok_list_all2)
  then obtain n' where n': "n' \<in> set flat'" "rewrite_node omaps n = Ok n'"
    using assms(5) by (rule list_all2_left)
  have "list_all2 (\<lambda>(k, i) (k', j). k' = k \<and> rewired ns flat i j) (inputs (node_run n)) (inputs (node_run n'))"
    using rewrite_inputs_map_rewired[OF assms(1,3) rewrite_node_inputs[OF n'(2)]] .
  then have "list_all2 (\<lambda>(k, i) (k', j). k' = k \<and> rewired ns flat' i j) (inputs (node_run n)) (inputs (node_run n'))"
    by (rule list_all2_mono) (auto intro: rewired_cong[OF rewrite_external_refs_keeps[OF assms(4)]])
  then show thesis using that n' rewrite_node_keeps(1)[OF n'(2)] by blast
qed

text \<open>The steps of a run on a descriptor that has modules.\<close>

lemma expand_modules_steps:
  assumes "expand_modules fs d base_dir = Ok d'" "list_ex (\<lambda>n. module_of n \<noteq> None) (nodes d)"
  obtains base flat omaps bs where "canonicalize fs base_dir = Some base"
    "expand_nodes fs base base_dir (nodes d) [] [] [] = Ok (flat, omaps, bs)"
    "rewrite_external_refs omaps flat = Ok (nodes d')" "distinct (map id_of (nodes d'))"
    "d' = d\<lparr>nodes := nodes d'\<rparr>"
    "expand_modules_with_boundaries fs d base_dir = Ok \<lparr>flat_descriptor = d', module_boundaries = bs\<rparr>"
  using assms
  by (auto simp: expand_modules_def expand_modules_with_boundaries_def check_unique_ids_Ok distinct_node_ids)

lemma expand_modules_none:
  "\<not> list_ex (\<lambda>n. module_of n \<noteq> None) (nodes d) \<Longrightarrow> expand_modules fs d base_dir = Ok d"
  by (simp add: expand_modules_def expand_modules_with_boundaries_def)
section \<open>Panic freedom\<close>

definition ids_valid :: "node list \<Rightarrow> bool" where
  "ids_valid ns \<longleftrightarrow> (\<forall>n \<in> set ns. valid_node_id (node_name (id_of n)))"

text \<open>
  What reading a module file guarantees: the identifiers in it passed the validation of their type, and
  a file that can be read does not lie at the root of the file system itself.
\<close>

definition files_valid :: "file_system \<Rightarrow> bool" where
  "files_valid fs \<longleftrightarrow>
     (\<forall>p mf. parse_module fs p = Some mf \<longrightarrow> ids_valid (mod_nodes mf) \<and> p \<noteq> [] \<and> p \<noteq> [''/''])"

lemma ids_valid_simps [simp]:
  "ids_valid []" "ids_valid (n # ns) \<longleftrightarrow> valid_node_id (node_name (id_of n)) \<and> ids_valid ns"
  "ids_valid (ns @ ms) \<longleftrightarrow> ids_valid ns \<and> ids_valid ms"
  by (auto simp: ids_valid_def)

lemma valid_node_id_join:
  "valid_node_id a \<Longrightarrow> valid_node_id b \<Longrightarrow> valid_node_id (a @ ''.'' @ b)"
  by (simp add: valid_node_id_def node_id_char_def)

lemma try_map_not_Panic: "(\<And>x. x \<in> set xs \<Longrightarrow> f x \<noteq> Panic) \<Longrightarrow> try_map f xs \<noteq> Panic"
  by (induction xs) auto

lemma try_fold_not_Panic: "(\<And>x s. x \<in> set xs \<Longrightarrow> f x s \<noteq> Panic) \<Longrightarrow> try_fold f xs s \<noteq> Panic"
  by (induction xs arbitrary: s) auto

lemma rewrite_module_inputs_not_Panic:
  assumes "valid_node_id mid" "\<forall>s \<in> set inner. valid_node_id s"
  shows "rewrite_module_inputs mid mins inner opt m \<noteq> Panic"
proof -
  have "rewrite_module_input mid mins inner opt i \<noteq> Panic" for i
    using assms valid_node_id_join[of mid]
    by (auto simp: rewrite_module_input_def split: input_mapping.splits option.splits)
  then show ?thesis by (induction m) auto
qed

lemma prefix_node_not_Panic:
  assumes "valid_node_id (node_name (id_of outer))" "ids_valid (mod_nodes mf)" "inner \<in> set (mod_nodes mf)"
  shows "prefix_node mf outer dir base inner \<noteq> Panic"
proof -
  have "valid_node_id (node_name (id_of outer) @ ''.'' @ node_name (id_of inner))"
    using assms by (intro valid_node_id_join) (auto simp: ids_valid_def)
  moreover have "resolve_inner_path dir base pid p \<noteq> Panic" for pid p
    by (auto simp: resolve_inner_path_def split: option.splits)
  moreover have "rewrite_module_inputs (node_name (id_of outer)) mins (map (\<lambda>n. node_name (id_of n)) (mod_nodes mf)) opt m \<noteq> Panic"
    for mins opt m using assms by (intro rewrite_module_inputs_not_Panic) (auto simp: ids_valid_def)
  ultimately show ?thesis by (simp add: prefix_node_def Let_def)
qed

lemma prefix_nodes_valid:
  "try_map (prefix_node mf outer dir base) ns = Ok ms \<Longrightarrow> ids_valid ms"
  unfolding ids_valid_def
  by (fastforce simp: prefix_node_def Let_def elim!: try_map_mem split: option.splits if_splits)

lemma ids_valid_cong:
  "list_all2 (\<lambda>n m. id_of m = id_of n \<and> P n m) ns ms \<Longrightarrow> ids_valid ms \<longleftrightarrow> ids_valid ns"
  by (induction rule: list_all2_induct) auto

lemma rewrite_external_refs_not_Panic:
  assumes "omaps_ok (set ns) omaps" "ids_valid ns"
  shows "rewrite_external_refs omaps ms \<noteq> Panic"
proof -
  have "rewrite_external_input omaps nid i \<noteq> Panic" for nid i
    using assms omaps_ok_lookup[OF assms(1)]
    by (auto simp: rewrite_external_input_def ids_valid_def split: input_mapping.splits option.splits) metis
  then have m: "rewrite_inputs_map omaps nid m \<noteq> Panic" for nid m
    unfolding rewrite_inputs_map_def by (intro try_map_not_Panic) auto
  have o: "option_map_try f x \<noteq> Panic" if "\<And>y. f y \<noteq> Panic" for f :: "'a \<Rightarrow> ('e, 'a) outcome" and x
    using that by (simp add: option_map_try_def split: option.splits)
  have "rewrite_node omaps n \<noteq> Panic" for n
    unfolding rewrite_node_def rewrite_config_def rewrite_run_def
    by (auto simp: m intro!: o try_map_not_Panic)
  then show ?thesis by (simp add: rewrite_external_refs_def try_map_not_Panic)
qed

lemma load_module_file_Ok:
  "load_module_file fs p = Ok mf \<Longrightarrow> parse_module fs p = Some mf"
  by (auto simp: load_module_file_def split: option.splits if_splits)

lemma open_module_Ok:
  assumes "open_module fs n mpath bd base seen = Ok (canonical, mf, dir)"
  shows "parse_module fs canonical = Some mf"
  using assms by (auto simp: open_module_def dest: load_module_file_Ok split: if_splits option.splits)

lemma open_module_not_Panic:
  assumes "files_valid fs"
  shows "open_module fs n mpath bd base seen \<noteq> Panic"
proof -
  have "load_module_file fs p \<noteq> Panic" for p
    by (auto simp: load_module_file_def split: option.splits)
  moreover have "path_parent p \<noteq> Panic" if "load_module_file fs p = Ok mf" for p mf
    using assms load_module_file_Ok[OF that] by (auto simp: files_valid_def path_parent_def)
  ultimately show ?thesis by (auto simp: open_module_def split: option.splits)
qed

lemma build_output_map_not_Panic: "build_output_map mf ns \<noteq> Panic"
  unfolding build_output_map_def by (intro try_fold_not_Panic) (auto split: option.splits)

lemma expansion_valid:
  "expand_module_node fs base depth n bd seen = Ok ((ns, om), seen1) \<Longrightarrow> ids_valid ns"
  "expand_inner fs base depth dir is omaps seen = Ok ((ns, omaps1), seen1) \<Longrightarrow> ids_valid is \<Longrightarrow> ids_valid ns"
proof (induction fs base depth n bd seen and fs base depth dir "is" omaps seen
    arbitrary: ns om seen1 and ns omaps1 seen1 rule: expand_module_node_expand_inner.induct)
  case (1 fs base depth n bd seen)
  from "1.prems" obtain mpath canonical mf dir pre final oms seen2
    where d: "\<not> MAX_MODULE_DEPTH \<le> depth" "module_of n = Some mpath"
      and p: "try_map (prefix_node mf n dir base) (mod_nodes mf) = Ok pre"
      and e: "expand_inner fs base (depth + 1) dir pre [] (canonical # seen) = Ok ((final, oms), seen2)"
      and r: "rewrite_external_refs oms final = Ok ns"
    by (auto split: if_splits option.splits)
  have "ids_valid final" using "1.IH"[OF d e prefix_nodes_valid[OF p]] .
  then show ?case using ids_valid_cong[OF rewrite_external_refs_keeps[OF r]] by simp
next
  case (2 fs base depth dir omaps seen)
  then show ?case by simp
next
  case (3 fs base depth dir n is' omaps seen)
  show ?case
  proof (cases "module_of n")
    case None
    with "3.prems" "3.IH"(3) show ?thesis by auto
  next
    case (Some mpath)
    with "3.prems"(1) obtain nested om seen2 rest where "ns = nested @ rest"
        and m: "expand_module_node fs base depth n dir seen = Ok ((nested, om), seen2)"
        and "expand_inner fs base depth dir is' (bt_insert (node_name (id_of n)) om omaps) seen2
          = Ok ((rest, omaps1), seen1)"
      by auto
    with "3.prems"(2) "3.IH"(1)[OF _ m] "3.IH"(2) Some show ?thesis by auto
  qed
qed

lemma expansion_not_Panic:
  "files_valid fs \<Longrightarrow> valid_node_id (node_name (id_of n)) \<Longrightarrow> module_of n \<noteq> None \<Longrightarrow>
    expand_module_node fs base depth n bd seen \<noteq> Panic"
  "files_valid fs \<Longrightarrow> ids_valid is \<Longrightarrow> expand_inner fs base depth dir is omaps seen \<noteq> Panic"
proof (induction fs base depth n bd seen and fs base depth dir "is" omaps seen
    rule: expand_module_node_expand_inner.induct)
  case (1 fs base depth n bd seen)
  show ?case
  proof
    assume P: "expand_module_node fs base depth n bd seen = Panic"
    from "1.prems"(3) obtain mpath where mp: "module_of n = Some mpath" by blast
    from P mp have dep: "\<not> MAX_MODULE_DEPTH \<le> depth" by (auto split: if_splits)
    have "check_required_inputs mf n \<noteq> Panic" "check_params n \<noteq> Panic" for mf
      by (auto simp: check_required_inputs_def check_params_def intro!: try_each_not_Panic split: if_splits)
    with P mp dep open_module_not_Panic[OF "1.prems"(1)] build_output_map_not_Panic
    obtain canonical mf dir where o: "open_module fs n mpath bd base seen = Ok (canonical, mf, dir)"
      and rest: "try_map (prefix_node mf n dir base) (mod_nodes mf) = Panic \<or>
        (\<exists>pre. try_map (prefix_node mf n dir base) (mod_nodes mf) = Ok pre \<and>
          (expand_inner fs base (depth + 1) dir pre [] (canonical # seen) = Panic \<or>
           (\<exists>final oms seen2. expand_inner fs base (depth + 1) dir pre [] (canonical # seen) = Ok ((final, oms), seen2) \<and>
             rewrite_external_refs oms final = Panic)))"
      by auto
    have mf: "ids_valid (mod_nodes mf)"
      using open_module_Ok[OF o] "1.prems"(1) by (auto simp: files_valid_def)
    then have "try_map (prefix_node mf n dir base) (mod_nodes mf) \<noteq> Panic"
      using "1.prems"(2) by (intro try_map_not_Panic prefix_node_not_Panic)
    with rest obtain pre where p: "try_map (prefix_node mf n dir base) (mod_nodes mf) = Ok pre"
      and q: "expand_inner fs base (depth + 1) dir pre [] (canonical # seen) = Panic \<or>
           (\<exists>final oms seen2. expand_inner fs base (depth + 1) dir pre [] (canonical # seen) = Ok ((final, oms), seen2) \<and>
             rewrite_external_refs oms final = Panic)" by blast
    note pre = prefix_nodes_valid[OF p]
    from q "1.IH"[OF dep mp "1.prems"(1) pre] obtain final oms seen2
      where e: "expand_inner fs base (depth + 1) dir pre [] (canonical # seen) = Ok ((final, oms), seen2)"
        and r: "rewrite_external_refs oms final = Panic" by auto
    have "omaps_ok (set final) oms" using expansion_keeps(2)[OF e, of "{}"] by (simp add: omaps_ok_def)
    with rewrite_external_refs_not_Panic expansion_valid(2)[OF e pre] r show False by blast
  qed
next
  case (2 fs base depth dir omaps seen)
  then show ?case by simp
next
  case (3 fs base depth dir n is' omaps seen)
  then show ?case by auto
qed

lemma expand_nodes_not_Panic:
  "files_valid fs \<Longrightarrow> ids_valid ns \<Longrightarrow> expand_nodes fs base dir ns omaps bs seen \<noteq> Panic"
  by (induction ns arbitrary: omaps bs seen)
    (auto simp: expansion_not_Panic(1) simp del: expand_module_node.simps)

lemma expand_nodes_valid:
  "expand_nodes fs base dir ns omaps bs seen = Ok (flat, omaps1, bs1) \<Longrightarrow> ids_valid ns \<Longrightarrow> ids_valid flat"
  by (induction ns arbitrary: omaps bs seen flat)
    (auto dest: expansion_valid(1) simp del: expand_module_node.simps split: if_splits)

text \<open>The boundaries: for each module the names of its nodes, in the order of the flat dataflow.\<close>

lemma expand_nodes_other_boundary:
  "expand_nodes fs base dir ns omaps bs seen = Ok (flat, omaps1, bs1) \<Longrightarrow>
    k \<notin> (\<lambda>n. node_name (id_of n)) ` {n \<in> set ns. module_of n \<noteq> None} \<Longrightarrow> map_of bs1 k = map_of bs k"
  by (induction ns arbitrary: omaps bs seen flat) (fastforce split: if_splits)+

lemma expand_nodes_boundaries:
  assumes "expand_nodes fs base dir ns omaps bs seen = Ok (flat, omaps1, bs1)"
    and "distinct (map id_of (filter (\<lambda>n. module_of n \<noteq> None) ns))"
  shows "map (\<lambda>n. node_name (id_of n)) flat =
    concat (map (\<lambda>n. if module_of n = None then [node_name (id_of n)]
      else the (map_of bs1 (node_name (id_of n)))) ns)"
  using assms
proof (induction ns arbitrary: omaps bs seen flat)
  case Nil
  then show ?case by simp
next
  case (Cons n ns)
  show ?case
  proof (cases "module_of n")
    case None
    with Cons show ?thesis by auto
  next
    case (Some mpath)
    with Cons.prems(1) obtain nested om seen2 rest where f: "flat = nested @ rest"
        and r: "expand_nodes fs base dir ns (bt_insert (node_name (id_of n)) om omaps)
          (bt_insert (node_name (id_of n)) (map (\<lambda>m. node_name (id_of m)) nested) bs) seen2
          = Ok (rest, omaps1, bs1)"
      by auto
    have "node_name (id_of n) \<notin> (\<lambda>n. node_name (id_of n)) ` {n \<in> set ns. module_of n \<noteq> None}"
      using Cons.prems(2) Some by (auto dest: node_id.expand)
    from expand_nodes_other_boundary[OF r this] Cons.IH[OF r] Cons.prems(2) Some show ?thesis
      by (simp add: f)
  qed
qed
section \<open>Properties\<close>


text \<open>A project with one module: a planner and a controller between a camera and a motor.\<close>

definition example_run :: "(string \<times> input) list \<Rightarrow> string list \<Rightarrow> node_run_config" where
  "example_run ins outs = empty_run\<lparr>inputs := map (\<lambda>(k, i). (DataId k, i)) ins, outputs := map DataId outs\<rparr>"

definition example_module :: module_file where
  "example_module =
     \<lparr>mod_name = ''nav'', mod_inputs = [DataId ''goal''], mod_inputs_optional = [], mod_outputs = [DataId ''cmd''],
      mod_nodes =
        [example_node ''plan'' ''plan.py'' (example_run [(''g'', user_input ''_mod'' ''goal'')] [''path'']),
         example_node ''ctl'' ''./ctl.py'' (example_run [(''p'', user_input ''plan'' ''path'')] [''cmd''])],
      mod_build = None\<rparr>"

definition example_fs :: "module_file \<Rightarrow> file_system" where
  "example_fs mf =
     \<lparr>canonicalize = (\<lambda>p. if p \<in> {[''/'', ''w''], [''/'', ''w'', ''m'', ''nav.yml'']} then Some p else None),
      file_size = (\<lambda>p. Some 100),
      parse_module = (\<lambda>p. if p = [''/'', ''w'', ''m'', ''nav.yml''] then Some mf else None)\<rparr>"

definition example_project :: descriptor where
  "example_project = example_descriptor
     [example_node ''cam'' ''cam.py'' (example_run [] [''img'']),
      (example_node ''nav'' [] (example_run [(''goal'', user_input ''cam'' ''img'')] []))
        \<lparr>path_of := None, module_of := Some ''m/nav.yml''\<rparr>,
      example_node ''motor'' ''motor.py'' (example_run [(''c'', user_input ''nav'' ''cmd'')] [])]"

definition example_flat :: descriptor where
  "example_flat = example_descriptor
     [example_node ''cam'' ''cam.py'' (example_run [] [''img'']),
      example_node ''nav.plan'' ''m/plan.py'' (example_run [(''g'', user_input ''cam'' ''img'')] [''path'']),
      example_node ''nav.ctl'' ''m/./ctl.py'' (example_run [(''p'', user_input ''nav.plan'' ''path'')] [''cmd'']),
      example_node ''motor'' ''motor.py'' (example_run [(''c'', user_input ''nav.ctl'' ''cmd'')] [])]"

lemmas expand_eval =
  example_fs_def example_run_def example_descriptor_def example_node_def user_input_def empty_run_def
  expand_modules_def expand_modules_with_boundaries_def MAX_MODULE_DEPTH_def open_module_def
  path_join_def is_absolute_any_platform_def path_starts_with_def load_module_file_def MAX_MODULE_FILE_SIZE_def
  path_parent_def check_required_inputs_def check_params_def prefix_node_def rewrite_module_input_def
  MODULE_INPUT_SOURCE_def or_else_def resolve_inner_path_def source_is_url_def path_strip_prefix_def trim_parts_def
  skipped_part_def rewrite_external_refs_def build_output_map_def rewrite_node_def rewrite_run_def rewrite_config_def
  rewrite_inputs_map_def rewrite_external_input_def option_map_try_def node_id_from_def
  starts_with_def valid_node_id_def node_id_char_def char_class_defs

lemma example_expansion:
  "expand_modules (example_fs example_module) example_project [''/'', ''w''] = Ok example_flat"
  by (simp add: expand_eval example_module_def example_project_def example_flat_def)

lemma example_project_module: "list_ex (\<lambda>n. module_of n \<noteq> None) (nodes example_project)"
  by (simp add: example_project_def example_descriptor_def)




text \<open>
  The module boundaries used for drawing: when no two modules share an identifier, the flat node list is
  the list of the original nodes with each module replaced, in place, by the nodes recorded for it.
\<close>

theorem expand_modules_boundaries:
  assumes "expand_modules_with_boundaries fs d base_dir = Ok e"
    and "distinct (map id_of (filter (\<lambda>n. module_of n \<noteq> None) (nodes d)))"
  shows "map (\<lambda>n. node_name (id_of n)) (nodes (flat_descriptor e)) =
    concat (map (\<lambda>n. if module_of n = None then [node_name (id_of n)]
      else the (map_of (module_boundaries e) (node_name (id_of n)))) (nodes d))"
proof (cases "list_ex (\<lambda>n. module_of n \<noteq> None) (nodes d)")
  case False
  then have "e = \<lparr>flat_descriptor = d, module_boundaries = []\<rparr>"
    using assms(1) by (simp add: expand_modules_with_boundaries_def)
  moreover have "\<forall>n \<in> set (nodes d). module_of n = None" using False by (simp add: list_ex_iff)
  then have "concat (map (\<lambda>n. if module_of n = None then [node_name (id_of n)] else f n) (nodes d)) =
      map (\<lambda>n. node_name (id_of n)) (nodes d)" for f
    by (induction "nodes d") (auto simp: concat_map_singleton cong: map_cong)
  ultimately show ?thesis by (simp only: expanded_descriptor.simps)
next
  case True
  have ex: "expand_modules fs d base_dir = Ok (flat_descriptor e)" using assms(1) by (simp add: expand_modules_def)
  obtain base flat omaps bs where n: "expand_nodes fs base base_dir (nodes d) [] [] [] = Ok (flat, omaps, bs)"
      and r: "rewrite_external_refs omaps flat = Ok (nodes (flat_descriptor e))"
      and "expand_modules_with_boundaries fs d base_dir =
        Ok \<lparr>flat_descriptor = flat_descriptor e, module_boundaries = bs\<rparr>"
    by (rule expand_modules_steps[OF ex True])
  then have "module_boundaries e = bs" using assms(1) by (metis expanded_descriptor.select_convs(2) outcome.inject(1))
  moreover have "map (\<lambda>n. node_name (id_of n)) (nodes (flat_descriptor e)) = map (\<lambda>n. node_name (id_of n)) flat"
    using rewrite_external_refs_keeps[OF r] by (induction rule: list_all2_induct) auto
  ultimately show ?thesis using expand_nodes_boundaries[OF n assms(2)] by (simp only:)
qed

lemma example_boundaries:
  "expand_modules_with_boundaries (example_fs example_module) example_project [''/'', ''w''] =
     Ok \<lparr>flat_descriptor = example_flat, module_boundaries = [(''nav'', [''nav.plan'', ''nav.ctl''])]\<rparr>"
  by (simp add: expand_eval example_module_def example_project_def example_flat_def)

theorem expand_modules_boundaries_witness:
  "map (\<lambda>n. node_name (id_of n)) (nodes example_flat) = [''cam'', ''nav.plan'', ''nav.ctl'', ''motor'']"
  using expand_modules_boundaries[OF example_boundaries]
  by (simp add: example_project_def example_descriptor_def example_node_def)

text \<open>
  C38. Expansion never panics on a descriptor whose node identifiers are valid, when the module files
  hold valid identifiers, which their deserialisation checks: every failure is an error. The nesting of
  modules is bounded, so it always returns.
\<close>

theorem expand_modules_no_panic:
  assumes "files_valid fs" and "ids_valid (nodes d)"
  shows "expand_modules fs d base_dir \<noteq> Panic"
proof
  assume "expand_modules fs d base_dir = Panic"
  then obtain base where "expand_nodes fs base base_dir (nodes d) [] [] [] = Panic \<or>
      (\<exists>flat omaps bs. expand_nodes fs base base_dir (nodes d) [] [] [] = Ok (flat, omaps, bs) \<and>
        (rewrite_external_refs omaps flat = Panic \<or> (\<exists>ms. check_unique_ids ms [] = Panic)))"
    by (auto simp: expand_modules_def expand_modules_with_boundaries_def split: if_splits)
  moreover have "check_unique_ids ms ids \<noteq> Panic" for ms ids
    by (induction ms ids rule: check_unique_ids.induct) auto
  ultimately obtain flat omaps bs where e: "expand_nodes fs base base_dir (nodes d) [] [] [] = Ok (flat, omaps, bs)"
      and p: "rewrite_external_refs omaps flat = Panic"
    using expand_nodes_not_Panic[OF assms] by blast
  have "omaps_ok (set flat) omaps" using expand_nodes_keeps[OF e, of "{}"] by (simp add: omaps_ok_def)
  with rewrite_external_refs_not_Panic[OF _ expand_nodes_valid[OF e assms(2)]] p show False by blast
qed

lemma example_valid: "files_valid (example_fs example_module)" "ids_valid (nodes example_project)"
  by (simp_all add: files_valid_def example_module_def example_project_def expand_eval)

theorem expand_modules_no_panic_witness:
  "files_valid (example_fs example_module) \<and> ids_valid (nodes example_project) \<and>
    expand_modules (example_fs example_module) example_project [''/''] \<noteq> Panic"
  using expand_modules_no_panic[OF example_valid, of "[''/'']"] example_valid by blast

text \<open>
  Only the inputs declared on a node itself are rewired inside a module: the operators, the single operator
  and the custom section of an inner node are taken over as they are, although they carry inputs
  too. A module input that an operator refers to is never bound.
\<close>

theorem prefix_node_skips_operators:
  assumes "prefix_node mf outer dir base inner = Ok m"
  shows "operators m = operators inner \<and> operator m = operator inner \<and> custom m = custom inner"
  using assms
  by (cases "mod_build mf"; cases "params_of outer = []")
    (auto simp: prefix_node_def substitute_params_in_node_def Let_def)

text \<open>A module whose only node is an operator that reads the module input.\<close>

definition operator_module :: module_file where
  "operator_module =
     \<lparr>mod_name = ''nav'', mod_inputs = [DataId ''goal''], mod_inputs_optional = [], mod_outputs = [],
      mod_nodes = [example_operator_node ''plan'' ''op'' (example_run [(''g'', user_input ''_mod'' ''goal'')] [])],
      mod_build = None\<rparr>"

definition operator_project_module :: node where
  "operator_project_module =
     (example_node ''nav'' [] (example_run [(''goal'', user_input ''cam'' ''img'')] []))
       \<lparr>path_of := None, module_of := Some ''m/nav.yml''\<rparr>"

lemma operator_module_prefix:
  "is_ok (prefix_node operator_module operator_project_module [''/'', ''w'', ''m''] [''/'', ''w''] (hd (mod_nodes operator_module)))"
  by (simp add: is_ok_iff validate_node_id_iff operator_module_def operator_project_module_def example_operator_node_def expand_eval)

theorem prefix_node_skips_operators_witness:
  "\<exists>m. prefix_node operator_module operator_project_module [''/'', ''w'', ''m''] [''/'', ''w'']
      (hd (mod_nodes operator_module)) = Ok m \<and>
    map_option (\<lambda>op. inputs (op_run (sop_config op))) (operator m) = Some [(DataId ''g'', user_input ''_mod'' ''goal'')]"
proof -
  obtain m where m: "prefix_node operator_module operator_project_module [''/'', ''w'', ''m''] [''/'', ''w'']
      (hd (mod_nodes operator_module)) = Ok m"
    using operator_module_prefix by (auto simp: is_ok_iff)
  from prefix_node_skips_operators[OF m] have "operator m = operator (hd (mod_nodes operator_module))" by simp
  with m show ?thesis
    by (intro exI[of _ m]) (simp add: operator_module_def example_operator_node_def example_run_def)
qed

end
