(* ===== verification/Types.thy ===== *)
theory Types
  imports Messages
begin

text \<open>
  The type registry (\<^verbatim>\<open>libraries/core/src/types.rs\<close>): type URNs with parameters, matching of two
  URNs, the graph of implicit conversions with its depth-limited search, resolution of field types
  into Arrow types, schema compatibility and typo suggestions by edit distance. The packages the
  registry is built from and the files of a user directory are arguments; their contents are data.
\<close>

section \<open>Definitions of types\<close>

record field_def =
  field_name :: string
  field_type :: string
  field_nullable :: bool

record type_def =
  arrow :: string
  type_params :: "(string \<times> string option) list"
  type_fields :: "field_def list"
  type_metadata :: "string list"

type_synonym type_registry = "(string \<times> type_def) list"

definition arrow_type_from_name :: "string \<Rightarrow> data_type option" where
  "arrow_type_from_name name =
     (if name = ''Float32'' then Some DtFloat32
      else if name = ''Float64'' then Some DtFloat64
      else if name = ''Int32'' then Some DtInt32
      else if name = ''Int64'' then Some DtInt64
      else if name = ''UInt8'' then Some DtUInt8
      else if name = ''UInt32'' then Some DtUInt32
      else if name = ''UInt64'' then Some DtUInt64
      else if name = ''Utf8'' then Some DtUtf8
      else if name = ''LargeBinary'' then Some DtLargeBinary
      else if name = ''Boolean'' then Some DtBoolean
      else None)"

definition arrow_data_type :: "type_def \<Rightarrow> data_type option" where
  "arrow_data_type d = arrow_type_from_name (arrow d)"

section \<open>URNs\<close>

record parsed_urn =
  urn_base :: string
  urn_params :: "(string \<times> string) list"

fun parse_urn_params :: "string list \<Rightarrow> (string \<times> string) list \<Rightarrow> (string \<times> string) list option" where
  "parse_urn_params [] ps = Some ps"
| "parse_urn_params (part # parts) ps =
     (case split_once (CHR ''='') (trim part) of
        None \<Rightarrow> None
      | Some (k, v) \<Rightarrow>
          (if trim k = [] \<or> trim v = [] then None
           else parse_urn_params parts (bt_insert (trim k) (trim v) ps)))"

definition parse_urn :: "string \<Rightarrow> parsed_urn option" where
  "parse_urn urn =
     (if urn = [] then None
      else (case split_once (CHR ''['') urn of
          None \<Rightarrow> Some \<lparr>urn_base = urn, urn_params = []\<rparr>
        | Some (base, rest) \<Rightarrow>
            (if \<not> ends_with '']'' urn then None
             else if butlast rest = [] then None
             else map_option (\<lambda>ps. \<lparr>urn_base = base, urn_params = ps\<rparr>)
               (parse_urn_params (split_on (CHR '','') (butlast rest)) []))))"

text \<open>All keys the two sides share agree.\<close>

definition shared_params_agree :: "(string \<times> string) list \<Rightarrow> (string \<times> string) list \<Rightarrow> bool" where
  "shared_params_agree pa pb =
     list_all (\<lambda>(k, va). case map_of pb k of None \<Rightarrow> True | Some vb \<Rightarrow> va = vb) pa"

definition types_match :: "string \<Rightarrow> string \<Rightarrow> bool" where
  "types_match a b =
     (case parse_urn a of
        None \<Rightarrow> a = b
      | Some pa \<Rightarrow>
          (case parse_urn b of
             None \<Rightarrow> a = b
           | Some pb \<Rightarrow>
               (if urn_base pa \<noteq> urn_base pb then False
                else if urn_params pa = [] \<or> urn_params pb = [] then True
                else shared_params_agree (urn_params pa) (urn_params pb))))"

definition urn_short_name :: "string \<Rightarrow> string" where
  "urn_short_name urn = last (split_on (CHR ''/'') (hd (split_on (CHR ''['') urn)))"

section \<open>The registry\<close>

text \<open>The packages: a prefix and the types of the package in key order.\<close>

definition registry_new :: "(string \<times> (string \<times> type_def) list) list \<Rightarrow> type_registry" where
  "registry_new packages =
     fold (\<lambda>(prefix, types). fold (\<lambda>(name, d). bt_insert (prefix @ ''/'' @ name) d) types) packages []"

definition registry_resolve :: "type_registry \<Rightarrow> string \<Rightarrow> type_def option" where
  "registry_resolve reg urn =
     (case map_of reg urn of
        Some d \<Rightarrow> Some d
      | None \<Rightarrow>
          (case parse_urn urn of
             Some p \<Rightarrow> if urn_base p \<noteq> urn then map_of reg (urn_base p) else None
           | None \<Rightarrow> None))"

definition resolve_arrow_type :: "type_registry \<Rightarrow> string \<Rightarrow> data_type option" where
  "resolve_arrow_type reg urn = Option.bind (registry_resolve reg urn) arrow_data_type"

text \<open>The loop of the short-name lookup: a second match makes the name ambiguous.\<close>

fun short_name_loop :: "string \<Rightarrow> type_registry \<Rightarrow> type_def option \<Rightarrow> type_def option" where
  "short_name_loop suffix [] found = found"
| "short_name_loop suffix ((urn, d) # reg) found =
     (if ends_with suffix urn then
        (if found \<noteq> None then None else short_name_loop suffix reg (Some d))
      else short_name_loop suffix reg found)"

definition resolve_short_name :: "type_registry \<Rightarrow> string \<Rightarrow> type_def option" where
  "resolve_short_name reg name = short_name_loop (''/'' @ name) reg None"

definition MAX_TYPE_DEPTH :: nat where
  "MAX_TYPE_DEPTH = 8"

text \<open>The inner type of a list type: what stands between the outermost brackets, trimmed.\<close>

definition list_inner :: "string \<Rightarrow> string option" where
  "list_inner s = map_option trim (Option.bind (strip_prefix ''List<'' s) (strip_suffix ''>''))"

function resolve_field_type :: "type_registry \<Rightarrow> string \<Rightarrow> nat \<Rightarrow> data_type option" where
  "resolve_field_type reg s depth =
     (if depth > MAX_TYPE_DEPTH then None
      else case arrow_type_from_name s of
          Some dt \<Rightarrow> Some dt
        | None \<Rightarrow>
            (case list_inner s of
               Some inner \<Rightarrow> map_option DtLargeList (resolve_field_type reg inner (depth + 1))
             | None \<Rightarrow>
                 (case (case registry_resolve reg s of
                          Some d \<Rightarrow> Some d | None \<Rightarrow> resolve_short_name reg s) of
                    None \<Rightarrow> None
                  | Some d \<Rightarrow>
                      (if type_fields d = [] then None
                       else map_option DtStruct
                         (those (map (\<lambda>f. map_option (\<lambda>dt. (field_name f, dt, field_nullable f))
                            (resolve_field_type reg (field_type f) (depth + 1))) (type_fields d)))))))"
  by pat_completeness auto
termination
  by (relation "measure (\<lambda>(reg, s, depth). 9 - depth)") (auto simp: MAX_TYPE_DEPTH_def)

declare resolve_field_type.simps [simp del]

type_synonym schema = "(string \<times> data_type \<times> bool) list"

definition build_schema :: "(string \<Rightarrow> data_type option) \<Rightarrow> type_def \<Rightarrow> schema option" where
  "build_schema resolve d =
     (if type_fields d = [] then None
      else those (map (\<lambda>f. map_option (\<lambda>dt. (field_name f, dt, field_nullable f))
        (resolve (field_type f))) (type_fields d)))"

definition to_arrow_schema :: "type_def \<Rightarrow> schema option" where
  "to_arrow_schema d = build_schema arrow_type_from_name d"

definition to_arrow_schema_with_registry :: "type_registry \<Rightarrow> type_def \<Rightarrow> schema option" where
  "to_arrow_schema_with_registry reg d = build_schema (\<lambda>t. resolve_field_type reg t 0) d"

section \<open>Schema compatibility\<close>

datatype schema_error =
    MissingField string
  | TypeMismatch string data_type data_type

definition field_with_name :: "schema \<Rightarrow> string \<Rightarrow> (data_type \<times> bool) option" where
  "field_with_name s n = map_of s n"

definition schema_compatible :: "schema \<Rightarrow> schema \<Rightarrow> (schema_error, unit) outcome" where
  "schema_compatible expected actual =
     try_each (\<lambda>(n, dt, _).
       case field_with_name actual n of
         Some (adt, _) \<Rightarrow> if adt \<noteq> dt then Err (TypeMismatch n dt adt) else Ok ()
       | None \<Rightarrow> Err (MissingField n)) expected"

definition pattern_metadata_keys :: "string \<Rightarrow> string list option" where
  "pattern_metadata_keys p =
     (if p = ''service-server'' \<or> p = ''service-client'' then Some [''request_id'']
      else if p = ''action-server'' then Some [''goal_id'', ''goal_status'']
      else if p = ''action-client'' then Some [''goal_id'']
      else None)"

section \<open>The compatibility graph\<close>

type_synonym compat_graph = "(string \<times> string list) list"

definition builtin_rules :: "(string \<times> string) list" where
  "builtin_rules =
     [(''std/core/v1/UInt8'', ''std/core/v1/UInt32''),
      (''std/core/v1/UInt32'', ''std/core/v1/UInt64''),
      (''std/core/v1/Int32'', ''std/core/v1/Int64''),
      (''std/core/v1/Float32'', ''std/core/v1/Float64'')]"

definition add_rule :: "string \<times> string \<Rightarrow> compat_graph \<Rightarrow> compat_graph" where
  "add_rule r g = bt_entry (fst r) [] (\<lambda>ts. ts @ [snd r]) g"

definition compat_graph_new :: "(string \<times> string) list \<Rightarrow> compat_graph" where
  "compat_graph_new user_rules = fold add_rule user_rules (fold add_rule builtin_rules [])"

definition neighbors :: "compat_graph \<Rightarrow> string \<Rightarrow> string list" where
  "neighbors g u = (case map_of g u of None \<Rightarrow> [] | Some ts \<Rightarrow> ts)"

text \<open>The loop over the neighbours of one node: found, or the new queue and visited set.\<close>

fun visit_neighbors ::
    "string \<Rightarrow> nat \<Rightarrow> string list \<Rightarrow> (string \<times> nat) list \<Rightarrow> string list
     \<Rightarrow> bool \<times> (string \<times> nat) list \<times> string list" where
  "visit_neighbors goal depth [] queue visited = (False, queue, visited)"
| "visit_neighbors goal depth (n # ns) queue visited =
     (if n = goal then (True, queue, visited)
      else if n \<in> set visited then visit_neighbors goal depth ns queue visited
      else visit_neighbors goal depth ns (queue @ [(n, depth + 1)]) (bs_insert n visited))"

definition all_targets :: "compat_graph \<Rightarrow> string set" where
  "all_targets g = \<Union> (set ` snd ` set g)"

lemma finite_all_targets [simp]: "finite (all_targets g)"
  by (auto simp: all_targets_def)

lemma neighbors_targets: "set (neighbors g u) \<subseteq> all_targets g"
  by (cases "map_of g u") (force simp: neighbors_def all_targets_def dest: map_of_SomeD)+

lemma visit_neighbors_measure:
  assumes "set ns \<subseteq> T" "finite T" "visit_neighbors goal depth ns queue visited = (b, queue', visited')"
  shows "2 * card (T - set visited') + length queue' \<le> 2 * card (T - set visited) + length queue"
  using assms
proof (induction ns arbitrary: queue visited)
  case Nil
  then show ?case by simp
next
  case (Cons n ns)
  show ?case
  proof (cases "n = goal \<or> n \<in> set visited")
    case True
    with Cons show ?thesis by (auto split: if_splits)
  next
    case False
    with Cons.prems have "n \<in> T - set visited" by auto
    then have "Suc (card (T - set (bs_insert n visited))) = card (T - set visited)"
      using Cons.prems(2) by (metis Diff_insert card_Suc_Diff1 finite_Diff set_bs_insert)
    with False Cons.IH[of "queue @ [(n, depth + 1)]" "bs_insert n visited"] Cons.prems show ?thesis by simp
  qed
qed

function bfs :: "compat_graph \<Rightarrow> string \<Rightarrow> (string \<times> nat) list \<Rightarrow> string list \<Rightarrow> bool" where
  "bfs g goal [] visited = False"
| "bfs g goal ((current, depth) # queue) visited =
     (if depth \<ge> 3 then bfs g goal queue visited
      else (case visit_neighbors goal depth (neighbors g current) queue visited of
          (found, queue', visited') \<Rightarrow> if found then True else bfs g goal queue' visited'))"
  by pat_completeness auto
termination
proof (relation "measure (\<lambda>(g, goal, queue, visited). 2 * card (all_targets g - set visited) + length queue)",
    goal_cases)
  case 3
  then show ?case
    by (auto simp: less_Suc_eq_le
        dest: visit_neighbors_measure[OF neighbors_targets finite_all_targets, OF sym])
qed auto

definition is_compatible :: "compat_graph \<Rightarrow> string \<Rightarrow> string \<Rightarrow> bool" where
  "is_compatible g from to =
     (if to = ''std/core/v1/Bytes'' then True
      else
        let fp = parse_urn from; tp = parse_urn to;
            from_base = (case fp of None \<Rightarrow> from | Some p \<Rightarrow> urn_base p);
            to_base = (case tp of None \<Rightarrow> to | Some p \<Rightarrow> urn_base p)
        in if from_base = to_base then
             (case (fp, tp) of
                (Some f, Some t) \<Rightarrow>
                  (if urn_params f \<noteq> [] \<and> urn_params t \<noteq> []
                   then shared_params_agree (urn_params f) (urn_params t) else True)
              | _ \<Rightarrow> True)
           else bfs g to_base [(from_base, 0)] (bs_insert from_base []))"

section \<open>User types from a directory\<close>

text \<open>
  A file of the directory walk: the path of its parent relative to the directory (with forward
  slashes), its stem, whether its extension is \<^verbatim>\<open>yml\<close>, and its parsed contents or the reading error.
\<close>

record type_file =
  file_parent :: string
  file_stem :: "string option"
  file_is_yml :: bool
  file_types :: "string + (string \<times> type_def) list"

datatype load_error = StdPrefix string | InvalidFileName string | FileError string

fun load_files :: "type_file list \<Rightarrow> nat \<Rightarrow> type_registry \<Rightarrow> (load_error, nat \<times> type_registry) outcome" where
  "load_files [] cnt reg = Ok (cnt, reg)"
| "load_files (f # fs) cnt reg =
     (if \<not> file_is_yml f then load_files fs cnt reg
      else if starts_with ''std/'' (file_parent f) \<or> file_parent f = ''std'' then Err (StdPrefix (file_parent f))
      else (case file_stem f of
          None \<Rightarrow> Err (InvalidFileName (file_parent f))
        | Some stem \<Rightarrow>
            (let prefix = (if file_parent f = [] then stem else file_parent f @ ''/'' @ stem)
             in (case file_types f of
                   Inl e \<Rightarrow> Err (FileError e)
                 | Inr types \<Rightarrow>
                     load_files fs (cnt + length types)
                       (fold (\<lambda>(name, d). bt_insert (prefix @ ''/'' @ name) d) types reg)))))"

definition load_from_dir :: "type_file list option \<Rightarrow> type_registry \<Rightarrow> (load_error, nat \<times> type_registry) outcome" where
  "load_from_dir dir reg = (case dir of None \<Rightarrow> Ok (0, reg) | Some files \<Rightarrow> load_files files 0 reg)"

section \<open>Edit distance and suggestions\<close>

definition dp_set :: "nat list list \<Rightarrow> nat \<Rightarrow> nat \<Rightarrow> nat \<Rightarrow> nat list list" where
  "dp_set dp i j v = dp[i := (dp ! i)[j := v]]"

definition dp_cell :: "string \<Rightarrow> string \<Rightarrow> nat list list \<Rightarrow> nat \<Rightarrow> nat \<Rightarrow> nat" where
  "dp_cell a b dp i j =
     min (min (dp ! (i - 1) ! j + 1) (dp ! i ! (j - 1) + 1))
       (dp ! (i - 1) ! (j - 1) + (if a ! (i - 1) = b ! (j - 1) then 0 else 1))"

text \<open>The four loops: the first column, the first row, one row, and all rows.\<close>

definition dp_column :: "nat \<Rightarrow> nat list list \<Rightarrow> nat list list" where
  "dp_column n dp = fold (\<lambda>i dp. dp_set dp i 0 i) [0..<n] dp"

definition dp_top :: "nat \<Rightarrow> nat list list \<Rightarrow> nat list list" where
  "dp_top n dp = fold (\<lambda>j dp. dp_set dp 0 j j) [0..<n] dp"

definition dp_row :: "string \<Rightarrow> string \<Rightarrow> nat \<Rightarrow> nat \<Rightarrow> nat list list \<Rightarrow> nat list list" where
  "dp_row a b i n dp = fold (\<lambda>j dp. dp_set dp i j (dp_cell a b dp i j)) [1..<n + 1] dp"

definition dp_fill :: "string \<Rightarrow> string \<Rightarrow> nat \<Rightarrow> nat list list \<Rightarrow> nat list list" where
  "dp_fill a b m dp = fold (\<lambda>i dp. dp_row a b i (length b) dp) [1..<m + 1] dp"

definition edit_distance :: "string \<Rightarrow> string \<Rightarrow> nat" where
  "edit_distance a b =
     (if length a > 256 \<or> length b > 256 then usize_max
      else
        let dp0 = replicate (length a + 1) (replicate (length b + 1) 0);
            dp1 = dp_column (length a + 1) dp0;
            dp2 = dp_top (length b + 1) dp1;
            dp3 = dp_fill a b (length a) dp2
        in dp3 ! length a ! length b)"

text \<open>\<^verbatim>\<open>Iterator::min_by_key\<close>: the first of the minimal elements.\<close>

fun min_by_score :: "('a \<times> nat) list \<Rightarrow> 'a option" where
  "min_by_score [] = None"
| "min_by_score (x # xs) =
     Some (fst (fold (\<lambda>y best. if snd y < snd best then y else best) xs x))"

definition urn_prefix :: "string \<Rightarrow> string option" where
  "urn_prefix urn = map_option fst (rsplit_once (CHR ''/'') urn)"

definition suggest :: "type_registry \<Rightarrow> string \<Rightarrow> string option" where
  "suggest reg urn =
     (let target_name = to_lowercase (urn_short_name urn);
          target_prefix = urn_prefix (hd (split_on (CHR ''['') urn))
      in min_by_score (List.map_filter (\<lambda>k.
           let dist = edit_distance target_name (to_lowercase (urn_short_name k))
           in if dist \<le> 2
              then Some (k, dist + (if target_prefix = urn_prefix k then 0 else 100))
              else None) (map fst reg)))"

section \<open>The edit distance is the least number of edits\<close>

text \<open>An alignment of two strings: kept, replaced, deleted and inserted characters at their ends.\<close>

inductive edits :: "nat \<Rightarrow> 'a list \<Rightarrow> 'a list \<Rightarrow> bool" where
  edits_Nil: "edits 0 [] []"
| edits_keep: "edits n xs ys \<Longrightarrow> edits n (xs @ [x]) (ys @ [x])"
| edits_replace: "edits n xs ys \<Longrightarrow> edits (Suc n) (xs @ [x]) (ys @ [y])"
| edits_delete: "edits n xs ys \<Longrightarrow> edits (Suc n) (xs @ [x]) ys"
| edits_insert: "edits n xs ys \<Longrightarrow> edits (Suc n) xs (ys @ [y])"

fun lev :: "'a list \<Rightarrow> 'a list \<Rightarrow> nat \<Rightarrow> nat \<Rightarrow> nat" where
  "lev a b 0 j = j"
| "lev a b (Suc i) 0 = Suc i"
| "lev a b (Suc i) (Suc j) =
     min (min (lev a b i (Suc j) + 1) (lev a b (Suc i) j + 1))
       (lev a b i j + (if a ! i = b ! j then 0 else 1))"

lemma lev_edits: "i \<le> length a \<Longrightarrow> j \<le> length b \<Longrightarrow> edits (lev a b i j) (take i a) (take j b)"
proof (induction a b i j rule: lev.induct)
  case (1 a b j)
  then show ?case
    by (induction j) (auto simp: take_Suc_conv_app_nth intro: edits.intros)
next
  case (2 a b i)
  have "edits n (take n a) []" if "n \<le> length a" for n
    using that by (induction n) (auto simp: take_Suc_conv_app_nth intro: edits.intros)
  from this[OF 2(1)] show ?case by simp
next
  case (3 a b i j)
  have t: "take (Suc i) a = take i a @ [a ! i]" "take (Suc j) b = take j b @ [b ! j]"
    using 3(4,5) by (auto simp: take_Suc_conv_app_nth)
  have "edits (Suc (lev a b i (Suc j))) (take (Suc i) a) (take (Suc j) b)"
    using 3(1,4,5) by (auto simp: t(1) intro: edits_delete)
  moreover have "edits (Suc (lev a b (Suc i) j)) (take (Suc i) a) (take (Suc j) b)"
    using 3(2,4,5) by (auto simp: t(2) intro: edits_insert)
  moreover have "edits (lev a b i j + (if a ! i = b ! j then 0 else 1)) (take (Suc i) a) (take (Suc j) b)"
    using 3(3,4,5) unfolding t by (auto intro: edits_keep edits_replace)
  ultimately show ?case by (simp add: min_def)
qed

lemma lev_zero: "lev a b i 0 = i"
  by (cases i) auto

lemma lev_adjacent: "lev a b i (Suc j) \<le> Suc (lev a b i j)" "lev a b (Suc i) j \<le> Suc (lev a b i j)"
  by (cases i; simp) (cases j; simp add: lev_zero)

lemma lev_least: "edits n xs ys \<Longrightarrow> xs = take i a \<Longrightarrow> ys = take j b \<Longrightarrow> i \<le> length a \<Longrightarrow> j \<le> length b \<Longrightarrow> lev a b i j \<le> n"
proof (induction arbitrary: i j rule: edits.induct)
  case edits_Nil
  then have "i = 0" "j = 0" by (metis gr_zeroI length_greater_0_conv length_take min.absorb2)+
  then show ?case by simp
next
  case (edits_keep n xs ys x)
  obtain i' j' where ij: "i = Suc i'" "j = Suc j'"
    using edits_keep.prems by (metis append_is_Nil_conv not_Cons_self2 old.nat.exhaust take_0)
  then have "xs = take i' a" "ys = take j' b" "a ! i' = x" "b ! j' = x"
    using edits_keep.prems by (auto simp: take_Suc_conv_app_nth)
  with edits_keep.IH[of i' j'] ij edits_keep.prems show ?case by simp
next
  case (edits_replace n xs ys x y)
  obtain i' j' where ij: "i = Suc i'" "j = Suc j'"
    using edits_replace.prems by (metis append_is_Nil_conv not_Cons_self2 old.nat.exhaust take_0)
  then have "xs = take i' a" "ys = take j' b"
    using edits_replace.prems by (auto simp: take_Suc_conv_app_nth)
  with edits_replace.IH[of i' j'] ij edits_replace.prems show ?case by (simp add: min_le_iff_disj)
next
  case (edits_delete n xs ys x)
  obtain i' where i: "i = Suc i'"
    using edits_delete.prems by (metis append_is_Nil_conv not_Cons_self2 old.nat.exhaust take_0)
  then have "xs = take i' a" using edits_delete.prems by (auto simp: take_Suc_conv_app_nth)
  with edits_delete.IH[of i' j] i edits_delete.prems lev_adjacent(2)[of a b i' j] show ?case by simp
next
  case (edits_insert n xs ys y)
  obtain j' where j: "j = Suc j'"
    using edits_insert.prems by (metis append_is_Nil_conv not_Cons_self2 old.nat.exhaust take_0)
  then have "ys = take j' b" using edits_insert.prems by (auto simp: take_Suc_conv_app_nth)
  with edits_insert.IH[of i j'] j edits_insert.prems lev_adjacent(1)[of a b i j'] show ?case by simp
qed

text \<open>The loops step by step.\<close>

lemma dp_loops [simp]:
  "dp_column 0 dp = dp" "dp_column (Suc n) dp = dp_set (dp_column n dp) n 0 n"
  "dp_top 0 dp = dp" "dp_top (Suc n) dp = dp_set (dp_top n dp) 0 n n"
  "dp_row a b i 0 dp = dp"
  "dp_row a b i (Suc n) dp = dp_set (dp_row a b i n dp) i (Suc n) (dp_cell a b (dp_row a b i n dp) i (Suc n))"
  "dp_fill a b 0 dp = dp"
  "dp_fill a b (Suc m) dp = dp_row a b (Suc m) (length b) (dp_fill a b m dp)"
  by (simp_all add: dp_column_def dp_top_def dp_row_def dp_fill_def)

text \<open>The table: its shape, and the part of it that is filled in.\<close>

definition dp_shape :: "nat \<Rightarrow> nat \<Rightarrow> nat list list \<Rightarrow> bool" where
  "dp_shape m n dp \<longleftrightarrow> length dp = Suc m \<and> (\<forall>i \<le> m. length (dp ! i) = Suc n)"

lemma dp_shape_set [simp]: "dp_shape m n dp \<Longrightarrow> dp_shape m n (dp_set dp i j v)"
  by (cases "i < length dp") (auto simp: dp_shape_def dp_set_def nth_list_update)

lemma dp_get_set:
  "dp_shape m n dp \<Longrightarrow> i \<le> m \<Longrightarrow> j \<le> n \<Longrightarrow>
   dp_set dp i j v ! i' ! j' = (if i' = i \<and> j' = j then v else dp ! i' ! j')"
  by (auto simp: dp_shape_def dp_set_def nth_list_update)

definition dp_rows :: "string \<Rightarrow> string \<Rightarrow> nat \<Rightarrow> nat list list \<Rightarrow> bool" where
  "dp_rows a b r dp \<longleftrightarrow>
     dp_shape (length a) (length b) dp \<and>
     (\<forall>i < r. \<forall>j \<le> length b. dp ! i ! j = lev a b i j) \<and>
     (\<forall>i \<le> length a. dp ! i ! 0 = i)"

lemma dp_row_step:
  assumes "dp_rows a b i dp" "0 < i" "i \<le> length a" "n \<le> length b"
  shows "dp_rows a b i (dp_row a b i n dp) \<and> (\<forall>j \<le> n. dp_row a b i n dp ! i ! j = lev a b i j)"
  using assms(4)
proof (induction n)
  case 0
  then show ?case using assms by (auto simp: dp_rows_def lev_zero)
next
  case (Suc n)
  define dp' where "dp' = dp_row a b i n dp"
  from Suc have IH: "dp_rows a b i dp'" "\<forall>j \<le> n. dp' ! i ! j = lev a b i j"
    by (auto simp: dp'_def)
  obtain k where k: "i = Suc k" using assms(2) by (cases i) auto
  have "dp_cell a b dp' i (Suc n) = lev a b i (Suc n)"
    using IH Suc.prems by (simp add: dp_cell_def k dp_rows_def)
  then have step: "dp_row a b i (Suc n) dp = dp_set dp' i (Suc n) (lev a b i (Suc n))"
    by (simp add: dp'_def)
  have "dp_rows a b i (dp_set dp' i (Suc n) (lev a b i (Suc n)))"
    using IH(1) assms(3) Suc.prems
    by (auto simp: dp_rows_def dp_get_set[where m = "length a" and n = "length b"])
  moreover have "\<forall>j \<le> Suc n. dp_set dp' i (Suc n) (lev a b i (Suc n)) ! i ! j = lev a b i j"
    using IH assms(3) Suc.prems
    by (auto simp: dp_rows_def dp_get_set[where m = "length a" and n = "length b"] le_Suc_eq)
  ultimately show ?case unfolding step by blast
qed

lemma dp_rows_fill:
  assumes "dp_rows a b 1 dp" "r \<le> length a"
  shows "dp_rows a b (Suc r) (dp_fill a b r dp)"
  using assms(2)
proof (induction r)
  case 0
  with assms show ?case by simp
next
  case (Suc r)
  then have "dp_rows a b (Suc r) (dp_fill a b r dp)" by simp
  from dp_row_step[OF this zero_less_Suc Suc.prems order_refl] show ?case
    by (auto simp: dp_rows_def less_Suc_eq)
qed

lemma dp_first_column:
  "n \<le> Suc (length a) \<Longrightarrow> dp_shape (length a) (length b) dp \<Longrightarrow>
   dp_shape (length a) (length b) (dp_column n dp) \<and> (\<forall>i < n. dp_column n dp ! i ! 0 = i)"
  by (induction n) (auto simp: dp_get_set[where m = "length a" and n = "length b"] less_Suc_eq)

lemma dp_first_row:
  assumes "dp_shape (length a) (length b) dp" "\<forall>i \<le> length a. dp ! i ! 0 = i" "n \<le> Suc (length b)"
  shows "dp_shape (length a) (length b) (dp_top n dp) \<and> (\<forall>j < n. dp_top n dp ! 0 ! j = j) \<and>
    (\<forall>i \<le> length a. dp_top n dp ! i ! 0 = i)"
  using assms by (induction n) (auto simp: dp_get_set[where m = "length a" and n = "length b"] less_Suc_eq)

lemma edit_distance_lev:
  assumes "length a \<le> 256" "length b \<le> 256"
  shows "edit_distance a b = lev a b (length a) (length b)"
proof -
  define dp0 where "dp0 = replicate (length a + 1) (replicate (length b + 1) (0::nat))"
  have "dp_shape (length a) (length b) dp0" by (simp add: dp_shape_def dp0_def del: replicate_Suc)
  from dp_first_column[OF _ this, of "length a + 1"]
  have 1: "dp_shape (length a) (length b) (dp_column (length a + 1) dp0)"
    "\<forall>i \<le> length a. dp_column (length a + 1) dp0 ! i ! 0 = i"
    by (auto simp: less_Suc_eq_le)
  from dp_first_row[OF 1, of "length b + 1"]
  have "dp_rows a b 1 (dp_top (length b + 1) (dp_column (length a + 1) dp0))"
    by (auto simp: dp_rows_def less_Suc_eq_le)
  from dp_rows_fill[OF this, of "length a"]
  have "dp_fill a b (length a) (dp_top (length b + 1) (dp_column (length a + 1) dp0)) ! length a ! length b =
      lev a b (length a) (length b)"
    by (simp add: dp_rows_def del: dp_loops)
  then show ?thesis using assms by (simp add: edit_distance_def dp0_def Let_def del: dp_loops replicate_Suc)
qed

section \<open>The search finds exactly the paths of at most three edges\<close>

definition compat_edges :: "compat_graph \<Rightarrow> (string \<times> string) set" where
  "compat_edges g = {(u, v). v \<in> set (neighbors g u)}"

lemma visit_found: "goal \<in> set ns \<Longrightarrow> fst (visit_neighbors goal depth ns queue visited)"
  by (induction ns arbitrary: queue visited) auto

lemma visit_new:
  "goal \<notin> set ns \<Longrightarrow> \<exists>news visited'. visit_neighbors goal depth ns queue visited =
     (False, queue @ map (\<lambda>n. (n, depth + 1)) news, visited') \<and>
     set visited' = set visited \<union> set ns \<and> set news = set ns - set visited \<and> distinct news"
proof (induction ns arbitrary: queue visited)
  case Nil
  then show ?case by auto
next
  case (Cons n ns)
  show ?case
  proof (cases "n \<in> set visited")
    case True
    with Cons.IH[of queue visited] Cons.prems show ?thesis by auto
  next
    case False
    with Cons.prems have step: "visit_neighbors goal depth (n # ns) queue visited =
        visit_neighbors goal depth ns (queue @ [(n, depth + 1)]) (bs_insert n visited)" by auto
    from Cons.IH[of "queue @ [(n, depth + 1)]" "bs_insert n visited"] Cons.prems
    obtain news visited' where IH: "visit_neighbors goal depth ns (queue @ [(n, depth + 1)]) (bs_insert n visited) =
        (False, (queue @ [(n, depth + 1)]) @ map (\<lambda>n. (n, depth + 1)) news, visited')"
      "set visited' = set (bs_insert n visited) \<union> set ns"
      "set news = set ns - set (bs_insert n visited)" "distinct news" by auto
    with False show ?thesis unfolding step
      by (intro exI[of _ "n # news"] exI[of _ visited']) auto
  qed
qed

lemma bfs_sound:
  assumes "\<forall>(v, d) \<in> set queue. (src, v) \<in> compat_edges g ^^ d" "bfs g goal queue visited"
  shows "\<exists>n \<le> 3. (src, goal) \<in> compat_edges g ^^ n"
  using assms
proof (induction g goal queue visited rule: bfs.induct)
  case (1 g goal visited)
  then show ?case by simp
next
  case (2 g goal current depth queue visited)
  have cur: "(src, current) \<in> compat_edges g ^^ depth" using 2(3) by simp
  have next_edge: "(src, w) \<in> compat_edges g ^^ Suc depth" if "w \<in> set (neighbors g current)" for w
    using cur that by (auto simp: compat_edges_def)
  show ?case
  proof (cases "depth \<ge> 3")
    case True
    with 2 show ?thesis by simp
  next
    case depth: False
    show ?thesis
    proof (cases "goal \<in> set (neighbors g current)")
      case True
      with next_edge depth show ?thesis by (intro exI[of _ "Suc depth"]) auto
    next
      case False
      from visit_new[OF this, of depth queue visited] obtain news visited'
        where v: "visit_neighbors goal depth (neighbors g current) queue visited =
          (False, queue @ map (\<lambda>n. (n, depth + 1)) news, visited')"
          "set news = set (neighbors g current) - set visited" by blast
      have "\<forall>(w, d) \<in> set (queue @ map (\<lambda>n. (n, depth + 1)) news). (src, w) \<in> compat_edges g ^^ d"
        using 2(3) next_edge v(2) by auto
      with 2(2)[OF depth v(1)[symmetric] refl] 2(4) depth v(1) show ?thesis by simp
    qed
  qed
qed

text \<open>The invariant of the search: recorded depths, breadth-first order, and expanded nodes.\<close>

definition bfs_inv ::
    "compat_graph \<Rightarrow> string \<Rightarrow> string \<Rightarrow> (string \<times> nat) list \<Rightarrow> string set \<Rightarrow> (string \<Rightarrow> nat) \<Rightarrow> bool" where
  "bfs_inv g src goal queue visited \<delta> \<longleftrightarrow>
     src \<in> visited \<and> \<delta> src = 0 \<and>
     (\<forall>(v, d) \<in> set queue. v \<in> visited \<and> d = \<delta> v \<and> (\<forall>u \<in> visited. \<delta> u \<le> d + 1)) \<and>
     distinct (map fst queue) \<and> sorted (map snd queue) \<and>
     (\<forall>u \<in> visited. u \<notin> fst ` set queue \<longrightarrow> \<delta> u < 3 \<longrightarrow>
        (\<forall>w \<in> set (neighbors g u). w \<noteq> goal \<and> w \<in> visited \<and> \<delta> w \<le> \<delta> u + 1))"

lemma bfs_inv_pop:
  assumes "bfs_inv g src goal ((current, depth) # queue) visited \<delta>" "depth \<ge> 3"
  shows "bfs_inv g src goal queue visited \<delta>"
  using assms unfolding bfs_inv_def by auto

lemma sorted_constant: "sorted (map (\<lambda>x. c) xs)"
  by (induction xs) auto

lemma bfs_inv_expand:
  assumes inv: "bfs_inv g src goal ((current, depth) # queue) visited \<delta>"
    and goal: "goal \<notin> set (neighbors g current)"
    and news: "set news = set (neighbors g current) - visited" "distinct news"
  shows "\<exists>\<delta>'. bfs_inv g src goal (queue @ map (\<lambda>n. (n, depth + 1)) news)
    (visited \<union> set (neighbors g current)) \<delta>'"
proof -
  define \<delta>' where "\<delta>' u = (if u \<in> set news then depth + 1 else \<delta> u)" for u
  have old: "\<delta>' u = \<delta> u" if "u \<in> visited" for u using that news by (auto simp: \<delta>'_def)
  have cur: "current \<in> visited" "\<delta> current = depth" "\<And>u. u \<in> visited \<Longrightarrow> \<delta> u \<le> depth + 1"
    using inv unfolding bfs_inv_def by auto
  have le: "depth \<le> d" if "(v, d) \<in> set queue" for v d
    using inv that unfolding bfs_inv_def by auto
  have q: "v \<in> visited \<and> d = \<delta> v \<and> (\<forall>u \<in> visited. \<delta> u \<le> d + 1)" if "(v, d) \<in> set queue" for v d
    using inv that unfolding bfs_inv_def by auto
  have new: "\<delta>' u = depth + 1" "u \<notin> visited" if "u \<in> set news" for u
    using that news by (auto simp: \<delta>'_def)
  have dom: "u \<in> visited \<or> u \<in> set news" if "u \<in> visited \<union> set (neighbors g current)" for u
    using that news by auto
  have bound: "\<delta>' u \<le> depth + 1" if "u \<in> visited \<union> set (neighbors g current)" for u
    using dom[OF that] old cur(3) new by auto
  have "bfs_inv g src goal (queue @ map (\<lambda>n. (n, depth + 1)) news) (visited \<union> set (neighbors g current)) \<delta>'"
    unfolding bfs_inv_def
  proof (intro conjI)
    show "src \<in> visited \<union> set (neighbors g current)" "\<delta>' src = 0"
      using inv old unfolding bfs_inv_def by auto
    show "\<forall>(v, d) \<in> set (queue @ map (\<lambda>n. (n, depth + 1)) news). v \<in> visited \<union> set (neighbors g current) \<and>
        d = \<delta>' v \<and> (\<forall>u \<in> visited \<union> set (neighbors g current). \<delta>' u \<le> d + 1)"
    proof (safe, goal_cases)
      case (1 v d)
      then show ?case using q news by auto
    next
      case (2 v d)
      then show ?case using q old new by auto
    next
      case (3 v d u)
      then show ?case using le bound[of u] by fastforce
    next
      case (4 v d u)
      then show ?case using le bound[of u] by fastforce
    qed
    show "distinct (map fst (queue @ map (\<lambda>n. (n, depth + 1)) news))"
      using inv news q unfolding bfs_inv_def by (auto simp: comp_def)
    show "sorted (map snd (queue @ map (\<lambda>n. (n, depth + 1)) news))"
    proof -
      have "sorted (map snd queue)" using inv unfolding bfs_inv_def by simp
      moreover have "d \<le> depth + 1" if "(v, d) \<in> set queue" for v d using q[OF that] cur(3) by blast
      ultimately show ?thesis by (auto simp: sorted_append comp_def sorted_constant)
    qed
    show "\<forall>u \<in> visited \<union> set (neighbors g current). u \<notin> fst ` set (queue @ map (\<lambda>n. (n, depth + 1)) news) \<longrightarrow>
        \<delta>' u < 3 \<longrightarrow> (\<forall>w \<in> set (neighbors g u). w \<noteq> goal \<and> w \<in> visited \<union> set (neighbors g current) \<and> \<delta>' w \<le> \<delta>' u + 1)"
    proof (intro ballI impI)
      fix u w
      assume u: "u \<in> visited \<union> set (neighbors g current)" "u \<notin> fst ` set (queue @ map (\<lambda>n. (n, depth + 1)) news)"
        "\<delta>' u < 3" and w: "w \<in> set (neighbors g u)"
      have "u \<notin> set news" using u(2) by force
      then have uv: "u \<in> visited" using dom[OF u(1)] by blast
      show "w \<noteq> goal \<and> w \<in> visited \<union> set (neighbors g current) \<and> \<delta>' w \<le> \<delta>' u + 1"
      proof (cases "u = current")
        case True
        with w goal bound[of w] old[OF cur(1)] cur(2) show ?thesis by auto
      next
        case False
        have "u \<notin> fst ` set ((current, depth) # queue)" using u(2) False by auto
        with inv uv w u(3) old[OF uv] have "w \<noteq> goal" "w \<in> visited" "\<delta> w \<le> \<delta> u + 1"
          unfolding bfs_inv_def by auto
        with old uv show ?thesis by auto
      qed
    qed
  qed
  then show ?thesis by blast
qed

lemma bfs_done:
  assumes "bfs_inv g src goal [] visited \<delta>" "(src, v) \<in> compat_edges g ^^ k" "k \<le> 3"
  shows "v \<in> visited \<and> \<delta> v \<le> k \<and> (k > 0 \<longrightarrow> v \<noteq> goal)"
  using assms(2,3)
proof (induction k arbitrary: v)
  case 0
  with assms(1) show ?case by (simp add: bfs_inv_def)
next
  case (Suc k)
  then obtain u where u: "(src, u) \<in> compat_edges g ^^ k" "v \<in> set (neighbors g u)"
    by (auto simp: compat_edges_def)
  with Suc have "u \<in> visited" "\<delta> u \<le> k" by auto
  with u(2) Suc.prems(2) assms(1) show ?case unfolding bfs_inv_def by fastforce
qed

lemma bfs_complete:
  assumes "bfs_inv g src goal queue (set visited) \<delta>" "\<not> bfs g goal queue visited" "src \<noteq> goal" "n \<le> 3"
  shows "(src, goal) \<notin> compat_edges g ^^ n"
  using assms
proof (induction g goal queue visited arbitrary: \<delta> rule: bfs.induct)
  case (1 g goal visited)
  then show ?case using bfs_done[OF 1(1), of goal n] by (cases n) auto
next
  case (2 g goal current depth queue visited)
  show ?case
  proof (cases "depth \<ge> 3")
    case True
    with 2 bfs_inv_pop[OF 2(3) True] show ?thesis by simp
  next
    case depth: False
    have nf: "goal \<notin> set (neighbors g current)"
      using 2(4) depth visit_found[of goal "neighbors g current" depth queue visited]
      by (auto split: prod.splits)
    from visit_new[OF this, of depth queue visited] obtain news visited'
      where v: "visit_neighbors goal depth (neighbors g current) queue visited =
        (False, queue @ map (\<lambda>n. (n, depth + 1)) news, visited')"
        "set visited' = set visited \<union> set (neighbors g current)"
        "set news = set (neighbors g current) - set visited" "distinct news" by blast
    from bfs_inv_expand[OF 2(3) nf v(3,4)] obtain \<delta>' where
      "bfs_inv g src goal (queue @ map (\<lambda>n. (n, depth + 1)) news) (set visited') \<delta>'"
      unfolding v(2) by blast
    with 2(2)[OF depth v(1)[symmetric] refl] 2(4-6) depth v(1) show ?thesis by simp
  qed
qed

lemma bfs_iff:
  assumes "src \<noteq> goal"
  shows "bfs g goal [(src, 0)] (bs_insert src []) \<longleftrightarrow> (\<exists>n \<le> 3. (src, goal) \<in> compat_edges g ^^ n)"
proof
  assume "bfs g goal [(src, 0)] (bs_insert src [])"
  then show "\<exists>n \<le> 3. (src, goal) \<in> compat_edges g ^^ n" by (rule bfs_sound[rotated]) simp
next
  have "bfs_inv g src goal [(src, 0)] (set (bs_insert src [])) (\<lambda>u. 0)"
    by (simp add: bfs_inv_def)
  moreover assume "\<exists>n \<le> 3. (src, goal) \<in> compat_edges g ^^ n"
  ultimately show "bfs g goal [(src, 0)] (bs_insert src [])" using bfs_complete assms by blast
qed

section \<open>Matching, lookup and schemas\<close>

definition urn_base_of :: "string \<Rightarrow> string" where
  "urn_base_of s = (case parse_urn s of None \<Rightarrow> s | Some p \<Rightarrow> urn_base p)"

definition urn_params_of :: "string \<Rightarrow> (string \<times> string) list" where
  "urn_params_of s = (case parse_urn s of None \<Rightarrow> [] | Some p \<Rightarrow> urn_params p)"

lemma parse_urn_params_wf: "bt_wf ps \<Longrightarrow> parse_urn_params parts ps = Some ps' \<Longrightarrow> bt_wf ps'"
  by (induction parts arbitrary: ps) (auto split: option.splits prod.splits if_splits)

lemma parse_urn_wf: "parse_urn s = Some p \<Longrightarrow> bt_wf (urn_params p)"
  by (auto simp: parse_urn_def intro: parse_urn_params_wf[OF bt_wf_Nil]
      split: if_splits option.splits prod.splits)

lemma shared_params_agree_iff:
  "bt_wf pa \<Longrightarrow> shared_params_agree pa pb \<longleftrightarrow> (\<forall>k u v. map_of pa k = Some u \<longrightarrow> map_of pb k = Some v \<longrightarrow> u = v)"
  by (force simp: shared_params_agree_def list_all_iff bt_collect_sorted_id split: option.splits)

lemma shared_params_agree_sym:
  "bt_wf pa \<Longrightarrow> bt_wf pb \<Longrightarrow> shared_params_agree pa pb \<longleftrightarrow> shared_params_agree pb pa"
  by (auto simp: shared_params_agree_iff)

lemma short_name_loop_found:
  "short_name_loop suffix reg (Some d) =
     (if filter (\<lambda>(urn, d). ends_with suffix urn) reg = [] then Some d else None)"
  by (induction reg) auto

lemma short_name_loop_none:
  "short_name_loop suffix reg None = Some d \<longleftrightarrow>
   (\<exists>urn. filter (\<lambda>(urn, d). ends_with suffix urn) reg = [(urn, d)])"
  by (induction reg) (auto simp: short_name_loop_found split: if_splits)

lemma schema_compatible_iff:
  "schema_compatible expected actual = Ok () \<longleftrightarrow>
   (\<forall>(n, dt, nl) \<in> set expected. \<exists>nl'. field_with_name actual n = Some (dt, nl'))"
  unfolding schema_compatible_def try_each_Ok
  by (intro ball_cong refl) (auto split: option.splits if_splits)

text \<open>A type that contains itself cannot be resolved: the depth bound turns the cycle into a failure.\<close>

lemma those_None: "None \<in> set xs \<Longrightarrow> those xs = None"
  by (induction xs) (auto split: option.splits)

lemma resolve_field_type_cyclic:
  assumes "arrow_type_from_name s = None" "list_inner s = None" "registry_resolve reg s = Some d"
    and "f \<in> set (type_fields d)" "field_type f = s"
  shows "resolve_field_type reg s k = None"
proof (induction "9 - k" arbitrary: k rule: less_induct)
  case less
  show ?case
  proof (cases "k > MAX_TYPE_DEPTH")
    case True
    then show ?thesis by (simp add: resolve_field_type.simps)
  next
    case False
    then have "resolve_field_type reg s (k + 1) = None" by (intro less) (simp add: MAX_TYPE_DEPTH_def)
    then have "None \<in> set (map (\<lambda>f. map_option (\<lambda>dt. (field_name f, dt, field_nullable f))
        (resolve_field_type reg (field_type f) (k + 1))) (type_fields d))"
      using assms(4,5) by (force simp: image_iff)
    from those_None[OF this] show ?thesis
      using assms(1-3) False by (subst resolve_field_type.simps) simp
  qed
qed

section \<open>Properties\<close>

text \<open>
  C20. Implicit conversion: a type converts to another exactly when the target is the universal byte
  sink, or both have the same base and no shared parameter differs, or the bases differ and the rules
  connect them by a path of at most three edges. The visited set of the search loses no such path.
\<close>

theorem is_compatible_paths:
  "is_compatible g from to \<longleftrightarrow>
     to = ''std/core/v1/Bytes'' \<or>
     (if urn_base_of from = urn_base_of to
      then urn_params_of from = [] \<or> urn_params_of to = [] \<or>
        shared_params_agree (urn_params_of from) (urn_params_of to)
      else \<exists>n \<le> 3. (urn_base_of from, urn_base_of to) \<in> compat_edges g ^^ n)"
  using bfs_iff[of "urn_base_of from" "urn_base_of to" g]
  by (auto simp: is_compatible_def urn_base_of_def urn_params_of_def split: option.splits)

text \<open>
  The edit distance of two names within the length limit is the least number of insertions, deletions and
  replacements that turn one into the other.
\<close>

theorem edit_distance_least:
  assumes "length a \<le> 256" "length b \<le> 256"
  shows "edits (edit_distance a b) a b \<and> (edits n a b \<longrightarrow> edit_distance a b \<le> n)"
  using lev_edits[of "length a" a "length b" b] lev_least[of n a b "length a" a "length b" b]
  by (simp add: edit_distance_lev[OF assms])

theorem edit_distance_least_witness:
  "edits (edit_distance ''Imge'' ''Image'') ''Imge'' ''Image'' \<and> edit_distance ''Imge'' ''Image'' \<le> 1"
proof -
  have "edits 1 ''Imge'' ''Image''"
    using edits_keep[OF edits_keep[OF edits_insert[OF edits_keep[OF edits_keep[OF edits_Nil,
      of "CHR ''I''"], of "CHR ''m''"], of "CHR ''a''"], of "CHR ''g''"], of "CHR ''e''"] by simp
  with edit_distance_least[of "''Imge''" "''Image''" 1] show ?thesis by simp
qed

text \<open>
  Matching of type names is reflexive and symmetric: producer and consumer of an edge may be compared in
  either order.
\<close>

theorem types_match_sym: "types_match a a \<and> (types_match a b \<longleftrightarrow> types_match b a)"
proof -
  have "shared_params_agree (urn_params p) (urn_params p)" if "parse_urn a = Some p" for p
    using shared_params_agree_iff[OF parse_urn_wf[OF that]] by simp
  moreover have "shared_params_agree (urn_params p) (urn_params q) \<longleftrightarrow> shared_params_agree (urn_params q) (urn_params p)"
    if "parse_urn a = Some p" "parse_urn b = Some q" for p q
    using shared_params_agree_sym[OF parse_urn_wf[OF that(1)] parse_urn_wf[OF that(2)]] .
  ultimately show ?thesis by (auto simp: types_match_def split: option.splits)
qed

text \<open>
  A short type name resolves exactly when one registered type, and only one, ends in it.
\<close>

theorem resolve_short_name_unique:
  "resolve_short_name reg name = Some d \<longleftrightarrow>
     (\<exists>urn. filter (\<lambda>(u, x). ends_with (''/'' @ name) u) reg = [(urn, d)])"
  by (simp add: resolve_short_name_def short_name_loop_none del: append.simps)

text \<open>
  Schema compatibility is a preorder on schemas with distinct field names: a schema is compatible
  with itself, and a consumer served by an intermediate schema is served by every schema that serves that one.
\<close>

theorem schema_compatible_preorder:
  assumes "distinct (map fst a)"
  shows "schema_compatible a a = Ok () \<and>
    (schema_compatible a b = Ok () \<longrightarrow> schema_compatible b c = Ok () \<longrightarrow> schema_compatible a c = Ok ())"
proof -
  have "schema_compatible a a = Ok ()"
    using assms by (auto simp: schema_compatible_iff field_with_name_def)
  moreover have "schema_compatible a c = Ok ()"
    if "schema_compatible a b = Ok ()" "schema_compatible b c = Ok ()"
    using that unfolding schema_compatible_iff field_with_name_def
    by (fastforce dest: map_of_SomeD)
  ultimately show ?thesis by blast
qed

theorem schema_compatible_preorder_witness:
  "schema_compatible [(''x'', DtFloat64, True)] [(''y'', DtInt32, True), (''x'', DtFloat64, False)] = Ok () \<and>
   schema_compatible [(''x'', DtFloat64, True)] [(''x'', DtFloat64, True)] = Ok ()"
  using schema_compatible_preorder[of "[(''x'', DtFloat64, True)]"]
  by (simp add: schema_compatible_def field_with_name_def)

end
