(* ===== verification/Validate.thy ===== *)
theory Validate
  imports Expand Types "HOL-Library.Product_Lexorder"
begin

text \<open>
  The checks on a dataflow before it is built or started
  (\<^verbatim>\<open>libraries/core/src/descriptor/validate.rs\<close>): wiring, paths, the logging options of a resolved node,
  ROS2 bridge sections and type annotations. What the checks ask of the machine is a parameter:
  whether a node's path resolves, whether a file exists, whether the Python runtime is installed. An error
  or a warning carries the values that the code formats into its text. Messages for the log are left out.
\<close>

section \<open>Wiring\<close>

datatype validate_error =
    ResolveError resolve_error
  | SourceNodeMissing node_id string
  | OutputMissing node_id data_id string
  | OperatorMissing node_id operator_id string
  | OperatorOutputMissing node_id operator_id data_id string
  | PathMissing string
  | LibraryWithoutName string
  | LibraryWithPrefix string
  | LibraryWithExtension string
  | SharedLibraryMissing string
  | PythonMissing string
  | WasmMissing string
  | PythonRuntimeMissing
  | MoreThanOne string
  | InvalidLogLevel string
  | InvalidByteSize string
  | UnknownByteUnit string
  | InvalidByteNumber string
  | TooFewRotatedFiles
  | TooManyRotatedFiles
  | Ros2ModeMissing node_id
  | Ros2ModeAmbiguous node_id
  | Ros2FieldMissing node_id string
  | Ros2NeedsInput node_id
  | Ros2NeedsOutput node_id
  | Ros2TopicsEmpty node_id
  | Ros2TopicsTooMany node_id nat
  | Ros2NameEmpty node_id string
  | Ros2NameInvalid node_id string string
  | Ros2TypeInvalid node_id string string
  | Ros2TypePartInvalid node_id string string string
  | QosDurability node_id string
  | QosLiveliness node_id string
  | QosKeepLast node_id int
  | QosBlockingTime node_id
  | QosLeaseDuration node_id

fun map_err :: "('e \<Rightarrow> 'f) \<Rightarrow> ('e, 'a) outcome \<Rightarrow> ('f, 'a) outcome" where
  "map_err g (Ok x) = Ok x"
| "map_err g (Err e) = Err (g e)"
| "map_err g Panic = Panic"

type_synonym resolved_nodes = "(node_id \<times> resolved_node) list"

definition check_runtime_output ::
    "operator_definition list \<Rightarrow> node_id \<Rightarrow> data_id \<Rightarrow> string \<Rightarrow> (validate_error, unit) outcome" where
  "check_runtime_output ops source out input_id_str =
     (let (oid, rest) = (case split_once (CHR ''/'') (data_name out) of None \<Rightarrow> ([], []) | Some p \<Rightarrow> p) in
      and_then (data_id_from rest) (\<lambda>d.
      and_then (ok_or (OperatorMissing source (operator_id_from oid) input_id_str)
        (find (\<lambda>od. op_id od = operator_id_from oid) ops)) (\<lambda>od.
      if d \<in> set (outputs (op_run (op_config od))) then Ok ()
      else Err (OperatorOutputMissing source (operator_id_from oid) d input_id_str))))"

definition check_input ::
    "resolved_nodes \<Rightarrow> input \<Rightarrow> string \<Rightarrow> (validate_error, unit) outcome" where
  "check_input rns i input_id_str =
     (case mapping i of
        User source out \<Rightarrow>
          and_then (ok_or (SourceNodeMissing source input_id_str)
            (find (\<lambda>n. rn_id n = source) (map snd rns))) (\<lambda>n.
          case rn_kind n of
            Custom c \<Rightarrow>
              (if out \<in> set (outputs (run_config c)) then Ok ()
               else Err (OutputMissing source out input_id_str))
          | Runtime ops \<Rightarrow> check_runtime_output ops source out input_id_str)
      | _ \<Rightarrow> Ok ())"

definition check_node_inputs :: "resolved_nodes \<Rightarrow> resolved_node \<Rightarrow> (validate_error, unit) outcome" where
  "check_node_inputs rns n =
     (case rn_kind n of
        Custom c \<Rightarrow>
          try_each (\<lambda>(k, i). check_input rns i (node_name (rn_id n) @ ''/'' @ data_name k)) (inputs (run_config c))
      | Runtime ops \<Rightarrow>
          try_each (\<lambda>od. try_each (\<lambda>(k, i). check_input rns i
            (operator_name (op_id od) @ ''/'' @ node_name (rn_id n) @ ''/'' @ data_name k))
            (inputs (op_run (op_config od)))) ops)"

definition check_wiring :: "(ros2_bridge_config \<Rightarrow> string) \<Rightarrow> descriptor \<Rightarrow> (validate_error, unit) outcome" where
  "check_wiring json d =
     and_then (map_err ResolveError (resolve_aliases_and_set_defaults json d)) (\<lambda>rns.
     try_each (check_node_inputs rns) (map snd rns))"

section \<open>Logging options of a resolved node\<close>

definition find_map :: "('a \<Rightarrow> 'b option) \<Rightarrow> 'a list \<Rightarrow> 'b option" where
  "find_map f xs = (case List.map_filter f xs of [] \<Rightarrow> None | y # _ \<Rightarrow> Some y)"

text \<open>An option of which the operators of a runtime node may set at most one.\<close>

definition single_option ::
    "string \<Rightarrow> (log_options \<Rightarrow> 'a option) \<Rightarrow> resolved_node \<Rightarrow> (validate_error, 'a option) outcome" where
  "single_option name f n =
     (case rn_kind n of
        Runtime ops \<Rightarrow>
          (let vs = List.map_filter (\<lambda>od. f (op_log (op_config od))) ops
           in if length vs > 1 then Err (MoreThanOne name)
              else Ok (case vs of [] \<Rightarrow> None | v # _ \<Rightarrow> Some v))
      | Custom c \<Rightarrow> Ok (f (custom_log c)))"

text \<open>The two options that name an output: on a runtime node the operator is put in front.\<close>

definition send_as ::
    "string \<Rightarrow> (log_options \<Rightarrow> string option) \<Rightarrow> resolved_node \<Rightarrow> (validate_error, string option) outcome" where
  "send_as name f n =
     (case rn_kind n of
        Runtime ops \<Rightarrow>
          (if length (filter (\<lambda>od. f (op_log (op_config od)) \<noteq> None) ops) > 1 then Err (MoreThanOne name)
           else Ok (find_map (\<lambda>od. map_option (\<lambda>s. operator_name (op_id od) @ ''/'' @ s)
             (f (op_log (op_config od)))) ops))
      | Custom c \<Rightarrow> Ok (f (custom_log c)))"

definition node_send_stdout_as :: "resolved_node \<Rightarrow> (validate_error, string option) outcome" where
  "node_send_stdout_as n = send_as ''send_stdout_as'' send_stdout_as n"

definition node_send_logs_as :: "resolved_node \<Rightarrow> (validate_error, string option) outcome" where
  "node_send_logs_as n = send_as ''send_logs_as'' send_logs_as n"

definition parse_log_level :: "string \<Rightarrow> (validate_error, log_level_or_stdout) outcome" where
  "parse_log_level s =
     (let l = to_lowercase s in
      if l = ''error'' then Ok (LogLevel LevelError)
      else if l = ''warn'' then Ok (LogLevel LevelWarn)
      else if l = ''info'' then Ok (LogLevel LevelInfo)
      else if l = ''debug'' then Ok (LogLevel LevelDebug)
      else if l = ''trace'' then Ok (LogLevel LevelTrace)
      else if l = ''stdout'' then Ok Stdout
      else Err (InvalidLogLevel s))"

definition node_min_log_level :: "resolved_node \<Rightarrow> (validate_error, log_level_or_stdout option) outcome" where
  "node_min_log_level n =
     and_then (single_option ''min_log_level'' min_log_level n) (\<lambda>v.
     case v of None \<Rightarrow> Ok None | Some s \<Rightarrow> and_then (parse_log_level s) (\<lambda>l. Ok (Some l)))"

text \<open>
  A product of two 64-bit numbers: with overflow checks, as in a debug build, it panics when it
  does not fit; without them, as in a release build, it wraps.
\<close>

definition u64_mul :: "bool \<Rightarrow> nat \<Rightarrow> nat \<Rightarrow> ('e, nat) outcome" where
  "u64_mul checks a b =
     (if a * b \<le> u64_max then Ok (a * b) else if checks then Panic else Ok (a * b mod 2 ^ 64))"

text \<open>The conversion of a double to 64 bits truncates and saturates.\<close>

fun f64_as_u64 :: "f64 \<Rightarrow> nat" where
  "f64_as_u64 (F64 s m e) = (if s then 0 else min u64_max (m * pow2_num e div pow2_den e))"
| "f64_as_u64 (F64_Inf s) = (if s then 0 else u64_max)"
| "f64_as_u64 F64_NaN = 0"

definition byte_unit :: "string \<Rightarrow> nat option" where
  "byte_unit u =
     (if u = ''B'' then Some 1
      else if u = ''KB'' \<or> u = ''K'' then Some 1024
      else if u = ''MB'' \<or> u = ''M'' then Some (1024 * 1024)
      else if u = ''GB'' \<or> u = ''G'' then Some (1024 * 1024 * 1024)
      else None)"

definition parse_byte_size :: "bool \<Rightarrow> string \<Rightarrow> (validate_error, nat) outcome" where
  "parse_byte_size checks s0 =
     (let s = trim s0 in
      case position is_ascii_alphabetic s of
        None \<Rightarrow> ok_or (InvalidByteSize s) (parse_uint u64_max s)
      | Some pos \<Rightarrow>
          (let num = trim (take pos s); unit = to_uppercase (trim (drop pos s)) in
           and_then (ok_or (UnknownByteUnit unit) (byte_unit unit)) (\<lambda>mult.
           case parse_uint u64_max num of
             Some n \<Rightarrow> u64_mul checks n mult
           | None \<Rightarrow>
               and_then (ok_or (InvalidByteNumber num) (parse_f64 num)) (\<lambda>x.
               Ok (f64_as_u64 (f64_mul x (f64_of_nat mult)))))))"

definition node_max_log_size :: "bool \<Rightarrow> resolved_node \<Rightarrow> (validate_error, nat option) outcome" where
  "node_max_log_size checks n =
     and_then (single_option ''max_log_size'' max_log_size n) (\<lambda>v.
     case v of None \<Rightarrow> Ok None | Some s \<Rightarrow> and_then (parse_byte_size checks s) (\<lambda>b. Ok (Some b)))"

definition node_max_rotated_files :: "resolved_node \<Rightarrow> (validate_error, nat option) outcome" where
  "node_max_rotated_files n =
     and_then (single_option ''max_rotated_files'' max_rotated_files n) (\<lambda>v.
     case v of
       None \<Rightarrow> Ok None
     | Some k \<Rightarrow>
         if k = 0 then Err TooFewRotatedFiles
         else if k > 100 then Err TooManyRotatedFiles else Ok (Some k))"

section \<open>ROS2 bridge sections\<close>

definition ros2_name_char :: "char \<Rightarrow> bool" where
  "ros2_name_char c \<longleftrightarrow> is_ascii_alphanumeric c \<or> c = CHR ''_'' \<or> c = CHR ''/''"

definition validate_ros2_name :: "node_id \<Rightarrow> string \<Rightarrow> string \<Rightarrow> (validate_error, unit) outcome" where
  "validate_ros2_name nid field name =
     (if name = [] then Err (Ros2NameEmpty nid field)
      else if \<not> list_all ros2_name_char name then Err (Ros2NameInvalid nid field name)
      else Ok ())"

definition validate_ros2_type_format :: "node_id \<Rightarrow> string \<Rightarrow> string \<Rightarrow> (validate_error, unit) outcome" where
  "validate_ros2_type_format nid name ty =
     (case split_on (CHR ''/'') ty of
        [pkg, tname] \<Rightarrow>
          (if pkg = [] \<or> tname = [] then Err (Ros2TypeInvalid nid ty name)
           else
             try_each (\<lambda>(label, part).
               if list_all (\<lambda>c. is_ascii_alphanumeric c \<or> c = CHR ''_'') part then Ok ()
               else Err (Ros2TypePartInvalid nid label part name))
               [(''package'', pkg), (''type name'', tname)])
      | _ \<Rightarrow> Err (Ros2TypeInvalid nid ty name))"

text \<open>\<^verbatim>\<open>!t.is_finite() || t < 0.0\<close>, negated; the negative zero is not below zero.\<close>

fun finite_nonneg :: "f64 \<Rightarrow> bool" where
  "finite_nonneg (F64 s m e) = (\<not> s \<or> m = 0)"
| "finite_nonneg _ = False"

definition validate_ros2_qos :: "node_id \<Rightarrow> ros2_qos \<Rightarrow> (validate_error, unit) outcome" where
  "validate_ros2_qos nid q =
     and_then (case durability q of
         None \<Rightarrow> Ok ()
       | Some d \<Rightarrow> if d = ''volatile'' \<or> d = ''transient_local'' then Ok () else Err (QosDurability nid d)) (\<lambda>_.
     and_then (case liveliness q of
         None \<Rightarrow> Ok ()
       | Some l \<Rightarrow>
           if l = ''automatic'' \<or> l = ''manual_by_participant'' \<or> l = ''manual_by_topic'' then Ok ()
           else Err (QosLiveliness nid l)) (\<lambda>_.
     and_then (case keep_last q of
         None \<Rightarrow> Ok ()
       | Some k \<Rightarrow> if 1 \<le> k \<and> k \<le> 10000 then Ok () else Err (QosKeepLast nid k)) (\<lambda>_.
     and_then (case max_blocking_time q of
         None \<Rightarrow> Ok () | Some t \<Rightarrow> if finite_nonneg t then Ok () else Err (QosBlockingTime nid)) (\<lambda>_.
     case lease_duration q of
       None \<Rightarrow> Ok () | Some t \<Rightarrow> if finite_nonneg t then Ok () else Err (QosLeaseDuration nid)))))"

definition ensure :: "'e \<Rightarrow> bool \<Rightarrow> ('e, unit) outcome" where
  "ensure e b = (if b then Ok () else Err e)"

definition validate_ros2_topics ::
    "node_id \<Rightarrow> ros2_topic list \<Rightarrow> bool \<Rightarrow> bool \<Rightarrow> (validate_error, unit) outcome" where
  "validate_ros2_topics nid ts has_inputs has_outputs =
     and_then (ensure (Ros2TopicsEmpty nid) (ts \<noteq> [])) (\<lambda>_.
     and_then (ensure (Ros2TopicsTooMany nid (length ts)) (length ts \<le> 64)) (\<lambda>_.
     and_then (try_each (\<lambda>t. and_then (validate_ros2_name nid ''topic'' (rt_topic t)) (\<lambda>_.
       validate_ros2_type_format nid (rt_topic t) (rt_message_type t))) ts) (\<lambda>_.
     and_then (ensure (Ros2NeedsOutput nid)
       (\<not> (list_ex (\<lambda>t. rt_direction t = Subscribe) ts \<and> \<not> has_outputs))) (\<lambda>_.
     ensure (Ros2NeedsInput nid)
       (\<not> (list_ex (\<lambda>t. rt_direction t = Publish) ts \<and> \<not> has_inputs))))))"

text \<open>
  A service or an action: name, type, role. A client and a server both need an input and an
  output, checked in this order.
\<close>

definition validate_ros2_call ::
    "node_id \<Rightarrow> string \<Rightarrow> string \<Rightarrow> string option \<Rightarrow> ros2_role option \<Rightarrow> bool \<Rightarrow> bool
     \<Rightarrow> (validate_error, unit) outcome" where
  "validate_ros2_call nid field name ty r has_inputs has_outputs =
     and_then (validate_ros2_name nid field name) (\<lambda>_.
     and_then (ok_or (Ros2FieldMissing nid (field @ ''_type'')) ty) (\<lambda>t.
     and_then (validate_ros2_type_format nid name t) (\<lambda>_.
     and_then (ok_or (Ros2FieldMissing nid ''role'') r) (\<lambda>_.
     and_then (ensure (Ros2NeedsInput nid) has_inputs) (\<lambda>_.
     ensure (Ros2NeedsOutput nid) has_outputs)))))"

definition ros2_mode_count :: "ros2_bridge_config \<Rightarrow> nat" where
  "ros2_mode_count c =
     length (filter (\<lambda>b. b) [topic c \<noteq> None, topics c \<noteq> None, service c \<noteq> None, action c \<noteq> None])"

definition validate_ros2_topic ::
    "node_id \<Rightarrow> ros2_bridge_config \<Rightarrow> string \<Rightarrow> bool \<Rightarrow> bool \<Rightarrow> (validate_error, unit) outcome" where
  "validate_ros2_topic nid c t has_inputs has_outputs =
     and_then (validate_ros2_name nid ''topic'' t) (\<lambda>_.
     and_then (ok_or (Ros2FieldMissing nid ''message_type'') (message_type c)) (\<lambda>ty.
     and_then (validate_ros2_type_format nid t ty) (\<lambda>_.
     case direction c of
       Subscribe \<Rightarrow> ensure (Ros2NeedsOutput nid) has_outputs
     | Publish \<Rightarrow> ensure (Ros2NeedsInput nid) has_inputs)))"

definition validate_ros2_mode ::
    "node_id \<Rightarrow> ros2_bridge_config \<Rightarrow> bool \<Rightarrow> bool \<Rightarrow> (validate_error, unit) outcome" where
  "validate_ros2_mode nid c has_inputs has_outputs =
     (case topic c of
        Some t \<Rightarrow> validate_ros2_topic nid c t has_inputs has_outputs
      | None \<Rightarrow>
     (case topics c of
        Some ts \<Rightarrow> validate_ros2_topics nid ts has_inputs has_outputs
      | None \<Rightarrow>
     (case service c of
        Some s \<Rightarrow> validate_ros2_call nid ''service'' s (service_type c) (role c) has_inputs has_outputs
      | None \<Rightarrow>
     (case action c of
        Some a \<Rightarrow> validate_ros2_call nid ''action'' a (action_type c) (role c) has_inputs has_outputs
      | None \<Rightarrow> Ok ()))))"

definition validate_ros2_config ::
    "node_id \<Rightarrow> ros2_bridge_config \<Rightarrow> input_map \<Rightarrow> data_id list \<Rightarrow> (validate_error, unit) outcome" where
  "validate_ros2_config nid c ins outs =
     (if ros2_mode_count c = 0 then Err (Ros2ModeMissing nid)
      else if ros2_mode_count c > 1 then Err (Ros2ModeAmbiguous nid)
      else
        and_then (validate_ros2_mode nid c (ins \<noteq> []) (outs \<noteq> [])) (\<lambda>_.
        and_then (validate_ros2_qos nid (qos c)) (\<lambda>_.
        case topics c of
          None \<Rightarrow> Ok ()
        | Some ts \<Rightarrow> try_each (\<lambda>t. case rt_qos t of None \<Rightarrow> Ok () | Some q \<Rightarrow> validate_ros2_qos nid q) ts)))"

section \<open>Paths and the whole dataflow\<close>

text \<open>What the checks ask of the machine that runs them.\<close>

record machine =
  path_resolves :: "string \<Rightarrow> bool"
  file_exists :: "string \<Rightarrow> bool"
  python_runtime :: bool
  overflow_checks :: bool

definition dll_name :: "string \<Rightarrow> string" where
  "dll_name f = ''lib'' @ f @ ''.so''"

definition trim_end_parts :: "path \<Rightarrow> path" where
  "trim_end_parts p = rev (dropWhile skipped_part (rev p))"

definition adjust_shared_library_path :: "string \<Rightarrow> (validate_error, string) outcome" where
  "adjust_shared_library_path s =
     (let body = trim_end_parts (split_on (CHR ''/'') s) in
      if body = [] \<or> last body = ''..'' then Err (LibraryWithoutName s)
      else if starts_with ''lib'' (last body) then Err (LibraryWithPrefix s)
      else if CHR ''.'' \<in> set (tl (last body)) then Err (LibraryWithExtension s)
      else
        let parent = trim_end_parts (butlast body) in
        Ok ((if parent = [] then (if starts_with ''/'' s then ''/'' else []) else path_string parent @ ''/'') @
          dll_name (last body)))"

definition check_operator_source :: "machine \<Rightarrow> operator_config \<Rightarrow> (validate_error, unit) outcome" where
  "check_operator_source mc c =
     (case op_source c of
        SharedLibrary p \<Rightarrow>
          (if source_is_url p \<or> op_build c \<noteq> None then Ok ()
           else
             and_then (adjust_shared_library_path p) (\<lambda>q.
             ensure (SharedLibraryMissing q) (file_exists mc q)))
      | Python p _ \<Rightarrow> ensure (PythonMissing p) (source_is_url p \<or> file_exists mc p)
      | Wasm p \<Rightarrow> ensure (WasmMissing p) (source_is_url p \<or> file_exists mc p))"

definition check_sources :: "machine \<Rightarrow> bool \<Rightarrow> resolved_node \<Rightarrow> (validate_error, unit) outcome" where
  "check_sources mc remote n =
     (case rn_kind n of
        Custom c \<Rightarrow>
          (if is_git (custom_source c) \<or> custom_path c = SHELL_SOURCE \<or> custom_path c = DYNAMIC_SOURCE \<or>
              source_is_url (custom_path c) \<or> remote \<or> custom_build c \<noteq> None then Ok ()
           else ensure (PathMissing (custom_path c)) (path_resolves mc (custom_path c)))
      | Runtime ops \<Rightarrow> try_each (\<lambda>od. check_operator_source mc (op_config od)) ops)"

definition is_python_source :: "operator_source \<Rightarrow> bool" where
  "is_python_source s = (case s of Python _ _ \<Rightarrow> True | _ \<Rightarrow> False)"

definition has_python_operator :: "resolved_node \<Rightarrow> bool" where
  "has_python_operator n =
     (case rn_kind n of
        Custom _ \<Rightarrow> False | Runtime ops \<Rightarrow> list_ex (\<lambda>od. is_python_source (op_source (op_config od))) ops)"

definition check_log_options :: "machine \<Rightarrow> resolved_node \<Rightarrow> (validate_error, unit) outcome" where
  "check_log_options mc n =
     and_then (node_send_stdout_as n) (\<lambda>_.
     and_then (node_send_logs_as n) (\<lambda>_.
     and_then (node_min_log_level n) (\<lambda>_.
     and_then (node_max_log_size (overflow_checks mc) n) (\<lambda>_.
     and_then (node_max_rotated_files n) (\<lambda>_. Ok ())))))"

definition check_dataflow ::
    "machine \<Rightarrow> (ros2_bridge_config \<Rightarrow> string) \<Rightarrow> bool \<Rightarrow> descriptor \<Rightarrow> (validate_error, unit) outcome" where
  "check_dataflow mc json remote d =
     and_then (try_each (\<lambda>n. case ros2 n of
         None \<Rightarrow> Ok ()
       | Some c \<Rightarrow> validate_ros2_config (id_of n) c (inputs (node_run n)) (outputs (node_run n))) (nodes d)) (\<lambda>_.
     and_then (map_err ResolveError (resolve_aliases_and_set_defaults json d)) (\<lambda>rns.
     and_then (try_each (check_sources mc remote) (map snd rns)) (\<lambda>_.
     and_then (check_wiring json d) (\<lambda>_.
     and_then (try_each (check_log_options mc) (map snd rns)) (\<lambda>_.
     ensure PythonRuntimeMissing (list_ex has_python_operator (map snd rns) \<longrightarrow> python_runtime mc))))))"

section \<open>Type annotations\<close>

datatype type_message =
    UnknownPort string data_id
  | UnknownType string data_id string "string option"
  | UnknownMetadataPort data_id
  | UnknownPattern string
  | EdgeMismatch data_id node_id data_id string string "schema_error option"
  | UpstreamUntyped data_id string node_id data_id
  | TimerMismatch data_id string string

type_synonym type_warning = "string \<times> type_message"

record type_inference =
  inf_node :: string
  inf_port :: data_id
  inferred_urn :: string
  inf_source :: "node_id \<times> data_id"

definition TIMER_TYPE :: string where
  "TIMER_TYPE = ''std/core/v1/UInt64''"

definition check_port_types ::
    "string \<Rightarrow> (data_id \<times> string) list \<Rightarrow> (data_id \<Rightarrow> bool) \<Rightarrow> string \<Rightarrow> type_registry \<Rightarrow> type_warning list" where
  "check_port_types nid type_map contains port_kind reg =
     concat (map (\<lambda>(port, urn).
       (if contains port then [] else [(nid, UnknownPort port_kind port)]) @
       (if registry_resolve reg urn \<noteq> None then []
        else [(nid, UnknownType port_kind port urn (suggest reg urn))])) type_map)"

definition check_metadata_annotations ::
    "string \<Rightarrow> (data_id \<times> string list) list \<Rightarrow> string option \<Rightarrow> data_id list \<Rightarrow> type_warning list" where
  "check_metadata_annotations nid metadata pat outs =
     map (\<lambda>k. (nid, UnknownMetadataPort k)) (filter (\<lambda>k. k \<notin> set outs) (map fst metadata)) @
     (case pat of
        None \<Rightarrow> []
      | Some p \<Rightarrow> if pattern_metadata_keys p = None then [(nid, UnknownPattern p)] else [])"

definition check_schema_compat :: "string \<Rightarrow> string \<Rightarrow> type_registry \<Rightarrow> schema_error option" where
  "check_schema_compat out_urn in_urn reg =
     Option.bind (registry_resolve reg out_urn) (\<lambda>out_def.
     Option.bind (registry_resolve reg in_urn) (\<lambda>in_def.
     Option.bind (to_arrow_schema_with_registry reg out_def) (\<lambda>out_schema.
     Option.bind (to_arrow_schema_with_registry reg in_def) (\<lambda>in_schema.
     case schema_compatible in_schema out_schema of Err e \<Rightarrow> Some e | _ \<Rightarrow> None))))"

definition timer_input_types :: "input_map \<Rightarrow> (data_id \<times> string) list" where
  "timer_input_types m =
     fold (\<lambda>(k, i) r. case mapping i of Timer _ \<Rightarrow> bt_insert k TIMER_TYPE r | _ \<Rightarrow> r) m []"

type_synonym output_types_map = "((string \<times> string) \<times> string) list"

definition check_edge ::
    "string \<Rightarrow> (data_id \<times> string) list \<Rightarrow> output_types_map \<Rightarrow> (data_id \<times> string) list \<Rightarrow> compat_graph
     \<Rightarrow> type_registry \<Rightarrow> bool \<Rightarrow> data_id \<times> input \<Rightarrow> type_warning list \<times> type_inference list" where
  "check_edge nid in_types otm timer_types graph reg strict e =
     (case mapping (snd e) of
        User s d \<Rightarrow>
          (case (map_of otm (node_name s, data_name d), map_of in_types (fst e)) of
             (Some out_urn, Some in_urn) \<Rightarrow>
               (if is_compatible graph out_urn in_urn then ([], [])
                else ([(nid, EdgeMismatch (fst e) s d out_urn in_urn (check_schema_compat out_urn in_urn reg))], []))
           | (Some out_urn, None) \<Rightarrow>
               ([], [\<lparr>inf_node = nid, inf_port = fst e, inferred_urn = out_urn, inf_source = (s, d)\<rparr>])
           | (None, Some in_urn) \<Rightarrow>
               (if strict then ([(nid, UpstreamUntyped (fst e) in_urn s d)], []) else ([], []))
           | (None, None) \<Rightarrow> ([], []))
      | Timer _ \<Rightarrow>
          (case map_of in_types (fst e) of
             None \<Rightarrow> ([], [])
           | Some expected \<Rightarrow>
               (let timer_urn = (case map_of timer_types (fst e) of None \<Rightarrow> TIMER_TYPE | Some t \<Rightarrow> t)
                in if is_compatible graph timer_urn expected then ([], [])
                   else ([(nid, TimerMismatch (fst e) timer_urn expected)], [])))
      | Logs _ \<Rightarrow> ([], []))"

definition check_edges ::
    "string \<Rightarrow> node_run_config \<Rightarrow> output_types_map \<Rightarrow> compat_graph \<Rightarrow> type_registry \<Rightarrow> bool
     \<Rightarrow> type_warning list \<times> type_inference list" where
  "check_edges nid r otm graph reg strict =
     (let rs = map (check_edge nid (input_types r) otm (timer_input_types (inputs r)) graph reg strict) (inputs r)
      in (concat (map fst rs), concat (map snd rs)))"

text \<open>The annotations of a node, of its single operator or of one of its operators: the warnings of one section.\<close>

definition check_section ::
    "string \<Rightarrow> node_run_config \<Rightarrow> (data_id \<times> string list) list \<Rightarrow> string option \<Rightarrow> type_registry
     \<Rightarrow> type_warning list" where
  "check_section label r metadata pat reg =
     check_port_types label (output_types r) (\<lambda>k. k \<in> set (outputs r)) ''output'' reg @
     check_port_types label (input_types r) (\<lambda>k. map_of (inputs r) k \<noteq> None) ''input'' reg @
     check_metadata_annotations label metadata pat (outputs r)"

definition section_warnings :: "type_registry \<Rightarrow> node \<Rightarrow> type_warning list" where
  "section_warnings reg n =
     (let nid = node_name (id_of n) in
      check_section nid (node_run n) (output_metadata n) (pattern n) reg @
      (case operator n of
         None \<Rightarrow> []
       | Some op \<Rightarrow>
           check_section nid (op_run (sop_config op)) (op_output_metadata (sop_config op))
             (op_pattern (sop_config op)) reg) @
      (case operators n of
         None \<Rightarrow> []
       | Some ops \<Rightarrow> concat (map (\<lambda>od.
           check_section (nid @ ''/'' @ operator_name (op_id od)) (op_run (op_config od))
             (op_output_metadata (op_config od)) (op_pattern (op_config od)) reg) ops)))"

text \<open>The known types of all outputs, under the node and the name by which an edge refers to them.\<close>

definition register_outputs ::
    "type_registry \<Rightarrow> string \<Rightarrow> string \<Rightarrow> node_run_config \<Rightarrow> output_types_map \<Rightarrow> output_types_map" where
  "register_outputs reg nid prefix r otm =
     fold (\<lambda>(k, urn) m. if registry_resolve reg urn \<noteq> None
       then bt_insert (nid, prefix @ data_name k) urn m else m) (output_types r) otm"

definition register_node :: "type_registry \<Rightarrow> node \<Rightarrow> output_types_map \<Rightarrow> output_types_map" where
  "register_node reg n otm =
     (let nid = node_name (id_of n);
          otm1 = register_outputs reg nid [] (node_run n) otm;
          otm2 = (case operator n of
              None \<Rightarrow> otm1
            | Some op \<Rightarrow>
                register_outputs reg nid (operator_name (operator_id_or_default op) @ ''/'')
                  (op_run (sop_config op)) otm1)
      in (case operators n of
            None \<Rightarrow> otm2
          | Some ops \<Rightarrow> fold (\<lambda>od. register_outputs reg nid (operator_name (op_id od) @ ''/'')
              (op_run (op_config od))) ops otm2))"

definition output_type_map :: "type_registry \<Rightarrow> node list \<Rightarrow> output_types_map" where
  "output_type_map reg ns = fold (register_node reg) ns []"

definition node_edges ::
    "output_types_map \<Rightarrow> compat_graph \<Rightarrow> type_registry \<Rightarrow> bool \<Rightarrow> node
     \<Rightarrow> (type_warning list \<times> type_inference list) list" where
  "node_edges otm graph reg strict n =
     (let nid = node_name (id_of n) in
      [check_edges nid (node_run n) otm graph reg strict] @
      (case operator n of
         None \<Rightarrow> []
       | Some op \<Rightarrow> [check_edges nid (op_run (sop_config op)) otm graph reg strict]) @
      (case operators n of
         None \<Rightarrow> []
       | Some ops \<Rightarrow> map (\<lambda>od. check_edges (nid @ ''/'' @ operator_name (op_id od)) (op_run (op_config od))
           otm graph reg strict) ops))"

definition check_type_annotations_full ::
    "descriptor \<Rightarrow> type_registry \<Rightarrow> bool \<Rightarrow> type_warning list \<times> type_inference list" where
  "check_type_annotations_full d reg strict =
     (let graph = compat_graph_new (type_rules d);
          otm = output_type_map reg (nodes d);
          es = concat (map (node_edges otm graph reg strict) (nodes d))
      in (concat (map (section_warnings reg) (nodes d)) @ concat (map fst es), concat (map snd es)))"

definition check_type_annotations :: "descriptor \<Rightarrow> type_registry \<Rightarrow> type_warning list" where
  "check_type_annotations d reg = fst (check_type_annotations_full d reg False)"

section \<open>Wiring: what passing the check means\<close>

definition resolved_runs :: "resolved_node \<Rightarrow> node_run_config list" where
  "resolved_runs n =
     (case rn_kind n of Custom c \<Rightarrow> [run_config c] | Runtime ops \<Rightarrow> map (\<lambda>od. op_run (op_config od)) ops)"

text \<open>The outputs of a resolved node, under the names by which inputs refer to them.\<close>

definition provides :: "resolved_node \<Rightarrow> data_id \<Rightarrow> bool" where
  "provides n out \<longleftrightarrow>
     (case rn_kind n of
        Custom c \<Rightarrow> out \<in> set (outputs (run_config c))
      | Runtime ops \<Rightarrow>
          (\<exists>od d. find (\<lambda>x. op_id x = op_id od) ops = Some od \<and> d \<in> set (outputs (op_run (op_config od))) \<and>
            valid_data_id (data_name d) \<and> CHR ''/'' \<notin> set (operator_name (op_id od)) \<and>
            data_name out = operator_name (op_id od) @ ''/'' @ data_name d))"

definition fed :: "resolved_nodes \<Rightarrow> input \<Rightarrow> bool" where
  "fed rns i \<longleftrightarrow>
     (case mapping i of User s out \<Rightarrow> (\<exists>n. map_of rns s = Some n \<and> provides n out) | _ \<Rightarrow> True)"

lemma map_err_simps [simp]:
  "map_err g x = Ok y \<longleftrightarrow> x = Ok y" "map_err g x = Panic \<longleftrightarrow> x = Panic"
  by (cases x; simp)+

lemma check_runtime_output_Ok:
  "check_runtime_output ops s out str = Ok () \<longleftrightarrow>
    (\<exists>od d. find (\<lambda>x. op_id x = op_id od) ops = Some od \<and> d \<in> set (outputs (op_run (op_config od))) \<and>
      valid_data_id (data_name d) \<and> CHR ''/'' \<notin> set (operator_name (op_id od)) \<and>
      data_name out = operator_name (op_id od) @ ''/'' @ data_name d)" (is "?l \<longleftrightarrow> ?r")
proof
  assume l: ?l
  have slash: "split_once (CHR ''/'') (data_name out) \<noteq> None"
  proof
    assume "split_once (CHR ''/'') (data_name out) = None"
    with l show False by (auto simp: check_runtime_output_def valid_data_id_def valid_node_id_def)
  qed
  then obtain a b where ab: "split_once (CHR ''/'') (data_name out) = Some (a, b)" by fast
  with l obtain od where "valid_data_id b" and od: "find (\<lambda>x. op_id x = OperatorId a) ops = Some od"
      and "DataId b \<in> set (outputs (op_run (op_config od)))"
    by (auto simp: check_runtime_output_def operator_id_from_def split: if_splits)
  moreover from find_SomeD[OF od] have "op_id od = OperatorId a" by simp
  ultimately show ?r using ab
    by (intro exI[of _ od] exI[of _ "DataId b"]) (simp add: split_once_Some)
next
  assume ?r
  then obtain od d where r: "find (\<lambda>x. op_id x = op_id od) ops = Some od" "d \<in> set (outputs (op_run (op_config od)))"
      "valid_data_id (data_name d)" "CHR ''/'' \<notin> set (operator_name (op_id od))"
      "data_name out = operator_name (op_id od) @ ''/'' @ data_name d" by blast
  have "split_once (CHR ''/'') (data_name out) = Some (operator_name (op_id od), data_name d)"
    using r by (simp add: split_once_Some)
  with r show ?l by (simp add: check_runtime_output_def operator_id_from_def)
qed

lemma check_input_Ok:
  assumes "\<forall>(k, n) \<in> set rns. rn_id n = k"
  shows "check_input rns i str = Ok () \<longleftrightarrow> fed rns i"
proof (cases "mapping i")
  case (User s out)
  have "find (\<lambda>n. rn_id n = s) (map snd rns) = map_of rns s"
    using assms by (induction rns) auto
  with User show ?thesis
    by (auto simp: check_input_def fed_def provides_def check_runtime_output_Ok
        split: core_node_kind.splits if_splits)
qed (simp_all add: check_input_def fed_def)

lemma check_node_inputs_Ok:
  assumes "\<forall>(k, n) \<in> set rns. rn_id n = k"
  shows "check_node_inputs rns n = Ok () \<longleftrightarrow> (\<forall>r \<in> set (resolved_runs n). \<forall>(k, i) \<in> set (inputs r). fed rns i)"
  by (simp add: check_node_inputs_def resolved_runs_def try_each_Ok check_input_Ok[OF assms] case_prod_beta
      split: core_node_kind.splits)

lemma resolve_keys:
  assumes "resolve_aliases_and_set_defaults json d = Ok rns"
  shows "\<forall>(k, n) \<in> set rns. rn_id n = k"
proof (rule try_fold_invariant[OF assms[unfolded resolve_aliases_and_set_defaults_def Let_def]])
  fix n m m'
  assume m: "\<forall>(k, r) \<in> set m. rn_id r = k"
    and "and_then (resolve_node json (desc_env d) (single_operator_nodes (nodes d)) n) (\<lambda>r. Ok (bt_insert (id_of n) r m)) = Ok m'"
  then obtain r where r: "resolve_node json (desc_env d) (single_operator_nodes (nodes d)) n = Ok r"
      and m': "m' = bt_insert (id_of n) r m" by auto
  from r have r: "rn_id r = id_of n" by (auto simp: resolve_node_def)
  have "set m' \<subseteq> insert (id_of n, r) (set m)" unfolding m' by (rule set_bt_insert_subset)
  with m r show "\<forall>(k, r) \<in> set m'. rn_id r = k" by fastforce
qed simp

section \<open>Type annotations: when a dataflow is clean\<close>

definition edge_clean :: "node_run_config \<Rightarrow> output_types_map \<Rightarrow> compat_graph \<Rightarrow> bool \<Rightarrow> data_id \<Rightarrow> input \<Rightarrow> bool" where
  "edge_clean r otm g strict k i \<longleftrightarrow>
     (\<forall>expected. map_of (input_types r) k = Some expected \<longrightarrow>
       (case mapping i of
          User s d \<Rightarrow>
            (case map_of otm (node_name s, data_name d) of
               Some actual \<Rightarrow> is_compatible g actual expected | None \<Rightarrow> \<not> strict)
        | Timer _ \<Rightarrow> is_compatible g TIMER_TYPE expected
        | Logs _ \<Rightarrow> True))"

definition section_clean :: "type_registry \<Rightarrow> node_run_config \<Rightarrow> (data_id \<times> string list) list \<Rightarrow> string option \<Rightarrow> bool" where
  "section_clean reg r md pat \<longleftrightarrow>
     (\<forall>(k, urn) \<in> set (output_types r). k \<in> set (outputs r) \<and> registry_resolve reg urn \<noteq> None) \<and>
     (\<forall>(k, urn) \<in> set (input_types r). map_of (inputs r) k \<noteq> None \<and> registry_resolve reg urn \<noteq> None) \<and>
     fst ` set md \<subseteq> set (outputs r) \<and> (\<forall>p. pat = Some p \<longrightarrow> pattern_metadata_keys p \<noteq> None)"

text \<open>The annotated sections of a node: its own, its single operator's, its operators'.\<close>

definition node_sections :: "node \<Rightarrow> (node_run_config \<times> (data_id \<times> string list) list \<times> string option) list" where
  "node_sections n =
     (node_run n, output_metadata n, pattern n) #
     map (\<lambda>c. (op_run c, op_output_metadata c, op_pattern c))
       ((case operator n of None \<Rightarrow> [] | Some op \<Rightarrow> [sop_config op]) @
        (case operators n of None \<Rightarrow> [] | Some ops \<Rightarrow> map op_config ops))"

lemma timer_input_types_fold:
  "map_of (fold (\<lambda>(k, i) r. case mapping i of Timer _ \<Rightarrow> bt_insert k TIMER_TYPE r | _ \<Rightarrow> r) m r0) k \<in>
    {map_of r0 k, Some TIMER_TYPE}"
proof (induction m arbitrary: r0)
  case (Cons e m)
  obtain k' i where e: "e = (k', i)" by fastforce
  show ?case
  proof (cases "mapping i")
    case (Timer t)
    with Cons[of "bt_insert k' TIMER_TYPE r0"] show ?thesis by (auto simp: e split: if_splits)
  qed (use Cons[of r0] in \<open>auto simp: e\<close>)
qed simp

lemma timer_input_types_value:
  "(case map_of (timer_input_types m) k of None \<Rightarrow> TIMER_TYPE | Some t \<Rightarrow> t) = TIMER_TYPE"
  using timer_input_types_fold[of m "[]" k] by (auto simp: timer_input_types_def)

lemma check_edge_clean:
  "fst (check_edge nid (input_types r) otm (timer_input_types m) g reg strict (k, i)) = [] \<longleftrightarrow>
    edge_clean r otm g strict k i"
  by (simp add: check_edge_def edge_clean_def timer_input_types_value Let_def
      split: input_mapping.splits option.splits)

lemma check_section_clean:
  "check_section label r md pat reg = [] \<longleftrightarrow> section_clean reg r md pat"
  by (auto simp: check_section_def section_clean_def check_port_types_def check_metadata_annotations_def
      filter_empty_conv split: option.splits if_splits)
definition registered :: "output_types_map \<Rightarrow> string \<Rightarrow> string \<Rightarrow> bool" where
  "registered otm x y \<longleftrightarrow> map_of otm (x, y) \<noteq> None"

text \<open>Which names a section registers: behind the given prefix only.\<close>

lemma registered_outputs:
  assumes "registered (register_outputs reg nid prefix r otm) x y"
  shows "registered otm x y \<or> x = nid \<and> (\<exists>k \<in> fst ` set (output_types r). y = prefix @ data_name k)"
proof -
  have "registered (fold (\<lambda>(k, urn) m. if registry_resolve reg urn \<noteq> None
      then bt_insert (nid, prefix @ data_name k) urn m else m) xs otm) x y \<Longrightarrow>
      registered otm x y \<or> x = nid \<and> (\<exists>k \<in> fst ` set xs. y = prefix @ data_name k)" for xs
  proof (induction xs arbitrary: otm)
    case (Cons e xs)
    obtain k urn where e: "e = (k, urn)" by fastforce
    show ?case
      using Cons.prems Cons.IH[of otm] Cons.IH[of "bt_insert (nid, prefix @ data_name k) urn otm"]
      by (auto simp: e registered_def split: if_splits)
  qed simp
  then show ?thesis using assms by (simp add: register_outputs_def)
qed

lemma registered_operators:
  "registered (fold (\<lambda>od. register_outputs reg nid (f od) (g od)) ops otm) x y \<Longrightarrow> registered otm x y \<or> x = nid"
  by (induction ops arbitrary: otm) (force dest: registered_outputs)+

lemma registered_node:
  assumes "registered (register_node reg n otm) x y"
  shows "registered otm x y \<or> x = node_name (id_of n)"
  using assms by (auto simp: register_node_def Let_def split: option.splits dest!: registered_operators registered_outputs)

text \<open>An operator's outputs are registered behind the operator's name.\<close>

lemma registered_single_operator:
  assumes "registered (register_node reg n otm) x y" "operators n = None" "output_types (node_run n) = []"
  shows "registered otm x y \<or> CHR ''/'' \<in> set y"
  using assms by (auto simp: register_node_def Let_def split: option.splits dest!: registered_outputs)

lemma registered_output_type_map:
  assumes "registered (output_type_map reg ns) x y"
  shows "\<exists>n \<in> set ns. x = node_name (id_of n) \<and>
    (operators n = None \<and> output_types (node_run n) = [] \<longrightarrow> CHR ''/'' \<in> set y)"
proof -
  have "registered (fold (register_node reg) ns otm) x y \<Longrightarrow> registered otm x y \<or>
      (\<exists>n \<in> set ns. x = node_name (id_of n) \<and>
        (operators n = None \<and> output_types (node_run n) = [] \<longrightarrow> CHR ''/'' \<in> set y))" for otm
  proof (induction ns arbitrary: otm)
    case (Cons n ns)
    from Cons.IH[of "register_node reg n otm"] Cons.prems
    consider "registered (register_node reg n otm) x y"
      | "\<exists>n \<in> set ns. x = node_name (id_of n) \<and>
          (operators n = None \<and> output_types (node_run n) = [] \<longrightarrow> CHR ''/'' \<in> set y)" by auto
    then show ?case
    proof cases
      case 1
      from registered_node[OF 1] registered_single_operator[OF 1] show ?thesis by auto
    qed auto
  qed simp
  from this[of "[]"] assms show ?thesis by (simp add: output_type_map_def registered_def)
qed
section \<open>Properties\<close>

text \<open>
  C1. The wiring check accepts a dataflow exactly when its aliases resolve and every input of every node and
  operator is fed: a user input names an existing node and an output that this node, or the operator named
  in front of the output, declares.
\<close>

theorem check_wiring_iff:
  "check_wiring json d = Ok () \<longleftrightarrow>
    (\<exists>rns. resolve_aliases_and_set_defaults json d = Ok rns \<and>
      (\<forall>n \<in> snd ` set rns. \<forall>r \<in> set (resolved_runs n). \<forall>(k, i) \<in> set (inputs r). fed rns i))"
proof (cases "resolve_aliases_and_set_defaults json d")
  case (Ok rns)
  from check_node_inputs_Ok[OF resolve_keys[OF Ok]] show ?thesis
    by (simp add: check_wiring_def Ok try_each_Ok)
qed (simp_all add: check_wiring_def)

definition wired_dataflow :: descriptor where
  "wired_dataflow = example_descriptor
     [example_node ''cam'' ''cam.py'' (example_run [] [''img'']),
      example_node ''show'' ''show.py'' (example_run [(''i'', user_input ''cam'' ''img'')] [])]"

lemma wired_checks: "check_wiring (\<lambda>_. []) wired_dataflow = Ok ()"
  by (simp add: check_wiring_def resolve_aliases_and_set_defaults_def wired_dataflow_def example_descriptor_def
      example_node_def single_operator_nodes_def resolve_node_def resolve_kind_def kind_of_def standard_source_def
      alias_run_def alias_inputs_def alias_input_def example_run_def empty_run_def user_input_def custom_of_node_def
      check_node_inputs_def check_input_def merge_env_def)

theorem check_wiring_iff_witness:
  "\<exists>rns. resolve_aliases_and_set_defaults (\<lambda>_. []) wired_dataflow = Ok rns \<and>
    list_all (\<lambda>n. list_all (\<lambda>r. list_all (\<lambda>(k, i). fed rns i) (inputs r)) (resolved_runs n)) (map snd rns)"
  using iffD1[OF check_wiring_iff wired_checks] by (simp add: list_all_iff)

text \<open>
  The check of one input panics, instead of reporting an error, exactly when the source is a node with
  operators and the output is written without the name of an operator.
\<close>

theorem check_input_panics_iff:
  assumes "mapping i = User s out" and "valid_data_id (data_name out)"
  shows "check_input rns i str = Panic \<longleftrightarrow>
    (\<exists>n ops. find (\<lambda>n. rn_id n = s) (map snd rns) = Some n \<and> rn_kind n = Runtime ops \<and>
      CHR ''/'' \<notin> set (data_name out))"
proof -
  have "check_runtime_output ops s out str = Panic \<longleftrightarrow> CHR ''/'' \<notin> set (data_name out)" for ops
  proof (cases "split_once (CHR ''/'') (data_name out)")
    case None
    then show ?thesis by (simp add: check_runtime_output_def valid_data_id_def valid_node_id_def)
  next
    case (Some p)
    obtain a b where p: "p = (a, b)" by fastforce
    with Some have ab: "data_name out = a @ CHR ''/'' # b" "CHR ''/'' \<notin> set a" by (auto simp: split_once_Some)
    then have "valid_data_id b" using assms(2) by (simp add: valid_data_id_def split_on_append_sep)
    moreover have "CHR ''/'' \<in> set (data_name out)" by (simp add: ab)
    ultimately show ?thesis using Some p by (auto simp: check_runtime_output_def split: if_splits)
  qed
  note rt = this
  show ?thesis
  proof (cases "find (\<lambda>n. rn_id n = s) (map snd rns)")
    case (Some n)
    with assms(1) rt show ?thesis by (cases "rn_kind n") (simp_all add: check_input_def)
  qed (simp add: check_input_def assms(1))
qed

definition operator_source_node :: resolved_node where
  "operator_source_node =
     \<lparr>rn_id = NodeId ''rt'', rn_name = None, rn_description = None, rn_env = None, rn_cpu_affinity = None,
      rn_deploy = None, rn_kind = Runtime []\<rparr>"

theorem check_input_panics_iff_witness:
  "check_input [(NodeId ''rt'', operator_source_node)] (user_input ''rt'' ''out'') ''show/i'' = Panic"
  using check_input_panics_iff[of "user_input ''rt'' ''out''" "NodeId ''rt''" "DataId ''out''"
      "[(NodeId ''rt'', operator_source_node)]" "''show/i''"]
  by (simp add: user_input_def operator_source_node_def valid_data_id_def valid_node_id_def node_id_char_def
      char_class_defs)

lemma position_append_left: "(\<forall>x \<in> set xs. \<not> P x) \<Longrightarrow> ys \<noteq> [] \<Longrightarrow> P (hd ys) \<Longrightarrow> position P (xs @ ys) = Some (length xs)"
  by (induction xs) (auto simp: neq_Nil_conv)

lemma trim_no_space: "(\<forall>c \<in> set s. \<not> is_whitespace c) \<Longrightarrow> trim s = s"
proof -
  have drop: "dropWhile is_whitespace t = t" if "\<forall>c \<in> set t. \<not> is_whitespace c" for t
    using that by (cases t) auto
  assume "\<forall>c \<in> set s. \<not> is_whitespace c"
  then show ?thesis using drop[of s] drop[of "rev s"] by (simp add: trim_def trim_start_def)
qed

text \<open>
  A size written as a whole number and a unit is the product of the two when it fits 64 bits. A larger one
  makes a build with overflow checks panic and is silently reduced modulo 2^64 in a build without them;
  it is never reported as an error.
\<close>

theorem parse_byte_size_units:
  assumes "n \<le> u64_max" and "unit \<noteq> []" and "list_all is_ascii_alphabetic unit"
    and "byte_unit (to_uppercase unit) = Some factor"
  shows "parse_byte_size checks (show_nat n @ unit) =
    (if n * factor \<le> u64_max then Ok (n * factor) else if checks then Panic else Ok (n * factor mod 2 ^ 64))"
proof -
  have digits: "\<forall>c \<in> set (show_nat n). \<not> is_ascii_alphabetic c \<and> \<not> is_whitespace c"
    using show_nat_digits by (fastforce simp: char_class_defs)
  have letters: "\<forall>c \<in> set unit. \<not> is_whitespace c" "is_ascii_alphabetic (hd unit)"
    using assms(2,3) by (auto simp: list_all_iff char_class_defs)
  have "trim (show_nat n @ unit) = show_nat n @ unit" "trim (show_nat n) = show_nat n" "trim unit = unit"
    using digits letters by (auto intro!: trim_no_space)
  moreover have "position is_ascii_alphabetic (show_nat n @ unit) = Some (length (show_nat n))"
    using digits letters assms(2) by (intro position_append_left) auto
  ultimately show ?thesis
    using assms(1,4) by (simp add: parse_byte_size_def u64_mul_def)
qed

theorem parse_byte_size_units_witness:
  "parse_byte_size False (show_nat 17179869184 @ ''GB'') = Ok 0 \<and>
   parse_byte_size True (show_nat 17179869184 @ ''GB'') = Panic \<and>
   parse_byte_size False (show_nat 50 @ ''MB'') = Ok 52428800"
  using parse_byte_size_units[of 17179869184 "''GB''" 1073741824 False]
    parse_byte_size_units[of 17179869184 "''GB''" 1073741824 True]
    parse_byte_size_units[of 50 "''MB''" 1048576 False]
  by (simp add: byte_unit_def to_uppercase_def char_class_defs)


text \<open>A registry of two types, and a dataflow whose operator sends the one where the other is expected.\<close>

definition two_types :: type_registry where
  "two_types =
     [(''std/core/v1/Float32'', \<lparr>arrow = ''Float32'', type_params = [], type_fields = [], type_metadata = []\<rparr>),
      (''std/core/v1/String'', \<lparr>arrow = ''Utf8'', type_params = [], type_fields = [], type_metadata = []\<rparr>)]"

definition typed_consumer :: node where
  "typed_consumer = example_node ''show'' ''show.py''
     ((example_run [(''i'', user_input ''cam'' ''img'')] [])\<lparr>input_types := [(DataId ''i'', ''std/core/v1/String'')]\<rparr>)"

definition typed_dataflow :: descriptor where
  "typed_dataflow = example_descriptor
     [example_node ''cam'' ''cam.py'' ((example_run [] [''img''])\<lparr>output_types := [(DataId ''img'', ''std/core/v1/String'')]\<rparr>),
      typed_consumer]"

definition mistyped_dataflow :: descriptor where
  "mistyped_dataflow = example_descriptor
     [example_operator_node ''cam'' ''op''
        ((example_run [] [''img''])\<lparr>output_types := [(DataId ''img'', ''std/core/v1/Float32'')]\<rparr>),
      typed_consumer]"

lemmas typed_eval =
  two_types_def typed_consumer_def example_descriptor_def example_node_def example_operator_node_def
  example_run_def empty_run_def user_input_def check_type_annotations_full_def section_warnings_def check_section_def
  check_port_types_def check_metadata_annotations_def registry_resolve_def output_type_map_def register_node_def
  register_outputs_def node_edges_def check_edges_def check_edge_def timer_input_types_def operator_id_or_default_def

lemma typed_dataflow_clean: "fst (check_type_annotations_full typed_dataflow two_types True) = []"
  by (simp add: typed_eval typed_dataflow_def is_compatible_def Let_def parse_urn_def)


text \<open>
  The output of a single-operator node is never type-checked: an edge names it by the node and the
  output alone, its type is recorded behind the operator's name, so the edge finds no type and, outside strict mode,
  gives no warning whatever type the input expects.
\<close>

theorem single_operator_edges_unchecked:
  assumes "\<forall>m \<in> set ns. id_of m = id_of n \<longrightarrow> m = n" and "kind_of n = Ok (KOperator op)"
    and "output_types (node_run n) = []"
    and "mapping i = User (id_of n) out" and "CHR ''/'' \<notin> set (data_name out)"
  shows "fst (check_edge nid in_types (output_type_map reg ns) timer_types g reg False (k, i)) = []"
proof -
  have ops: "operators n = None" using assms(2) by (auto simp: kind_of_def split: option.splits)
  have "map_of (output_type_map reg ns) (node_name (id_of n), data_name out) = None"
  proof (rule ccontr)
    assume "map_of (output_type_map reg ns) (node_name (id_of n), data_name out) \<noteq> None"
    then obtain m where "m \<in> set ns" "node_name (id_of n) = node_name (id_of m)"
        "operators m = None \<and> output_types (node_run m) = [] \<longrightarrow> CHR ''/'' \<in> set (data_name out)"
      using registered_output_type_map by (metis registered_def)
    with assms ops show False by (metis node_id.expand)
  qed
  with assms(4) show ?thesis by (simp add: check_edge_def split: option.splits)
qed

theorem single_operator_edges_unchecked_witness:
  "fst (check_edge ''show'' [(DataId ''i'', ''std/core/v1/String'')] (output_type_map two_types (nodes mistyped_dataflow))
     [] (compat_graph_new []) two_types False (DataId ''i'', user_input ''cam'' ''img'')) = [] \<and>
   \<not> is_compatible (compat_graph_new []) ''std/core/v1/Float32'' ''std/core/v1/String''"
proof
  show "fst (check_edge ''show'' [(DataId ''i'', ''std/core/v1/String'')] (output_type_map two_types (nodes mistyped_dataflow))
     [] (compat_graph_new []) two_types False (DataId ''i'', user_input ''cam'' ''img'')) = []"
    by (rule single_operator_edges_unchecked[where n = "hd (nodes mistyped_dataflow)" and out = "DataId ''img''"
          and op = "the (operator (hd (nodes mistyped_dataflow)))"])
      (simp_all add: mistyped_dataflow_def typed_eval kind_of_def)
  show "\<not> is_compatible (compat_graph_new []) ''std/core/v1/Float32'' ''std/core/v1/String''"
    by (simp add: is_compatible_def parse_urn_def compat_graph_new_def builtin_rules_def add_rule_def bt_entry_def neighbors_def)
qed
end
