(* ===== verification/Pending_Nodes.thy ===== *)
theory Pending_Nodes
  imports Std_Maps Ids
begin

text \<open>
  The start barrier of a dataflow on one daemon (\<^verbatim>\<open>binaries/daemon/src/pending.rs\<close>) and the
  record of cascading errors (\<^verbatim>\<open>binaries/daemon/src/fault_tolerance.rs\<close>). A subscribe request
  blocks its node until every local node has subscribed or exited and, when other machines take
  part, until the coordinator reports that their nodes are ready too.

  A reply channel is a number. The replies sent, the reply channels dropped without an answer and
  the messages sent to the coordinator are logs of the state. The connection to the coordinator is
  a parameter: \<open>None\<close> when there is none, \<open>Some\<close> of whether sending on it succeeds.
\<close>

section \<open>State\<close>

record pending_nodes =
  local_nodes :: "node_id list"
  external_nodes :: bool
  waiting_subscribers :: "(node_id \<times> nat) list"
  exited_before_subscribe :: "node_id list"
  reported_init_to_coordinator :: bool
  caused_by :: "(node_id \<times> node_id) list"
  replies :: "(nat \<times> node_id option) list"
  dropped_replies :: "nat list"
  ready_reports :: "node_id list list"

datatype dataflow_status = AllNodesReady | StillPending

datatype pending_error = NoCoordinatorSender | SendFailed

definition pending_new :: pending_nodes where
  "pending_new =
     \<lparr>local_nodes = [], external_nodes = False, waiting_subscribers = [],
      exited_before_subscribe = [], reported_init_to_coordinator = False, caused_by = [],
      replies = [], dropped_replies = [], ready_reports = []\<rparr>"

definition pending_insert :: "node_id \<Rightarrow> pending_nodes \<Rightarrow> pending_nodes" where
  "pending_insert n p = p\<lparr>local_nodes := bs_insert n (local_nodes p)\<rparr>"

definition set_external_nodes :: "bool \<Rightarrow> pending_nodes \<Rightarrow> pending_nodes" where
  "set_external_nodes v p = p\<lparr>external_nodes := v\<rparr>"

definition local_nodes_pending :: "pending_nodes \<Rightarrow> bool" where
  "local_nodes_pending p \<longleftrightarrow> local_nodes p \<noteq> []"

section \<open>Cascading errors\<close>

definition report_cascading_error ::
    "node_id \<Rightarrow> node_id \<Rightarrow> (node_id \<times> node_id) list \<Rightarrow> (node_id \<times> node_id) list" where
  "report_cascading_error causing affected m = bt_entry affected causing (\<lambda>c. c) m"

definition error_caused_by :: "(node_id \<times> node_id) list \<Rightarrow> node_id \<Rightarrow> node_id option" where
  "error_caused_by m n = map_of m n"

definition experienced_cascading_error :: "(node_id \<times> node_id) list \<Rightarrow> node_id \<Rightarrow> bool" where
  "experienced_cascading_error m n \<longleftrightarrow> map_of m n \<noteq> None"

section \<open>Operations\<close>

text \<open>The reply is \<open>None\<close> for success, or the node that exited too early.\<close>

definition exit_cause :: "node_id list \<Rightarrow> pending_nodes \<Rightarrow> node_id option" where
  "exit_cause external p =
     (case exited_before_subscribe p of
        n # _ \<Rightarrow> Some n
      | [] \<Rightarrow> (case external of n # _ \<Rightarrow> Some n | [] \<Rightarrow> None))"

definition answer_subscribe_requests :: "node_id list \<Rightarrow> pending_nodes \<Rightarrow> pending_nodes" where
  "answer_subscribe_requests external p =
     (let cause = exit_cause external p
      in p\<lparr>waiting_subscribers := [],
           caused_by :=
             (case cause of
                None \<Rightarrow> caused_by p
              | Some c \<Rightarrow>
                  fold (\<lambda>(n, s). report_cascading_error c n) (waiting_subscribers p) (caused_by p)),
           replies := replies p @ map (\<lambda>(n, s). (s, cause)) (waiting_subscribers p)\<rparr>)"

definition report_nodes_ready ::
    "bool option \<Rightarrow> pending_nodes \<Rightarrow> (pending_error, unit) outcome \<times> pending_nodes" where
  "report_nodes_ready link p =
     (case link of
        None \<Rightarrow> (Err NoCoordinatorSender, p)
      | Some sent \<Rightarrow>
          if sent
          then (Ok (), p\<lparr>ready_reports := ready_reports p @ [exited_before_subscribe p]\<rparr>)
          else (Err SendFailed, p))"

definition update_dataflow_status ::
    "bool option \<Rightarrow> pending_nodes \<Rightarrow> (pending_error, dataflow_status) outcome \<times> pending_nodes" where
  "update_dataflow_status link p =
     (if local_nodes p = [] then
        if external_nodes p then
          if reported_init_to_coordinator p then (Ok StillPending, p)
          else (case report_nodes_ready link p of
              (Ok _, p') \<Rightarrow> (Ok StillPending, p'\<lparr>reported_init_to_coordinator := True\<rparr>)
            | (Err e, p') \<Rightarrow> (Err e, p')
            | (Panic, p') \<Rightarrow> (Panic, p'))
        else (Ok AllNodesReady, answer_subscribe_requests [] p)
      else (Ok StillPending, p))"

definition handle_node_subscription ::
    "bool option \<Rightarrow> node_id \<Rightarrow> nat \<Rightarrow> pending_nodes \<Rightarrow>
     (pending_error, dataflow_status) outcome \<times> pending_nodes" where
  "handle_node_subscription link n sender p =
     update_dataflow_status link
       (p\<lparr>waiting_subscribers := hm_insert n sender (waiting_subscribers p),
          dropped_replies :=
            (case map_of (waiting_subscribers p) n of
               None \<Rightarrow> dropped_replies p
             | Some s \<Rightarrow> dropped_replies p @ [s]),
          local_nodes := bs_remove n (local_nodes p)\<rparr>)"

definition pending_node_stop ::
    "bool option \<Rightarrow> node_id \<Rightarrow> pending_nodes \<Rightarrow> (pending_error, unit) outcome \<times> pending_nodes" where
  "pending_node_stop link n p =
     (if n \<in> set (local_nodes p) then
        case update_dataflow_status link
               (p\<lparr>local_nodes := bs_remove n (local_nodes p),
                  exited_before_subscribe := exited_before_subscribe p @ [n]\<rparr>) of
          (Ok _, p') \<Rightarrow> (Ok (), p')
        | (Err e, p') \<Rightarrow> (Err e, p')
        | (Panic, p') \<Rightarrow> (Panic, p')
      else (Ok (), p))"

fun pending_dataflow_stop ::
    "bool option \<Rightarrow> node_id list \<Rightarrow> pending_nodes \<Rightarrow> (pending_error, unit) outcome \<times> pending_nodes" where
  "pending_dataflow_stop link [] p = (Ok (), p)"
| "pending_dataflow_stop link (n # ns) p =
     (if n \<in> set (local_nodes p) then
        case update_dataflow_status link (p\<lparr>local_nodes := bs_remove n (local_nodes p)\<rparr>) of
          (Ok _, p') \<Rightarrow> pending_dataflow_stop link ns p'
        | (Err e, p') \<Rightarrow> (Err e, p')
        | (Panic, p') \<Rightarrow> (Panic, p')
      else pending_dataflow_stop link ns p)"

definition handle_external_all_nodes_ready :: "node_id list \<Rightarrow> pending_nodes \<Rightarrow> pending_nodes" where
  "handle_external_all_nodes_ready external p = answer_subscribe_requests external p"

section \<open>Histories of the barrier\<close>

text \<open>What may happen to the barrier of a running dataflow, in any order.\<close>

inductive pending_step :: "bool option \<Rightarrow> pending_nodes \<Rightarrow> pending_nodes \<Rightarrow> bool" for link where
  step_subscribe: "pending_step link p (snd (handle_node_subscription link n s p))"
| step_node_stop: "pending_step link p (snd (pending_node_stop link n p))"
| step_dataflow_stop: "pending_step link p (snd (pending_dataflow_stop link ns p))"
| step_external_ready:
    "external_nodes p \<Longrightarrow> pending_step link p (handle_external_all_nodes_ready ext p)"

definition pending_start :: "node_id list \<Rightarrow> bool \<Rightarrow> pending_nodes" where
  "pending_start ns ext = set_external_nodes ext (fold pending_insert ns pending_new)"

definition verdict :: "pending_nodes \<Rightarrow> node_id option" where
  "verdict p = exit_cause [] p"

definition barrier_inv :: "pending_nodes \<Rightarrow> bool" where
  "barrier_inv p \<longleftrightarrow>
     (if external_nodes p
      then reported_init_to_coordinator p \<longrightarrow>
             local_nodes p = [] \<and> ready_reports p = [exited_before_subscribe p]
      else (local_nodes p = [] \<longrightarrow> waiting_subscribers p = []) \<and>
           (replies p \<noteq> [] \<longrightarrow> local_nodes p = []) \<and>
           (\<forall>r \<in> set (replies p). snd r = verdict p)) \<and>
     (\<not> reported_init_to_coordinator p \<longrightarrow> ready_reports p = [])"

lemma answer_fields [simp]:
  "local_nodes (answer_subscribe_requests e p) = local_nodes p"
  "external_nodes (answer_subscribe_requests e p) = external_nodes p"
  "waiting_subscribers (answer_subscribe_requests e p) = []"
  "exited_before_subscribe (answer_subscribe_requests e p) = exited_before_subscribe p"
  "reported_init_to_coordinator (answer_subscribe_requests e p) = reported_init_to_coordinator p"
  "ready_reports (answer_subscribe_requests e p) = ready_reports p"
  "dropped_replies (answer_subscribe_requests e p) = dropped_replies p"
  "replies (answer_subscribe_requests e p) =
     replies p @ map (\<lambda>(n, s). (s, exit_cause e p)) (waiting_subscribers p)"
  by (simp_all add: answer_subscribe_requests_def Let_def)

lemma verdict_answer [simp]: "verdict (answer_subscribe_requests e p) = verdict p"
  by (simp add: verdict_def exit_cause_def)

lemma update_status_fields [simp]:
  "local_nodes (snd (update_dataflow_status link p)) = local_nodes p"
  "external_nodes (snd (update_dataflow_status link p)) = external_nodes p"
  "exited_before_subscribe (snd (update_dataflow_status link p)) = exited_before_subscribe p"
  "dropped_replies (snd (update_dataflow_status link p)) = dropped_replies p"
  by (auto simp: update_dataflow_status_def report_nodes_ready_def split: option.splits)

text \<open>
  Every operation first moves a node out of the set it waits for and then recomputes the status;
  the status is all that has to restore the invariant.
\<close>

lemma update_status_inv:
  assumes "\<forall>r \<in> set (replies p). \<not> external_nodes p \<longrightarrow> snd r = verdict p"
    and "replies p \<noteq> [] \<longrightarrow> \<not> external_nodes p \<longrightarrow> local_nodes p = []"
    and "external_nodes p \<and> reported_init_to_coordinator p \<longrightarrow>
           local_nodes p = [] \<and> ready_reports p = [exited_before_subscribe p]"
    and "\<not> reported_init_to_coordinator p \<longrightarrow> ready_reports p = []"
  shows "barrier_inv (snd (update_dataflow_status link p))"
proof (cases "local_nodes p = [] \<and> \<not> external_nodes p")
  case True
  then show ?thesis
    using assms
    by (auto simp: update_dataflow_status_def barrier_inv_def) (simp_all add: verdict_def)
next
  case False
  then show ?thesis
    using assms
    by (auto simp: update_dataflow_status_def barrier_inv_def report_nodes_ready_def verdict_def
        exit_cause_def split: option.splits)
qed

lemma pending_start_fields [simp]:
  "external_nodes (pending_start ns ext) = ext"
  "local_nodes (pending_start ns ext) = bs_collect ns"
  "waiting_subscribers (pending_start ns ext) = []"
  "replies (pending_start ns ext) = []"
  "exited_before_subscribe (pending_start ns ext) = []"
  "ready_reports (pending_start ns ext) = []"
  "reported_init_to_coordinator (pending_start ns ext) = False"
  "caused_by (pending_start ns ext) = []"
proof -
  have "fold pending_insert ns p = p\<lparr>local_nodes := fold bs_insert ns (local_nodes p)\<rparr>" for p
    by (induction ns arbitrary: p) (simp_all add: pending_insert_def)
  then have eq: "pending_start ns ext =
      pending_new\<lparr>local_nodes := bs_collect ns, external_nodes := ext\<rparr>"
    by (simp add: pending_start_def set_external_nodes_def pending_new_def)
  show
    "external_nodes (pending_start ns ext) = ext"
    "local_nodes (pending_start ns ext) = bs_collect ns"
    "waiting_subscribers (pending_start ns ext) = []"
    "replies (pending_start ns ext) = []"
    "exited_before_subscribe (pending_start ns ext) = []"
    "ready_reports (pending_start ns ext) = []"
    "reported_init_to_coordinator (pending_start ns ext) = False"
    "caused_by (pending_start ns ext) = []"
    unfolding eq by (simp_all add: pending_new_def)
qed

lemma barrier_inv_start: "barrier_inv (pending_start ns ext)"
  by (simp add: barrier_inv_def)

lemma barrier_inv_subscribe:
  assumes "barrier_inv p"
  shows "barrier_inv (snd (handle_node_subscription link n s p))"
  unfolding handle_node_subscription_def
  using assms by (intro update_status_inv)
    (auto simp: barrier_inv_def verdict_def exit_cause_def split: if_splits)

lemma barrier_inv_node_stop:
  assumes "barrier_inv p"
  shows "barrier_inv (snd (pending_node_stop link n p))"
proof (cases "n \<in> set (local_nodes p)")
  case True
  let ?q = "p\<lparr>local_nodes := bs_remove n (local_nodes p),
              exited_before_subscribe := exited_before_subscribe p @ [n]\<rparr>"
  from True have "local_nodes p \<noteq> []" by auto
  with assms have "barrier_inv (snd (update_dataflow_status link ?q))"
    by (intro update_status_inv)
      (auto simp: barrier_inv_def verdict_def exit_cause_def split: if_splits)
  moreover have "snd (pending_node_stop link n p) = snd (update_dataflow_status link ?q)"
    using True by (auto simp: pending_node_stop_def split: prod.splits outcome.splits)
  ultimately show ?thesis by simp
next
  case False
  with assms show ?thesis by (simp add: pending_node_stop_def)
qed

lemma barrier_inv_dataflow_stop:
  "barrier_inv p \<Longrightarrow> barrier_inv (snd (pending_dataflow_stop link ns p))"
proof (induction ns arbitrary: p)
  case Nil
  then show ?case by simp
next
  case (Cons n ns)
  show ?case
  proof (cases "n \<in> set (local_nodes p)")
    case True
    then have "local_nodes p \<noteq> []" by auto
    with Cons.prems have "barrier_inv (snd (update_dataflow_status link
        (p\<lparr>local_nodes := bs_remove n (local_nodes p)\<rparr>)))"
      by (intro update_status_inv)
        (auto simp: barrier_inv_def verdict_def exit_cause_def split: if_splits)
    with True Cons.IH show ?thesis by (auto split: prod.splits outcome.splits)
  next
    case False
    with Cons show ?thesis by simp
  qed
qed

lemma barrier_inv_external:
  "barrier_inv p \<Longrightarrow> external_nodes p \<Longrightarrow> barrier_inv (handle_external_all_nodes_ready ext p)"
  by (simp add: handle_external_all_nodes_ready_def barrier_inv_def)

lemma barrier_inv_reachable: "(pending_step link)\<^sup>*\<^sup>* p q \<Longrightarrow> barrier_inv p \<Longrightarrow> barrier_inv q"
  by (induction rule: rtranclp_induct)
    (auto elim!: pending_step.cases intro: barrier_inv_subscribe barrier_inv_node_stop
      barrier_inv_dataflow_stop barrier_inv_external)

section \<open>A whole start\<close>

text \<open>The events that decide a start: each node either subscribes or exits before it does.\<close>

datatype barrier_event = Subscribes node_id nat | ExitsEarly node_id

fun event_node :: "barrier_event \<Rightarrow> node_id" where
  "event_node (Subscribes n s) = n"
| "event_node (ExitsEarly n) = n"

fun barrier_apply :: "bool option \<Rightarrow> barrier_event \<Rightarrow> pending_nodes \<Rightarrow> pending_nodes" where
  "barrier_apply link (Subscribes n s) p = snd (handle_node_subscription link n s p)"
| "barrier_apply link (ExitsEarly n) p = snd (pending_node_stop link n p)"

definition barrier_run :: "bool option \<Rightarrow> barrier_event list \<Rightarrow> pending_nodes \<Rightarrow> pending_nodes" where
  "barrier_run link evs p = fold (barrier_apply link) evs p"

fun subscriptions :: "barrier_event list \<Rightarrow> (node_id \<times> nat) list" where
  "subscriptions [] = []"
| "subscriptions (Subscribes n s # evs) = (n, s) # subscriptions evs"
| "subscriptions (ExitsEarly n # evs) = subscriptions evs"

fun early_exits :: "barrier_event list \<Rightarrow> node_id list" where
  "early_exits [] = []"
| "early_exits (Subscribes n s # evs) = early_exits evs"
| "early_exits (ExitsEarly n # evs) = n # early_exits evs"

lemma subscriptions_append [simp]: "subscriptions (xs @ ys) = subscriptions xs @ subscriptions ys"
  by (induction xs rule: subscriptions.induct) auto

lemma early_exits_append [simp]: "early_exits (xs @ ys) = early_exits xs @ early_exits ys"
  by (induction xs rule: early_exits.induct) auto

lemma subscriptions_nodes: "fst ` set (subscriptions evs) \<subseteq> event_node ` set evs"
  by (induction evs rule: subscriptions.induct) auto

lemma hm_insert_absent: "k \<notin> fst ` set m \<Longrightarrow> hm_insert k v m = m @ [(k, v)]"
  by (induction m) auto

text \<open>What the barrier holds after part of the events, while it is still shut.\<close>

definition barrier_held :: "node_id list \<Rightarrow> barrier_event list \<Rightarrow> pending_nodes \<Rightarrow> bool" where
  "barrier_held ns evs p \<longleftrightarrow>
     local_nodes p = filter (\<lambda>n. n \<notin> event_node ` set evs) (bs_collect ns) \<and>
     \<not> external_nodes p \<and> waiting_subscribers p = subscriptions evs \<and>
     exited_before_subscribe p = early_exits evs \<and> replies p = [] \<and> caused_by p = []"

lemma filter_not_Nil: "x \<in> set xs \<Longrightarrow> P x \<Longrightarrow> filter P xs \<noteq> []"
  by (auto simp: filter_empty_conv)

lemma bs_remove_filter: "bs_remove x (filter P xs) = filter (\<lambda>y. P y \<and> y \<noteq> x) xs"
  by (auto simp: bs_remove_def intro: filter_cong)

lemma barrier_moves:
  assumes held: "barrier_held ns evs p" and new: "event_node e \<notin> event_node ` set evs"
    and member: "event_node e \<in> set ns"
  obtains q where "barrier_held ns (evs @ [e]) q"
    "barrier_apply link e p = snd (update_dataflow_status link q)"
proof (cases e)
  case (Subscribes n s)
  let ?q = "p\<lparr>waiting_subscribers := hm_insert n s (waiting_subscribers p),
              dropped_replies := dropped_replies p, local_nodes := bs_remove n (local_nodes p)\<rparr>"
  have fresh: "n \<notin> fst ` set (waiting_subscribers p)"
    using held new Subscribes subscriptions_nodes[of evs] by (auto simp: barrier_held_def)
  then have none: "map_of (waiting_subscribers p) n = None" by (simp add: map_of_eq_None_iff)
  show thesis
  proof (rule that[of ?q])
    show "barrier_held ns (evs @ [e]) ?q"
      using held fresh Subscribes
      by (simp add: barrier_held_def hm_insert_absent bs_remove_filter conj_commute)
    show "barrier_apply link e p = snd (update_dataflow_status link ?q)"
      using none Subscribes by (simp add: handle_node_subscription_def)
  qed
next
  case (ExitsEarly n)
  let ?q = "p\<lparr>local_nodes := bs_remove n (local_nodes p),
              exited_before_subscribe := exited_before_subscribe p @ [n]\<rparr>"
  have "n \<in> set (local_nodes p)"
    using held new member ExitsEarly by (auto simp: barrier_held_def)
  then have "barrier_apply link e p = snd (update_dataflow_status link ?q)"
    using ExitsEarly by (auto simp: pending_node_stop_def split: prod.splits outcome.splits)
  moreover have "barrier_held ns (evs @ [e]) ?q"
    using held ExitsEarly by (simp add: barrier_held_def bs_remove_filter conj_commute)
  ultimately show thesis by (rule that[rotated])
qed

lemma update_held:
  assumes "barrier_held ns evs p" "set ns - event_node ` set evs \<noteq> {}"
  shows "snd (update_dataflow_status link p) = p"
  using assms by (auto simp: barrier_held_def update_dataflow_status_def filter_empty_conv)

lemma barrier_held_prefix:
  assumes "distinct (map event_node evs)" "set (map event_node evs) \<subset> set ns"
  shows "barrier_held ns evs (barrier_run link evs (pending_start ns False))"
  using assms
proof (induction evs rule: rev_induct)
  case Nil
  then show ?case by (simp add: barrier_held_def barrier_run_def)
next
  case (snoc e evs)
  let ?p = "barrier_run link evs (pending_start ns False)"
  have held: "barrier_held ns evs ?p" using snoc by (intro snoc.IH) auto
  obtain q where q: "barrier_held ns (evs @ [e]) q"
      "barrier_apply link e ?p = snd (update_dataflow_status link q)"
    using snoc.prems by (auto intro: barrier_moves[OF held, of e link])
  have "set ns - event_node ` set (evs @ [e]) \<noteq> {}" using snoc.prems(2) by auto
  with q have "barrier_apply link e ?p = q" using update_held[OF q(1)] by simp
  with q show ?case by (simp add: barrier_run_def)
qed

lemma barrier_run_complete:
  assumes "distinct (map event_node evs)" "set (map event_node evs) = set ns" "ns \<noteq> []"
  obtains q where "barrier_held ns evs q"
    "barrier_run link evs (pending_start ns False) = answer_subscribe_requests [] q"
proof -
  from assms obtain evs' e where evs: "evs = evs' @ [e]" by (cases evs rule: rev_cases) auto
  let ?p = "barrier_run link evs' (pending_start ns False)"
  have "set (map event_node evs') \<subset> set ns" using assms evs by auto
  then have held: "barrier_held ns evs' ?p"
    using assms evs by (intro barrier_held_prefix) auto
  obtain q where q: "barrier_held ns evs q"
      "barrier_apply link e ?p = snd (update_dataflow_status link q)"
    using assms evs by (auto intro: barrier_moves[OF held, of e link])
  have "local_nodes q = []" "\<not> external_nodes q"
    using q(1) assms by (auto simp: barrier_held_def)
  then have "snd (update_dataflow_status link q) = answer_subscribe_requests [] q"
    by (simp add: update_dataflow_status_def)
  with q evs show thesis by (intro that[of q]) (simp_all add: barrier_run_def)
qed

text \<open>Causes: every waiting node that had none so far gets the same one.\<close>

lemma map_of_report [simp]:
  "map_of (report_cascading_error c n m) =
     (map_of m)(n \<mapsto> (case map_of m n of None \<Rightarrow> c | Some d \<Rightarrow> d))"
  by (simp add: report_cascading_error_def)

lemma error_caused_by_fold:
  "error_caused_by (fold (\<lambda>(n, s). report_cascading_error c n) ws m) k =
     (case error_caused_by m k of
        Some d \<Rightarrow> Some d
      | None \<Rightarrow> if k \<in> fst ` set ws then Some c else None)"
proof (induction ws arbitrary: m)
  case (Cons w ws)
  obtain n s where "w = (n, s)" by (cases w)
  with Cons[of "report_cascading_error c n m"] show ?case
    by (cases "map_of m k"; cases "k = n") (simp_all add: error_caused_by_def)
qed (simp add: error_caused_by_def split: option.splits)

lemma snd_node_stop:
  "snd (pending_node_stop link n p) =
     (if n \<in> set (local_nodes p)
      then snd (update_dataflow_status link
             (p\<lparr>local_nodes := bs_remove n (local_nodes p),
                exited_before_subscribe := exited_before_subscribe p @ [n]\<rparr>))
      else p)"
  by (simp add: pending_node_stop_def split: prod.splits outcome.splits)

lemma snd_dataflow_stop:
  "snd (pending_dataflow_stop link (n # ns) p) =
     (if n \<in> set (local_nodes p)
      then let q = update_dataflow_status link (p\<lparr>local_nodes := bs_remove n (local_nodes p)\<rparr>)
           in if is_ok (fst q) then snd (pending_dataflow_stop link ns (snd q)) else snd q
      else snd (pending_dataflow_stop link ns p))"
  by (simp add: Let_def split: prod.splits outcome.splits)

lemma subscription_external [simp]:
  "external_nodes (snd (handle_node_subscription link n s p)) = external_nodes p"
  by (simp add: handle_node_subscription_def)

lemma node_stop_external [simp]:
  "external_nodes (snd (pending_node_stop link n p)) = external_nodes p"
  by (simp add: snd_node_stop)

lemma dataflow_stop_external [simp]:
  "external_nodes (snd (pending_dataflow_stop link ns p)) = external_nodes p"
  by (induction ns arbitrary: p) (simp_all add: snd_dataflow_stop Let_def del: pending_dataflow_stop.simps(2))

lemma external_ready_external [simp]:
  "external_nodes (handle_external_all_nodes_ready e p) = external_nodes p"
  by (simp add: handle_external_all_nodes_ready_def)

lemma external_reachable: "(pending_step link)\<^sup>*\<^sup>* p q \<Longrightarrow> external_nodes q = external_nodes p"
  by (induction rule: rtranclp_induct) (auto elim!: pending_step.cases)

section \<open>Properties\<close>


text \<open>Two nodes; one exits early, the other is told which one.\<close>

definition example_barrier :: pending_nodes where
  "example_barrier =
     barrier_run None [Subscribes (NodeId ''a'') 7, ExitsEarly (NodeId ''b'')]
       (pending_start [NodeId ''a'', NodeId ''b''] False)"

lemma example_barrier_reachable:
  "(pending_step link)\<^sup>*\<^sup>* p (barrier_run link evs p)"
proof (induction evs arbitrary: p)
  case (Cons e evs)
  have "pending_step link p (barrier_apply link e p)"
    by (cases e) (auto intro: step_subscribe step_node_stop)
  with Cons[of "barrier_apply link e p"] show ?case
    by (simp add: barrier_run_def converse_rtranclp_into_rtranclp)
qed (simp add: barrier_run_def)

lemmas barrier_eval =
  barrier_run_def handle_node_subscription_def pending_node_stop_def update_dataflow_status_def
  answer_subscribe_requests_def exit_cause_def report_cascading_error_def bt_entry_def bs_remove_def

lemma example_barrier_replies: "replies example_barrier = [(7, Some (NodeId ''b''))]"
  by (simp add: example_barrier_def barrier_eval less_node_id_def)




section \<open>Subscriptions after the report\<close>

text \<open>
  Once the readiness has been reported, nothing the nodes of this machine do answers or reports again.
\<close>

lemma reported_update:
  assumes "external_nodes p" "reported_init_to_coordinator p"
  shows "snd (update_dataflow_status link p) = p"
  using assms by (simp add: update_dataflow_status_def)

lemma reported_apply:
  assumes "external_nodes p" "reported_init_to_coordinator p"
  shows "external_nodes (barrier_apply link e p) \<and> reported_init_to_coordinator (barrier_apply link e p) \<and>
    replies (barrier_apply link e p) = replies p \<and> ready_reports (barrier_apply link e p) = ready_reports p"
proof (cases e)
  case (Subscribes n s)
  with assms show ?thesis by (simp add: handle_node_subscription_def reported_update)
next
  case (ExitsEarly n)
  with assms show ?thesis by (simp add: pending_node_stop_def update_dataflow_status_def)
qed

lemma reported_run:
  assumes "external_nodes p" "reported_init_to_coordinator p"
  shows "external_nodes (barrier_run link evs p) \<and> reported_init_to_coordinator (barrier_run link evs p) \<and>
    replies (barrier_run link evs p) = replies p \<and> ready_reports (barrier_run link evs p) = ready_reports p"
  using assms
proof (induction evs arbitrary: p)
  case (Cons e evs)
  from reported_apply[OF Cons.prems, of link e] Cons.IH[of "barrier_apply link e p"]
  show ?case by (simp add: barrier_run_def)
qed (simp add: barrier_run_def)

text \<open>
  On a dataflow that spans machines, a node that subscribes after its daemon has reported
  readiness (a restarted or a late dynamic node) is never answered by anything the nodes of the
  machine do: its reply is not sent and no second report goes to the coordinator, which sends
  \<open>AllNodesReady\<close> only in response to reports.
\<close>

theorem late_subscriber_unanswered:
  assumes "external_nodes p" "reported_init_to_coordinator p" "s \<notin> fst ` set (replies p)"
  shows "s \<notin> fst ` set (replies (barrier_run link (Subscribes n s # evs) p)) \<and>
    ready_reports (barrier_run link (Subscribes n s # evs) p) = ready_reports p"
  using reported_run[OF assms(1,2), of link "Subscribes n s # evs"] assms(3) by simp

theorem late_subscriber_unanswered_witness:
  "9 \<notin> fst ` set (replies (barrier_run (Some True) [Subscribes (NodeId ''cam'') 9]
     (handle_external_all_nodes_ready []
       (barrier_run (Some True) [Subscribes (NodeId ''cam'') 1] (pending_start [NodeId ''cam''] True))))) \<and>
   ready_reports (barrier_run (Some True) [Subscribes (NodeId ''cam'') 9]
     (handle_external_all_nodes_ready []
       (barrier_run (Some True) [Subscribes (NodeId ''cam'') 1] (pending_start [NodeId ''cam''] True)))) = [[]]"
proof -
  let ?p = "handle_external_all_nodes_ready []
       (barrier_run (Some True) [Subscribes (NodeId ''cam'') 1] (pending_start [NodeId ''cam''] True))"
  have p: "external_nodes ?p \<and> reported_init_to_coordinator ?p \<and> replies ?p = [(1, None)] \<and> ready_reports ?p = [[]]"
    by (simp add: barrier_eval report_nodes_ready_def handle_external_all_nodes_ready_def Let_def)
  then show ?thesis
    using late_subscriber_unanswered[of ?p 9 "Some True" "(NodeId ''cam'')" "[]"] by simp
qed

end
