(* ===== verification/Running_Dataflow.thy ===== *)
theory Running_Dataflow
  imports
    Pending_Nodes
    Descriptor
    "HOL-Library.Product_Lexorder"
    "HOL-Library.Word"
begin

text \<open>
  The state of a dataflow that runs on a daemon
  (\<^verbatim>\<open>binaries/daemon/src/running_dataflow.rs\<close>) and the channels through which the daemon
  reaches the nodes (\<^verbatim>\<open>binaries/daemon/src/event_types.rs\<close>).

  Senders, counters and process handles are shared with the tasks that serve a node, so they are
  addresses into stores of the dataflow: \<open>channels\<close> for the bounded event channels, \<open>counters\<close> for
  the atomic counters of undelivered events, \<open>drop_queues\<close> for the unbounded drop channels,
  \<open>process_ops\<close> for the operations submitted to a process. The hybrid logical clock that stamps
  each message decides nothing in this code and is left out. Tasks the code spawns to kill
  processes after a grace period are kept in \<open>kill_tasks\<close>, and their two phases are operations.
\<close>

section \<open>Event channels\<close>

record channel =
  ch_queue :: "node_event list"
  ch_closed :: bool

definition NODE_EVENT_CHANNEL_CAPACITY :: nat where
  "NODE_EVENT_CHANNEL_CAPACITY = 1000"

definition CONTROL_EVENT_HEADROOM :: nat where
  "CONTROL_EVENT_HEADROOM = 50"

definition ch_capacity :: "channel \<Rightarrow> nat" where
  "ch_capacity c = NODE_EVENT_CHANNEL_CAPACITY - length (ch_queue c)"

definition new_channel :: channel where
  "new_channel = \<lparr>ch_queue = [], ch_closed = False\<rparr>"

text \<open>\<^verbatim>\<open>mpsc::Sender::try_send\<close>, and the three results of \<^verbatim>\<open>send_with_timestamp\<close>.\<close>

datatype send_result = Delivered | Dropped | ChannelClosed

definition try_send :: "node_event \<Rightarrow> channel \<Rightarrow> send_result \<times> channel" where
  "try_send ev c =
     (if ch_closed c then (ChannelClosed, c)
      else if ch_capacity c = 0 then (Dropped, c)
      else (Delivered, c\<lparr>ch_queue := ch_queue c @ [ev]\<rparr>))"

fun is_control :: "node_event \<Rightarrow> bool" where
  "is_control (NInput i m d) = False"
| "is_control _ = True"

definition send_with_timestamp :: "node_event \<Rightarrow> channel \<Rightarrow> send_result \<times> channel" where
  "send_with_timestamp ev c =
     (if \<not> is_control ev \<and> ch_capacity c < CONTROL_EVENT_HEADROOM then (Dropped, c)
      else try_send ev c)"

text \<open>What the serving task does with its end: take the next event, or drop the receiver.\<close>

definition ch_recv :: "channel \<Rightarrow> node_event option \<times> channel" where
  "ch_recv c =
     (case ch_queue c of [] \<Rightarrow> (None, c) | e # q \<Rightarrow> (Some e, c\<lparr>ch_queue := q\<rparr>))"

definition ch_drop_receiver :: "channel \<Rightarrow> channel" where
  "ch_drop_receiver c = c\<lparr>ch_queue := [], ch_closed := True\<rparr>"

section \<open>The running dataflow\<close>

type_synonym output_id = "node_id \<times> data_id"

type_synonym port = "node_id \<times> data_id"

record input_deadline =
  timeout :: duration
  last_received :: "duration option"

text \<open>\<^verbatim>\<open>InputDeadline::is_timed_out\<close> at an instant, itself a duration since the daemon started.\<close>

definition is_timed_out :: "duration \<Rightarrow> input_deadline \<Rightarrow> bool" where
  "is_timed_out now d \<longleftrightarrow>
     (case last_received d of None \<Rightarrow> False | Some t \<Rightarrow> now - t > timeout d)"

datatype process_operation = SoftKill | Kill

record running_node =
  process :: "nat option"
  is_dynamic :: bool
  node_restart_policy :: restart_policy
  disable_restart :: bool
  last_activity :: nat
  health_timeout :: "duration option"

record drop_token_information =
  owner :: node_id
  token_nodes :: "node_id list"

record log_subscriber =
  ls_node :: node_id
  ls_input :: data_id
  ls_filter :: log_subscription_filter

record drop_channel =
  dc_queue :: "drop_token list"
  dc_closed :: bool

record kill_task =
  kt_processes :: "(node_id \<times> nat) list"
  kt_grace :: duration
  kt_marks :: bool

record running_dataflow =
  df_descriptor :: descriptor
  df_pending :: pending_nodes
  dataflow_started :: bool
  subscribe_channels :: "(node_id \<times> nat) list"
  pending_messages :: "(node_id \<times> nat) list"
  drop_channels :: "(node_id \<times> nat) list"
  mappings :: "(output_id \<times> port list) list"
  timers :: "(duration \<times> port list) list"
  log_subscribers :: "log_subscriber list"
  open_inputs :: "(node_id \<times> data_id list) list"
  input_deadlines :: "(port \<times> input_deadline) list"
  broken_inputs :: "(port \<times> duration) list"
  running_nodes :: "(node_id \<times> running_node) list"
  dynamic_nodes :: "node_id list"
  open_external_mappings :: "output_id list"
  pending_drop_tokens :: "(drop_token \<times> drop_token_information) list"
  timer_handles :: "duration list"
  stop_sent :: bool
  grace_duration_kills :: "node_id list"
  debug_topic_watchers :: "(output_id \<times> nat list) list"
  debug_inspection :: bool
  channels :: "nat \<Rightarrow> channel"
  counters :: "nat \<Rightarrow> 64 word"
  drop_queues :: "nat \<Rightarrow> drop_channel"
  process_ops :: "nat \<Rightarrow> process_operation list"
  process_exited :: "nat \<Rightarrow> bool"
  kill_tasks :: "kill_task list"

definition running_dataflow_new :: "descriptor \<Rightarrow> running_dataflow" where
  "running_dataflow_new d =
     \<lparr>df_descriptor = d, df_pending = pending_new, dataflow_started = False,
      subscribe_channels = [], pending_messages = [], drop_channels = [], mappings = [],
      timers = [], log_subscribers = [], open_inputs = [], input_deadlines = [],
      broken_inputs = [], running_nodes = [], dynamic_nodes = [], open_external_mappings = [],
      pending_drop_tokens = [], timer_handles = [], stop_sent = False,
      grace_duration_kills = [], debug_topic_watchers = [],
      debug_inspection = enable_debug_inspection d,
      channels = (\<lambda>_. new_channel), counters = (\<lambda>_. 0),
      drop_queues = (\<lambda>_. \<lparr>dc_queue = [], dc_closed = False\<rparr>),
      process_ops = (\<lambda>_. []), process_exited = (\<lambda>_. False), kill_tasks = []\<rparr>"

section \<open>Sending to a node\<close>

definition channel_send :: "nat \<Rightarrow> node_event \<Rightarrow> running_dataflow \<Rightarrow> send_result \<times> running_dataflow" where
  "channel_send ch ev df =
     (let (r, c) = send_with_timestamp ev (channels df ch)
      in (r, df\<lparr>channels := (channels df)(ch := c)\<rparr>))"

definition inc_pending :: "node_id \<Rightarrow> running_dataflow \<Rightarrow> running_dataflow" where
  "inc_pending n df =
     (case map_of (pending_messages df) n of
        None \<Rightarrow> df
      | Some k \<Rightarrow> df\<lparr>counters := (counters df)(k := counters df k + 1)\<rparr>)"

text \<open>The pattern of most sends: count the event if it was delivered, ignore every other result.\<close>

definition send_counted :: "nat \<Rightarrow> node_id \<Rightarrow> node_event \<Rightarrow> running_dataflow \<Rightarrow> running_dataflow" where
  "send_counted ch n ev df =
     (case channel_send ch ev df of
        (Delivered, df') \<Rightarrow> inc_pending n df'
      | (_, df') \<Rightarrow> df')"

definition open_inputs_of :: "running_dataflow \<Rightarrow> node_id \<Rightarrow> data_id list" where
  "open_inputs_of df n = (case map_of (open_inputs df) n of None \<Rightarrow> [] | Some is \<Rightarrow> is)"

definition disable_restart_of :: "node_id \<Rightarrow> running_dataflow \<Rightarrow> running_dataflow" where
  "disable_restart_of n df =
     (case map_of (running_nodes df) n of
        None \<Rightarrow> df
      | Some r \<Rightarrow>
          df\<lparr>running_nodes := bt_insert n (r\<lparr>disable_restart := True\<rparr>) (running_nodes df)\<rparr>)"

section \<open>Drop tokens\<close>

definition check_drop_token :: "drop_token \<Rightarrow> running_dataflow \<Rightarrow> running_dataflow" where
  "check_drop_token t df =
     (case map_of (pending_drop_tokens df) t of
        None \<Rightarrow> df
      | Some info \<Rightarrow>
          if token_nodes info = [] then
            let df' = df\<lparr>pending_drop_tokens := hm_remove t (pending_drop_tokens df)\<rparr>
            in case map_of (drop_channels df) (owner info) of
                 None \<Rightarrow> df'
               | Some c \<Rightarrow>
                   if dc_closed (drop_queues df c) then df'
                   else df'\<lparr>drop_queues := (drop_queues df)
                          (c := (drop_queues df c)\<lparr>dc_queue := dc_queue (drop_queues df c) @ [t]\<rparr>)\<rparr>
          else df)"

section \<open>Processes\<close>

definition submit :: "nat \<Rightarrow> process_operation \<Rightarrow> running_dataflow \<Rightarrow> bool \<times> running_dataflow" where
  "submit h op df =
     (if process_exited df h then (False, df)
      else (True, df\<lparr>process_ops := (process_ops df)(h := process_ops df h @ [op])\<rparr>))"

text \<open>Dropping a process handle kills its process if that is still running.\<close>

definition drop_handle :: "nat \<Rightarrow> running_dataflow \<Rightarrow> running_dataflow" where
  "drop_handle h df = snd (submit h Kill df)"

definition kill_phase ::
    "process_operation \<Rightarrow> bool \<Rightarrow> (node_id \<times> nat) \<Rightarrow> running_dataflow \<Rightarrow> running_dataflow" where
  "kill_phase op marks = (\<lambda>(n, h) df.
     case submit h op df of
       (True, df') \<Rightarrow>
         if marks then df'\<lparr>grace_duration_kills := bs_insert n (grace_duration_kills df')\<rparr> else df'
     | (False, df') \<Rightarrow> df')"

text \<open>The task after the grace period, and after half that time again.\<close>

definition kill_task_soft :: "kill_task \<Rightarrow> running_dataflow \<Rightarrow> running_dataflow" where
  "kill_task_soft t df = fold (kill_phase SoftKill (kt_marks t)) (kt_processes t) df"

definition kill_task_hard :: "kill_task \<Rightarrow> running_dataflow \<Rightarrow> running_dataflow" where
  "kill_task_hard t df =
     fold (\<lambda>(n, h). drop_handle h) (kt_processes t)
       (fold (kill_phase Kill (kt_marks t)) (kt_processes t) df)"

definition kill_duration :: "kill_task \<Rightarrow> duration" where
  "kill_duration t = kt_grace t div 2"

section \<open>Stopping\<close>

definition DEFAULT_STOP_GRACE :: duration where
  "DEFAULT_STOP_GRACE = from_millis 10000"

definition DEFAULT_RESTART_GRACE :: duration where
  "DEFAULT_RESTART_GRACE = from_millis 5000"

datatype finish_dataflow_when = FinishNow | WaitForNodes

definition should_finish_immediately :: "running_dataflow \<Rightarrow> finish_dataflow_when" where
  "should_finish_immediately df =
     (if \<not> local_nodes_pending (df_pending df) \<and>
         list_all (\<lambda>(n, r). is_dynamic r) (running_nodes df) \<and> stop_sent df
      then FinishNow else WaitForNodes)"

definition taken_processes :: "running_dataflow \<Rightarrow> (node_id \<times> nat) list" where
  "taken_processes df =
     List.map_filter (\<lambda>(n, r). map_option (Pair n) (process r)) (running_nodes df)"

definition stop_all ::
    "bool option \<Rightarrow> duration option \<Rightarrow> bool \<Rightarrow> running_dataflow \<Rightarrow>
     (pending_error, finish_dataflow_when) outcome \<times> running_dataflow" where
  "stop_all link grace force df =
     (case pending_dataflow_stop link (dynamic_nodes df) (df_pending df) of
        (Err e, p) \<Rightarrow> (Err e, df\<lparr>df_pending := p\<rparr>)
      | (Panic, p) \<Rightarrow> (Panic, df\<lparr>df_pending := p\<rparr>)
      | (Ok _, p) \<Rightarrow>
          let df1 = df\<lparr>df_pending := p,
                       running_nodes :=
                         map (\<lambda>(n, r). (n, r\<lparr>disable_restart := True\<rparr>)) (running_nodes df)\<rparr>;
              df2 = (fold (\<lambda>(n, ch). send_counted ch n NStop) (subscribe_channels df1) df1)
                      \<lparr>subscribe_channels := []\<rparr>;
              procs = taken_processes df2;
              df3 = df2\<lparr>running_nodes :=
                          map (\<lambda>(n, r). (n, r\<lparr>process := None\<rparr>)) (running_nodes df2)\<rparr>;
              df4 = (if force
                     then fold (\<lambda>(n, h). drop_handle h) procs
                            (fold (\<lambda>(n, h) d. snd (submit h Kill d)) procs df3)
                     else df3\<lparr>kill_tasks := kill_tasks df3 @
                            [\<lparr>kt_processes = procs,
                              kt_grace = (case grace of None \<Rightarrow> from_millis 10000 | Some g \<Rightarrow> g),
                              kt_marks = True\<rparr>]\<rparr>);
              df5 = df4\<lparr>stop_sent := True\<rparr>
          in (Ok (should_finish_immediately df5), df5))"

definition send_stop_and_schedule_kill ::
    "node_id \<Rightarrow> nat option \<Rightarrow> duration option \<Rightarrow> duration \<Rightarrow> running_dataflow \<Rightarrow> running_dataflow" where
  "send_stop_and_schedule_kill n proc grace default_grace df =
     (let df1 = (case map_of (subscribe_channels df) n of
                   None \<Rightarrow> df
                 | Some ch \<Rightarrow> send_counted ch n NStop df)
      in case proc of
           None \<Rightarrow> df1
         | Some h \<Rightarrow>
             df1\<lparr>kill_tasks := kill_tasks df1 @
               [\<lparr>kt_processes = [(n, h)],
                 kt_grace = (case grace of None \<Rightarrow> default_grace | Some g \<Rightarrow> g),
                 kt_marks = False\<rparr>]\<rparr>)"

datatype node_op_error = NodeNotFound node_id

definition stop_single_node ::
    "node_id \<Rightarrow> duration option \<Rightarrow> running_dataflow \<Rightarrow>
     (node_op_error, unit) outcome \<times> running_dataflow" where
  "stop_single_node n grace df =
     (case map_of (running_nodes df) n of
        None \<Rightarrow> (Err (NodeNotFound n), df)
      | Some r \<Rightarrow>
          (Ok (),
           send_stop_and_schedule_kill n (process r) grace DEFAULT_STOP_GRACE
             (df\<lparr>running_nodes :=
                   bt_insert n (r\<lparr>disable_restart := True, process := None\<rparr>) (running_nodes df)\<rparr>)))"

definition restart_single_node ::
    "node_id \<Rightarrow> duration option \<Rightarrow> running_dataflow \<Rightarrow>
     (node_op_error, unit) outcome \<times> running_dataflow" where
  "restart_single_node n grace df =
     (case map_of (running_nodes df) n of
        None \<Rightarrow> (Err (NodeNotFound n), df)
      | Some r \<Rightarrow>
          (Ok (),
           send_stop_and_schedule_kill n (process r) grace DEFAULT_RESTART_GRACE
             (df\<lparr>running_nodes :=
                   bt_insert n (r\<lparr>process := None, disable_restart := False\<rparr>) (running_nodes df)\<rparr>)))"

text \<open>Starting arms a timer task for every interval that has none yet.\<close>

definition start_dataflow :: "running_dataflow \<Rightarrow> running_dataflow" where
  "start_dataflow df =
     df\<lparr>timer_handles := fold bs_insert (map fst (timers df)) (timer_handles df)\<rparr>"

section \<open>The headroom of a channel\<close>

text \<open>Everything that happens to an event channel.\<close>

inductive ch_step :: "channel \<Rightarrow> channel \<Rightarrow> bool" where
  step_send: "ch_step c (snd (send_with_timestamp ev c))"
| step_recv: "ch_step c (snd (ch_recv c))"
| step_drop: "ch_step c (ch_drop_receiver c)"

definition queued_control :: "channel \<Rightarrow> nat" where
  "queued_control c = length (filter is_control (ch_queue c))"

definition queued_data :: "channel \<Rightarrow> nat" where
  "queued_data c = length (filter (\<lambda>e. \<not> is_control e) (ch_queue c))"

lemma queued_sum: "queued_control c + queued_data c = length (ch_queue c)"
  by (simp add: queued_control_def queued_data_def sum_length_filter_compl)

lemmas channel_defs =
  ch_capacity_def NODE_EVENT_CHANNEL_CAPACITY_def CONTROL_EVENT_HEADROOM_def try_send_def
  send_with_timestamp_def

lemma send_delivered:
  "send_with_timestamp ev c = (Delivered, c') \<longleftrightarrow>
     \<not> ch_closed c \<and> length (ch_queue c) < (if is_control ev then 1000 else 951) \<and>
     c' = c\<lparr>ch_queue := ch_queue c @ [ev]\<rparr>"
  by (auto simp: channel_defs)

lemma send_not_delivered: "fst (send_with_timestamp ev c) \<noteq> Delivered \<Longrightarrow> snd (send_with_timestamp ev c) = c"
  by (auto simp: channel_defs split: if_splits)

lemma send_cases:
  obtains "send_with_timestamp ev c = (Delivered, c\<lparr>ch_queue := ch_queue c @ [ev]\<rparr>)"
    "\<not> ch_closed c" "length (ch_queue c) < (if is_control ev then 1000 else 951)"
  | "snd (send_with_timestamp ev c) = c" "fst (send_with_timestamp ev c) \<noteq> Delivered"
  using send_delivered[of ev c "snd (send_with_timestamp ev c)"] send_not_delivered[of ev c]
  by (metis prod.collapse)

lemma ch_step_data: "ch_step c c' \<Longrightarrow> queued_data c \<le> 951 \<Longrightarrow> queued_data c' \<le> 951"
proof (induction rule: ch_step.induct)
  case (step_send c ev)
  show ?case
  proof (cases rule: send_cases[of ev c])
    case 1
    then show ?thesis
      using step_send queued_sum[of c] by (auto simp: queued_data_def split: if_splits)
  next
    case 2
    with step_send show ?thesis by simp
  qed
next
  case (step_recv c)
  then show ?case by (auto simp: ch_recv_def queued_data_def split: list.splits if_splits)
next
  case (step_drop c)
  then show ?case by (simp add: ch_drop_receiver_def queued_data_def)
qed

lemma reachable_data: "ch_step\<^sup>*\<^sup>* new_channel c \<Longrightarrow> queued_data c \<le> 951"
proof (induction rule: rtranclp_induct)
  case base
  then show ?case by (simp add: new_channel_def queued_data_def)
next
  case (step c c')
  then show ?case using ch_step_data by blast
qed

lemma reachable_fill:
  assumes "list_all (\<lambda>e. length q + length es \<le> (if is_control e then 1000 else 951)) es"
    and "ch_step\<^sup>*\<^sup>* new_channel \<lparr>ch_queue = q, ch_closed = False\<rparr>"
  shows "ch_step\<^sup>*\<^sup>* new_channel \<lparr>ch_queue = q @ es, ch_closed = False\<rparr>"
  using assms
proof (induction es arbitrary: q)
  case (Cons e es)
  let ?c = "\<lparr>ch_queue = q, ch_closed = False\<rparr>"
  have "length q < (if is_control e then 1000 else 951)"
    using Cons.prems(1) by (auto split: if_splits)
  then have "send_with_timestamp e ?c = (Delivered, ?c\<lparr>ch_queue := q @ [e]\<rparr>)"
    by (subst send_delivered) simp
  then have "ch_step\<^sup>*\<^sup>* new_channel \<lparr>ch_queue = q @ [e], ch_closed = False\<rparr>"
    using step_send[of ?c e] Cons.prems(2) by (auto intro: rtranclp.rtrancl_into_rtrancl)
  with Cons.IH[of "q @ [e]"] Cons.prems(1) show ?case by (simp add: list_all_iff)
qed simp

definition some_metadata :: metadata where
  "some_metadata = metadata_new 0 DtNull"

definition full_channel :: channel where
  "full_channel =
     \<lparr>ch_queue = replicate 951 (NInput (DataId ''x'') some_metadata None) @ replicate 49 NStop,
      ch_closed = False\<rparr>"

lemma full_channel_reachable: "ch_step\<^sup>*\<^sup>* new_channel full_channel"
proof -
  have "ch_step\<^sup>*\<^sup>* new_channel
      \<lparr>ch_queue = [] @ replicate 951 (NInput (DataId ''x'') some_metadata None), ch_closed = False\<rparr>"
    by (rule reachable_fill) (simp_all add: list_all_iff new_channel_def)
  then show ?thesis
    unfolding full_channel_def by (intro reachable_fill) (simp_all add: list_all_iff)
qed

text \<open>
  C35. The headroom of an event channel for control events (stop, closed inputs, restarts, ...)
  is exactly 49: whatever data events were sent, received or dropped before, a control event reaches
  a node that is still connected as long as fewer than 49 control events wait in its channel,
  and 49 cannot be replaced by a larger number.
\<close>

theorem control_headroom:
  "(\<forall>c ev. ch_step\<^sup>*\<^sup>* new_channel c \<longrightarrow> \<not> ch_closed c \<longrightarrow> is_control ev \<longrightarrow> queued_control c < h \<longrightarrow>
      fst (send_with_timestamp ev c) = Delivered) \<longleftrightarrow> h \<le> 49"
proof
  assume all: "\<forall>c ev. ch_step\<^sup>*\<^sup>* new_channel c \<longrightarrow> \<not> ch_closed c \<longrightarrow> is_control ev \<longrightarrow>
      queued_control c < h \<longrightarrow> fst (send_with_timestamp ev c) = Delivered"
  have "fst (send_with_timestamp NStop full_channel) \<noteq> Delivered"
    by (simp add: channel_defs full_channel_def)
  with all full_channel_reachable have "\<not> queued_control full_channel < h"
    by (auto simp: full_channel_def)
  then show "h \<le> 49" by (simp add: queued_control_def full_channel_def)
next
  assume "h \<le> 49"
  then have room: "length (ch_queue c) < 1000"
    if "ch_step\<^sup>*\<^sup>* new_channel c" "queued_control c < h" for c
    using reachable_data[OF that(1)] that(2) queued_sum[of c] by linarith
  show "\<forall>c ev. ch_step\<^sup>*\<^sup>* new_channel c \<longrightarrow> \<not> ch_closed c \<longrightarrow> is_control ev \<longrightarrow>
      queued_control c < h \<longrightarrow> fst (send_with_timestamp ev c) = Delivered"
    by (auto simp: channel_defs dest: room)
qed

theorem control_headroom_witness: "fst (send_with_timestamp NStop new_channel) = Delivered"
  using control_headroom[of 49] by (auto simp: new_channel_def queued_control_def)

section \<open>What the operations leave alone\<close>

lemma channel_send_frame [simp]:
  "df_descriptor (snd (channel_send ch ev df)) = df_descriptor df"
  "df_pending (snd (channel_send ch ev df)) = df_pending df"
  "dataflow_started (snd (channel_send ch ev df)) = dataflow_started df"
  "subscribe_channels (snd (channel_send ch ev df)) = subscribe_channels df"
  "pending_messages (snd (channel_send ch ev df)) = pending_messages df"
  "drop_channels (snd (channel_send ch ev df)) = drop_channels df"
  "mappings (snd (channel_send ch ev df)) = mappings df"
  "timers (snd (channel_send ch ev df)) = timers df"
  "log_subscribers (snd (channel_send ch ev df)) = log_subscribers df"
  "open_inputs (snd (channel_send ch ev df)) = open_inputs df"
  "input_deadlines (snd (channel_send ch ev df)) = input_deadlines df"
  "broken_inputs (snd (channel_send ch ev df)) = broken_inputs df"
  "running_nodes (snd (channel_send ch ev df)) = running_nodes df"
  "dynamic_nodes (snd (channel_send ch ev df)) = dynamic_nodes df"
  "open_external_mappings (snd (channel_send ch ev df)) = open_external_mappings df"
  "pending_drop_tokens (snd (channel_send ch ev df)) = pending_drop_tokens df"
  "timer_handles (snd (channel_send ch ev df)) = timer_handles df"
  "stop_sent (snd (channel_send ch ev df)) = stop_sent df"
  "grace_duration_kills (snd (channel_send ch ev df)) = grace_duration_kills df"
  "debug_topic_watchers (snd (channel_send ch ev df)) = debug_topic_watchers df"
  "debug_inspection (snd (channel_send ch ev df)) = debug_inspection df"
  "counters (snd (channel_send ch ev df)) = counters df"
  "drop_queues (snd (channel_send ch ev df)) = drop_queues df"
  "process_ops (snd (channel_send ch ev df)) = process_ops df"
  "process_exited (snd (channel_send ch ev df)) = process_exited df"
  "kill_tasks (snd (channel_send ch ev df)) = kill_tasks df"
  by (simp_all add: channel_send_def split: prod.splits)

lemma inc_pending_frame [simp]:
  "df_descriptor (inc_pending n df) = df_descriptor df"
  "df_pending (inc_pending n df) = df_pending df"
  "dataflow_started (inc_pending n df) = dataflow_started df"
  "subscribe_channels (inc_pending n df) = subscribe_channels df"
  "pending_messages (inc_pending n df) = pending_messages df"
  "drop_channels (inc_pending n df) = drop_channels df"
  "mappings (inc_pending n df) = mappings df"
  "timers (inc_pending n df) = timers df"
  "log_subscribers (inc_pending n df) = log_subscribers df"
  "open_inputs (inc_pending n df) = open_inputs df"
  "input_deadlines (inc_pending n df) = input_deadlines df"
  "broken_inputs (inc_pending n df) = broken_inputs df"
  "running_nodes (inc_pending n df) = running_nodes df"
  "dynamic_nodes (inc_pending n df) = dynamic_nodes df"
  "open_external_mappings (inc_pending n df) = open_external_mappings df"
  "pending_drop_tokens (inc_pending n df) = pending_drop_tokens df"
  "timer_handles (inc_pending n df) = timer_handles df"
  "stop_sent (inc_pending n df) = stop_sent df"
  "grace_duration_kills (inc_pending n df) = grace_duration_kills df"
  "debug_topic_watchers (inc_pending n df) = debug_topic_watchers df"
  "debug_inspection (inc_pending n df) = debug_inspection df"
  "channels (inc_pending n df) = channels df"
  "drop_queues (inc_pending n df) = drop_queues df"
  "process_ops (inc_pending n df) = process_ops df"
  "process_exited (inc_pending n df) = process_exited df"
  "kill_tasks (inc_pending n df) = kill_tasks df"
  by (simp_all add: inc_pending_def split: option.splits)

lemma send_counted_alt:
  "send_counted ch n ev df =
     (if fst (channel_send ch ev df) = Delivered then inc_pending n (snd (channel_send ch ev df))
      else snd (channel_send ch ev df))"
  by (simp add: send_counted_def split: prod.splits send_result.splits)

lemma send_counted_frame [simp]:
  "df_descriptor (send_counted ch n ev df) = df_descriptor df"
  "df_pending (send_counted ch n ev df) = df_pending df"
  "dataflow_started (send_counted ch n ev df) = dataflow_started df"
  "subscribe_channels (send_counted ch n ev df) = subscribe_channels df"
  "pending_messages (send_counted ch n ev df) = pending_messages df"
  "drop_channels (send_counted ch n ev df) = drop_channels df"
  "mappings (send_counted ch n ev df) = mappings df"
  "timers (send_counted ch n ev df) = timers df"
  "log_subscribers (send_counted ch n ev df) = log_subscribers df"
  "open_inputs (send_counted ch n ev df) = open_inputs df"
  "input_deadlines (send_counted ch n ev df) = input_deadlines df"
  "broken_inputs (send_counted ch n ev df) = broken_inputs df"
  "running_nodes (send_counted ch n ev df) = running_nodes df"
  "dynamic_nodes (send_counted ch n ev df) = dynamic_nodes df"
  "open_external_mappings (send_counted ch n ev df) = open_external_mappings df"
  "pending_drop_tokens (send_counted ch n ev df) = pending_drop_tokens df"
  "timer_handles (send_counted ch n ev df) = timer_handles df"
  "stop_sent (send_counted ch n ev df) = stop_sent df"
  "grace_duration_kills (send_counted ch n ev df) = grace_duration_kills df"
  "debug_topic_watchers (send_counted ch n ev df) = debug_topic_watchers df"
  "debug_inspection (send_counted ch n ev df) = debug_inspection df"
  "drop_queues (send_counted ch n ev df) = drop_queues df"
  "process_ops (send_counted ch n ev df) = process_ops df"
  "process_exited (send_counted ch n ev df) = process_exited df"
  "kill_tasks (send_counted ch n ev df) = kill_tasks df"
  by (simp_all add: send_counted_alt)

lemma disable_restart_frame [simp]:
  "df_descriptor (disable_restart_of n df) = df_descriptor df"
  "df_pending (disable_restart_of n df) = df_pending df"
  "dataflow_started (disable_restart_of n df) = dataflow_started df"
  "subscribe_channels (disable_restart_of n df) = subscribe_channels df"
  "pending_messages (disable_restart_of n df) = pending_messages df"
  "drop_channels (disable_restart_of n df) = drop_channels df"
  "mappings (disable_restart_of n df) = mappings df"
  "timers (disable_restart_of n df) = timers df"
  "log_subscribers (disable_restart_of n df) = log_subscribers df"
  "open_inputs (disable_restart_of n df) = open_inputs df"
  "input_deadlines (disable_restart_of n df) = input_deadlines df"
  "broken_inputs (disable_restart_of n df) = broken_inputs df"
  "dynamic_nodes (disable_restart_of n df) = dynamic_nodes df"
  "open_external_mappings (disable_restart_of n df) = open_external_mappings df"
  "pending_drop_tokens (disable_restart_of n df) = pending_drop_tokens df"
  "timer_handles (disable_restart_of n df) = timer_handles df"
  "stop_sent (disable_restart_of n df) = stop_sent df"
  "grace_duration_kills (disable_restart_of n df) = grace_duration_kills df"
  "debug_topic_watchers (disable_restart_of n df) = debug_topic_watchers df"
  "debug_inspection (disable_restart_of n df) = debug_inspection df"
  "channels (disable_restart_of n df) = channels df"
  "counters (disable_restart_of n df) = counters df"
  "drop_queues (disable_restart_of n df) = drop_queues df"
  "process_ops (disable_restart_of n df) = process_ops df"
  "process_exited (disable_restart_of n df) = process_exited df"
  "kill_tasks (disable_restart_of n df) = kill_tasks df"
  by (simp_all add: disable_restart_of_def split: option.splits)

lemma check_drop_token_frame [simp]:
  "df_descriptor (check_drop_token t df) = df_descriptor df"
  "df_pending (check_drop_token t df) = df_pending df"
  "dataflow_started (check_drop_token t df) = dataflow_started df"
  "subscribe_channels (check_drop_token t df) = subscribe_channels df"
  "pending_messages (check_drop_token t df) = pending_messages df"
  "drop_channels (check_drop_token t df) = drop_channels df"
  "mappings (check_drop_token t df) = mappings df"
  "timers (check_drop_token t df) = timers df"
  "log_subscribers (check_drop_token t df) = log_subscribers df"
  "open_inputs (check_drop_token t df) = open_inputs df"
  "input_deadlines (check_drop_token t df) = input_deadlines df"
  "broken_inputs (check_drop_token t df) = broken_inputs df"
  "running_nodes (check_drop_token t df) = running_nodes df"
  "dynamic_nodes (check_drop_token t df) = dynamic_nodes df"
  "open_external_mappings (check_drop_token t df) = open_external_mappings df"
  "timer_handles (check_drop_token t df) = timer_handles df"
  "stop_sent (check_drop_token t df) = stop_sent df"
  "grace_duration_kills (check_drop_token t df) = grace_duration_kills df"
  "debug_topic_watchers (check_drop_token t df) = debug_topic_watchers df"
  "debug_inspection (check_drop_token t df) = debug_inspection df"
  "channels (check_drop_token t df) = channels df"
  "counters (check_drop_token t df) = counters df"
  "process_ops (check_drop_token t df) = process_ops df"
  "process_exited (check_drop_token t df) = process_exited df"
  "kill_tasks (check_drop_token t df) = kill_tasks df"
  by (simp_all add: check_drop_token_def Let_def split: option.splits)

lemma submit_frame [simp]:
  "df_descriptor (snd (submit h op df)) = df_descriptor df"
  "df_pending (snd (submit h op df)) = df_pending df"
  "dataflow_started (snd (submit h op df)) = dataflow_started df"
  "subscribe_channels (snd (submit h op df)) = subscribe_channels df"
  "pending_messages (snd (submit h op df)) = pending_messages df"
  "drop_channels (snd (submit h op df)) = drop_channels df"
  "mappings (snd (submit h op df)) = mappings df"
  "timers (snd (submit h op df)) = timers df"
  "log_subscribers (snd (submit h op df)) = log_subscribers df"
  "open_inputs (snd (submit h op df)) = open_inputs df"
  "input_deadlines (snd (submit h op df)) = input_deadlines df"
  "broken_inputs (snd (submit h op df)) = broken_inputs df"
  "running_nodes (snd (submit h op df)) = running_nodes df"
  "dynamic_nodes (snd (submit h op df)) = dynamic_nodes df"
  "open_external_mappings (snd (submit h op df)) = open_external_mappings df"
  "pending_drop_tokens (snd (submit h op df)) = pending_drop_tokens df"
  "timer_handles (snd (submit h op df)) = timer_handles df"
  "stop_sent (snd (submit h op df)) = stop_sent df"
  "grace_duration_kills (snd (submit h op df)) = grace_duration_kills df"
  "debug_topic_watchers (snd (submit h op df)) = debug_topic_watchers df"
  "debug_inspection (snd (submit h op df)) = debug_inspection df"
  "channels (snd (submit h op df)) = channels df"
  "counters (snd (submit h op df)) = counters df"
  "drop_queues (snd (submit h op df)) = drop_queues df"
  "process_exited (snd (submit h op df)) = process_exited df"
  "kill_tasks (snd (submit h op df)) = kill_tasks df"
  by (simp_all add: submit_def)

lemma channels_send_counted:
  "channels (send_counted ch n ev df) =
     (channels df)(ch := snd (send_with_timestamp ev (channels df ch)))"
  by (simp add: send_counted_alt channel_send_def split: prod.splits)

lemma open_inputs_of_frame [simp]:
  "open_inputs_of (send_counted ch n ev df) m = open_inputs_of df m"
  "open_inputs_of (disable_restart_of n df) m = open_inputs_of df m"
  "open_inputs_of (inc_pending n df) m = open_inputs_of df m"
  by (simp_all add: open_inputs_of_def)

section \<open>Counting undelivered events\<close>

text \<open>
  A subscription brings one address for its channel and its counter. The counter of a node that is
  served is the length of its channel, as a 64-bit number.
\<close>

definition counts_ok :: "running_dataflow \<Rightarrow> bool" where
  "counts_ok df \<longleftrightarrow>
     (\<forall>n m a. map_of (pending_messages df) n = Some a \<longrightarrow> map_of (pending_messages df) m = Some a \<longrightarrow> n = m) \<and>
     (\<forall>n a. map_of (pending_messages df) n = Some a \<longrightarrow> \<not> ch_closed (channels df a) \<longrightarrow>
        counters df a = of_nat (length (ch_queue (channels df a))))"

definition synced :: "running_dataflow \<Rightarrow> bool" where
  "synced df \<longleftrightarrow>
     (\<forall>n a. map_of (subscribe_channels df) n = Some a \<longrightarrow> map_of (pending_messages df) n = Some a) \<and>
     counts_ok df"

lemma counts_ok_cong:
  "pending_messages df = pending_messages df' \<Longrightarrow> channels df = channels df' \<Longrightarrow>
   counters df = counters df' \<Longrightarrow> counts_ok df = counts_ok df'"
  by (simp add: counts_ok_def)

lemma synced_cong:
  "subscribe_channels df = subscribe_channels df' \<Longrightarrow> pending_messages df = pending_messages df' \<Longrightarrow>
   channels df = channels df' \<Longrightarrow> counters df = counters df' \<Longrightarrow> synced df = synced df'"
  by (simp add: synced_def counts_ok_def)

lemma counts_ok_send_counted:
  assumes "counts_ok df" "map_of (pending_messages df) n = Some ch"
  shows "counts_ok (send_counted ch n ev df)"
proof (cases rule: send_cases[of ev "channels df ch"])
  case 1
  then have "send_counted ch n ev df =
      df\<lparr>channels := (channels df)(ch := (channels df ch)\<lparr>ch_queue := ch_queue (channels df ch) @ [ev]\<rparr>),
         counters := (counters df)(ch := counters df ch + 1)\<rparr>"
    using assms by (simp add: send_counted_def channel_send_def inc_pending_def)
  with 1 assms show ?thesis by (simp add: counts_ok_def)
next
  case 2
  then have "send_counted ch n ev df = df"
    by (auto simp: send_counted_alt channel_send_def split: prod.splits)
  with assms show ?thesis by simp
qed

lemma synced_send_counted:
  "synced df \<Longrightarrow> map_of (pending_messages df) n = Some ch \<Longrightarrow> synced (send_counted ch n ev df)"
  by (simp add: synced_def counts_ok_send_counted)

text \<open>The serving task takes an event and lowers the counter.\<close>

definition serve_event :: "nat \<Rightarrow> running_dataflow \<Rightarrow> node_event option \<times> running_dataflow" where
  "serve_event a df =
     (case ch_recv (channels df a) of
        (None, c) \<Rightarrow> (None, df)
      | (Some e, c) \<Rightarrow>
          (Some e, df\<lparr>channels := (channels df)(a := c), counters := (counters df)(a := counters df a - 1)\<rparr>))"

lemma synced_serve: "synced df \<Longrightarrow> synced (snd (serve_event a df))"
  by (auto simp: synced_def counts_ok_def serve_event_def ch_recv_def split: list.splits)

end
