(* ===== verification/Daemon_Routing.thy ===== *)
theory Daemon_Routing
  imports Running_Dataflow
begin

text \<open>
  How a daemon routes between the nodes of one running dataflow
  (\<^verbatim>\<open>binaries/daemon/src/lib.rs\<close>): the tables built from the resolved nodes, the delivery of
  outputs, timer ticks and log messages, the closing of inputs with its circuit breaker, drop
  tokens, parameters, and the changes of a running topology.

  The current instant is an argument. A shared-memory region, which another process owns, is a
  parameter that maps its identifier to its bytes, or to nothing when it cannot be opened. Log
  output and statistics counters are left out.
\<close>

section \<open>Ports of a resolved node\<close>

definition operator_port :: "operator_id \<Rightarrow> data_id \<Rightarrow> ('e, data_id) outcome" where
  "operator_port op i = data_id_from (operator_name op @ ''/'' @ data_name i)"

definition runtime_node_inputs :: "operator_definition list \<Rightarrow> ('e, input_map) outcome" where
  "runtime_node_inputs ops =
     and_then
       (try_map (\<lambda>(op, i, m). and_then (operator_port op i) (\<lambda>p. Ok (p, m)))
          (concat (map (\<lambda>d. map (\<lambda>(i, m). (op_id d, i, m)) (inputs (op_run (op_config d)))) ops)))
       (\<lambda>kvs. Ok (bt_collect kvs))"

definition runtime_node_outputs :: "operator_definition list \<Rightarrow> ('e, data_id list) outcome" where
  "runtime_node_outputs ops =
     and_then
       (try_map (\<lambda>(op, i). operator_port op i)
          (concat (map (\<lambda>d. map (Pair (op_id d)) (outputs (op_run (op_config d)))) ops)))
       (\<lambda>ps. Ok (bs_collect ps))"

fun node_inputs :: "core_node_kind \<Rightarrow> ('e, input_map) outcome" where
  "node_inputs (Custom c) = Ok (inputs (run_config c))"
| "node_inputs (Runtime ops) = runtime_node_inputs ops"

fun kind_run_config :: "core_node_kind \<Rightarrow> ('e, node_run_config) outcome" where
  "kind_run_config (Runtime ops) =
     and_then (runtime_node_inputs ops) (\<lambda>is.
     and_then (runtime_node_outputs ops) (\<lambda>os.
     Ok \<lparr>inputs = is, outputs = os, output_types = [], output_framings = [], input_types = []\<rparr>))"
| "kind_run_config (Custom c) = Ok (run_config c)"

fun kind_dynamic :: "core_node_kind \<Rightarrow> bool" where
  "kind_dynamic (Runtime ops) = False"
| "kind_dynamic (Custom c) = (custom_source c = Local \<and> custom_path c = DYNAMIC_SOURCE)"

section \<open>Routing tables\<close>

definition open_input :: "node_id \<Rightarrow> data_id \<Rightarrow> running_dataflow \<Rightarrow> running_dataflow" where
  "open_input n i df = df\<lparr>open_inputs := bt_entry n [] (bs_insert i) (open_inputs df)\<rparr>"

definition add_mapping :: "output_id \<Rightarrow> port \<Rightarrow> running_dataflow \<Rightarrow> running_dataflow" where
  "add_mapping out p df = df\<lparr>mappings := hm_entry out [] (bs_insert p) (mappings df)\<rparr>"

definition arm_deadline ::
    "port \<Rightarrow> f64 option \<Rightarrow> running_dataflow \<Rightarrow> ('e, running_dataflow) outcome" where
  "arm_deadline p t df =
     (case t of
        None \<Rightarrow> Ok df
      | Some secs \<Rightarrow> and_then (from_secs_f64 secs) (\<lambda>d.
          Ok (df\<lparr>input_deadlines :=
                   hm_insert p \<lparr>timeout = d, last_received = None\<rparr> (input_deadlines df)\<rparr>)))"

text \<open>A local input, and an input of a node on another machine.\<close>

definition register_input ::
    "node_id \<Rightarrow> (data_id \<times> input) \<Rightarrow> running_dataflow \<Rightarrow> ('e, running_dataflow) outcome" where
  "register_input n = (\<lambda>(i, inp) df.
     let df1 = open_input n i df
     in case mapping inp of
          User src out \<Rightarrow>
            and_then (arm_deadline (n, i) (input_timeout inp) df1) (\<lambda>df2.
              Ok (add_mapping (src, out) (n, i) df2))
        | Timer interval \<Rightarrow>
            Ok (df1\<lparr>timers := bt_entry interval [] (bs_insert (n, i)) (timers df1)\<rparr>)
        | Logs f \<Rightarrow>
            Ok (df1\<lparr>log_subscribers :=
                  log_subscribers df1 @ [\<lparr>ls_node = n, ls_input = i, ls_filter = f\<rparr>]\<rparr>))"

definition register_remote_input :: "(data_id \<times> input) \<Rightarrow> running_dataflow \<Rightarrow> running_dataflow" where
  "register_remote_input = (\<lambda>(i, inp) df.
     case mapping inp of
       User src out \<Rightarrow>
         df\<lparr>open_external_mappings := bs_insert (src, out) (open_external_mappings df)\<rparr>
     | _ \<Rightarrow> df)"

definition register_resolved ::
    "node_id list \<Rightarrow> resolved_node \<Rightarrow> running_dataflow \<Rightarrow> ('e, running_dataflow) outcome" where
  "register_resolved spawn_nodes nd df =
     and_then (node_inputs (rn_kind nd)) (\<lambda>is.
       if rn_id nd \<in> set spawn_nodes then try_fold (register_input (rn_id nd)) is df
       else Ok (fold register_remote_input is df))"

section \<open>Delivering an output\<close>

definition remove_channel :: "node_id \<Rightarrow> running_dataflow \<Rightarrow> running_dataflow" where
  "remove_channel n df = df\<lparr>subscribe_channels := hm_remove n (subscribe_channels df)\<rparr>"

text \<open>A message that arrived re-opens an input the circuit breaker had closed.\<close>

definition recover_input ::
    "duration \<Rightarrow> nat \<Rightarrow> port \<Rightarrow> running_dataflow \<Rightarrow> running_dataflow" where
  "recover_input now ch = (\<lambda>(r, i) df.
     case map_of (broken_inputs df) (r, i) of
       None \<Rightarrow> df
     | Some t \<Rightarrow>
         send_counted ch r (NInputRecovered i)
           ((open_input r i (df\<lparr>broken_inputs := hm_remove (r, i) (broken_inputs df)\<rparr>))
              \<lparr>input_deadlines :=
                 hm_insert (r, i) \<lparr>timeout = t, last_received = Some now\<rparr> (input_deadlines df)\<rparr>))"

definition touch_deadline :: "duration \<Rightarrow> port \<Rightarrow> running_dataflow \<Rightarrow> running_dataflow" where
  "touch_deadline now p df =
     (case map_of (input_deadlines df) p of
        None \<Rightarrow> df
      | Some d \<Rightarrow>
          df\<lparr>input_deadlines := hm_insert p (d\<lparr>last_received := Some now\<rparr>) (input_deadlines df)\<rparr>)"

definition register_token :: "node_id \<Rightarrow> drop_token \<Rightarrow> running_dataflow \<Rightarrow> running_dataflow" where
  "register_token n t df =
     df\<lparr>pending_drop_tokens :=
          hm_entry t \<lparr>owner = n, token_nodes = []\<rparr> (\<lambda>info. info) (pending_drop_tokens df)\<rparr>"

definition hold_token :: "node_id \<Rightarrow> drop_token \<Rightarrow> node_id \<Rightarrow> running_dataflow \<Rightarrow> running_dataflow" where
  "hold_token n t r df =
     df\<lparr>pending_drop_tokens :=
          hm_entry t \<lparr>owner = n, token_nodes = []\<rparr>
            (\<lambda>info. info\<lparr>token_nodes := bs_insert r (token_nodes info)\<rparr>) (pending_drop_tokens df)\<rparr>"

definition deliver ::
    "node_id \<Rightarrow> metadata \<Rightarrow> data_message option \<Rightarrow> duration \<Rightarrow> port \<Rightarrow>
     node_id list \<times> running_dataflow \<Rightarrow> node_id list \<times> running_dataflow" where
  "deliver n md data now = (\<lambda>(r, i) (closed, df).
     case map_of (subscribe_channels df) r of
       None \<Rightarrow> (closed, df)
     | Some ch \<Rightarrow>
         if ch_capacity (channels df ch) < CONTROL_EVENT_HEADROOM then (closed, df)
         else (case try_send (NInput i md data) (channels df ch) of
             (Delivered, c) \<Rightarrow>
               let df1 = inc_pending r (df\<lparr>channels := (channels df)(ch := c)\<rparr>);
                   df2 = recover_input now ch (r, i) (touch_deadline now (r, i) df1)
               in (closed,
                   case Option.bind data data_drop_token of
                     None \<Rightarrow> df2
                   | Some t \<Rightarrow> hold_token n t r df2)
           | (ChannelClosed, c) \<Rightarrow> (closed @ [r], df)
           | (Dropped, c) \<Rightarrow> (closed, df)))"

datatype output_error = ShmemOpenFailed | ShmemTooShort

text \<open>The bytes for receivers on other machines, and the drop token of the message.\<close>

fun output_bytes ::
    "(string \<Rightarrow> nat list option) \<Rightarrow> data_message option \<Rightarrow>
     (output_error, nat list option \<times> drop_token option) outcome" where
  "output_bytes shm None = Ok (None, None)"
| "output_bytes shm (Some (DataVec v)) = Ok (Some v, None)"
| "output_bytes shm (Some (SharedMemory i len t)) =
     (case shm i of
        None \<Rightarrow> Err ShmemOpenFailed
      | Some region \<Rightarrow>
          if len > length region then Err ShmemTooShort
          else Ok (Some (take len region), Some t))"

definition mapped_ports :: "running_dataflow \<Rightarrow> output_id \<Rightarrow> port list" where
  "mapped_ports df out = (case map_of (mappings df) out of None \<Rightarrow> [] | Some ps \<Rightarrow> ps)"

definition send_output_to_local_receivers ::
    "(string \<Rightarrow> nat list option) \<Rightarrow> duration \<Rightarrow> output_id \<Rightarrow> metadata \<Rightarrow> data_message option \<Rightarrow>
     bool \<Rightarrow> running_dataflow \<Rightarrow> (output_error, nat list option) outcome \<times> running_dataflow" where
  "send_output_to_local_receivers shm now out md data need_bytes df =
     (let (closed, df1) = fold (deliver (fst out) md data now) (mapped_ports df out) ([], df);
          df2 = fold remove_channel closed df1
      in case (if need_bytes then output_bytes shm data
               else Ok (None, Option.bind data data_drop_token)) of
           Err e \<Rightarrow> (Err e, df2)
         | Panic \<Rightarrow> (Panic, df2)
         | Ok (bytes, token) \<Rightarrow>
             (Ok bytes,
              case token of
                None \<Rightarrow> df2
              | Some t \<Rightarrow> check_drop_token t (register_token (fst out) t df2)))"

text \<open>\<^verbatim>\<open>DaemonNodeEvent::ReportDrop\<close>: a node is done with the data of some tokens.\<close>

definition report_drop_token :: "node_id \<Rightarrow> drop_token \<Rightarrow> running_dataflow \<Rightarrow> running_dataflow" where
  "report_drop_token n t df =
     (case map_of (pending_drop_tokens df) t of
        None \<Rightarrow> df
      | Some info \<Rightarrow>
          if n \<in> set (token_nodes info) then
            check_drop_token t
              (df\<lparr>pending_drop_tokens :=
                    hm_insert t (info\<lparr>token_nodes := bs_remove n (token_nodes info)\<rparr>)
                      (pending_drop_tokens df)\<rparr>)
          else df)"

definition report_drop :: "node_id \<Rightarrow> drop_token list \<Rightarrow> running_dataflow \<Rightarrow> running_dataflow" where
  "report_drop n ts df = fold (report_drop_token n) ts df"

section \<open>Closing inputs\<close>

definition has_broken :: "running_dataflow \<Rightarrow> node_id \<Rightarrow> bool" where
  "has_broken df n \<longleftrightarrow> list_ex (\<lambda>(p, t). fst p = n) (broken_inputs df)"

definition remove_open :: "node_id \<Rightarrow> data_id \<Rightarrow> running_dataflow \<Rightarrow> running_dataflow" where
  "remove_open n i df =
     (case map_of (open_inputs df) n of
        None \<Rightarrow> df
      | Some is \<Rightarrow> df\<lparr>open_inputs := bt_insert n (bs_remove i is) (open_inputs df)\<rparr>)"

text \<open>The end of both closing functions: the last input of a node is gone for good.\<close>

definition notify_all_closed :: "nat \<Rightarrow> node_id \<Rightarrow> running_dataflow \<Rightarrow> running_dataflow" where
  "notify_all_closed ch n df =
     (if open_inputs_of df n = [] \<and> \<not> has_broken df n
      then send_counted ch n NAllInputsClosed (disable_restart_of n df)
      else df)"

definition close_input :: "port \<Rightarrow> running_dataflow \<Rightarrow> running_dataflow" where
  "close_input = (\<lambda>(r, i) df.
     let was_broken = (map_of (broken_inputs df) (r, i) \<noteq> None);
         was_open = (i \<in> set (open_inputs_of df r));
         df1 = remove_open r i (df\<lparr>broken_inputs := hm_remove (r, i) (broken_inputs df)\<rparr>)
     in if \<not> was_open \<and> \<not> was_broken then df1
        else (case map_of (subscribe_channels df1) r of
            None \<Rightarrow> df1
          | Some ch \<Rightarrow>
              notify_all_closed ch r
                (if was_open then send_counted ch r (NInputClosed i) df1 else df1)))"

definition break_input :: "port \<Rightarrow> running_dataflow \<Rightarrow> running_dataflow" where
  "break_input = (\<lambda>(r, i) df.
     if map_of (open_inputs df) r \<noteq> None \<and> i \<notin> set (open_inputs_of df r) then df
     else
       let df1 = remove_open r i df
       in case map_of (subscribe_channels df1) r of
            None \<Rightarrow> df1
          | Some ch \<Rightarrow> notify_all_closed ch r (send_counted ch r (NInputClosed i) df1))"

definition timed_out_inputs :: "duration \<Rightarrow> running_dataflow \<Rightarrow> (port \<times> duration) list" where
  "timed_out_inputs now df =
     map (\<lambda>(p, d). (p, timeout d))
       (filter (\<lambda>(p, d). map_of (broken_inputs df) p = None \<and> is_timed_out now d)
          (input_deadlines df))"

definition trip_breaker :: "port \<times> duration \<Rightarrow> running_dataflow \<Rightarrow> running_dataflow" where
  "trip_breaker = (\<lambda>(p, t) df.
     break_input p (df\<lparr>broken_inputs := hm_insert p t (broken_inputs df)\<rparr>))"

definition check_input_timeouts :: "duration \<Rightarrow> running_dataflow \<Rightarrow> running_dataflow" where
  "check_input_timeouts now df =
     (let timed_out = timed_out_inputs now df;
          df1 = fold trip_breaker timed_out df
      in df1\<lparr>input_deadlines :=
               fold (\<lambda>(p, t). hm_remove p) timed_out (input_deadlines df1)\<rparr>)"

text \<open>
  \<^verbatim>\<open>check_node_health\<close> on one dataflow: a connected node that was silent for too long is killed.
  Times are milliseconds since the epoch, as 64-bit numbers.
\<close>

definition unresponsive :: "nat \<Rightarrow> running_node \<Rightarrow> bool" where
  "unresponsive now_millis r \<longleftrightarrow>
     (case health_timeout r of
        None \<Rightarrow> False
      | Some t \<Rightarrow>
          last_activity r \<noteq> 0 \<and>
          now_millis - last_activity r > as_millis t mod 2 ^ 64)"

definition check_node_health :: "nat \<Rightarrow> running_dataflow \<Rightarrow> running_dataflow" where
  "check_node_health now_millis df =
     fold (\<lambda>(n, r) d.
         if unresponsive now_millis r
         then (case process r of None \<Rightarrow> d | Some h \<Rightarrow> snd (submit h Kill d))
         else d)
       (running_nodes df) df"

definition close_local_outputs :: "node_id \<Rightarrow> data_id list \<Rightarrow> running_dataflow \<Rightarrow> running_dataflow" where
  "close_local_outputs n outs df =
     fold close_input
       (bs_collect (concat (map snd (filter (\<lambda>(k, v). fst k = n \<and> snd k \<in> set outs) (mappings df)))))
       df"

definition closed_external_outputs :: "node_id \<Rightarrow> data_id list \<Rightarrow> running_dataflow \<Rightarrow> output_id list" where
  "closed_external_outputs n outs df =
     filter (\<lambda>k. fst k = n \<and> snd k \<in> set outs) (open_external_mappings df)"

section \<open>Subscribing\<close>

definition closed_inputs_of :: "node_id \<Rightarrow> running_dataflow \<Rightarrow> data_id list" where
  "closed_inputs_of n df =
     filter (\<lambda>i. case map_of (open_inputs df) n of None \<Rightarrow> True | Some is \<Rightarrow> i \<notin> set is)
       (map snd (filter (\<lambda>p. fst p = n) (concat (map snd (mappings df)))))"

definition find_node :: "descriptor \<Rightarrow> node_id \<Rightarrow> node option" where
  "find_node d n = List.find (\<lambda>nd. id_of nd = n) (nodes d)"

definition subscribe_node :: "node_id \<Rightarrow> nat \<Rightarrow> running_dataflow \<Rightarrow> running_dataflow" where
  "subscribe_node n ch df =
     (let df1 = fold (\<lambda>i. send_counted ch n (NInputClosed i)) (closed_inputs_of n df) df;
          df2 = (if open_inputs_of df1 n = [] then
                   let d = disable_restart_of n df1
                   in case find_node (df_descriptor d) n of
                        None \<Rightarrow> d
                      | Some nd \<Rightarrow>
                          if inputs (node_run nd) = [] then d
                          else send_counted ch n NAllInputsClosed d
                 else df1);
          df3 = (if stop_sent df2
                 then send_counted ch n NStop (disable_restart_of n df2) else df2)
      in df3\<lparr>subscribe_channels := hm_insert n ch (subscribe_channels df3)\<rparr>)"

section \<open>Timers and logs\<close>

text \<open>An event for every subscriber; a subscriber whose channel is closed is forgotten afterwards.\<close>

definition broadcast_input ::
    "(data_id \<Rightarrow> node_event) \<Rightarrow> port \<Rightarrow> node_id list \<times> running_dataflow \<Rightarrow>
     node_id list \<times> running_dataflow" where
  "broadcast_input ev = (\<lambda>(r, i) (closed, df).
     case map_of (subscribe_channels df) r of
       None \<Rightarrow> (closed, df)
     | Some ch \<Rightarrow>
         (case channel_send ch (ev i) df of
            (Delivered, df') \<Rightarrow> (closed, inc_pending r df')
          | (Dropped, df') \<Rightarrow> (closed, df')
          | (ChannelClosed, df') \<Rightarrow> (closed @ [r], df')))"

definition broadcast ::
    "(data_id \<Rightarrow> node_event) \<Rightarrow> port list \<Rightarrow> running_dataflow \<Rightarrow> running_dataflow" where
  "broadcast ev ps df =
     (let (closed, df1) = fold (broadcast_input ev) ps ([], df)
      in fold remove_channel closed df1)"

definition timer_tick :: "duration \<Rightarrow> metadata \<Rightarrow> running_dataflow \<Rightarrow> running_dataflow" where
  "timer_tick interval md df =
     (case map_of (timers df) interval of
        None \<Rightarrow> df
      | Some ps \<Rightarrow> broadcast (\<lambda>i. NInput i md None) ps df)"

definition logs_event ::
    "output_id \<Rightarrow> metadata \<Rightarrow> data_message \<Rightarrow> running_dataflow \<Rightarrow> running_dataflow" where
  "logs_event out md msg df =
     (case map_of (mappings df) out of
        None \<Rightarrow> df
      | Some ps \<Rightarrow> broadcast (\<lambda>i. NInput i md (Some msg)) ps df)"

text \<open>The level and the node of a log message decide which subscribers get it.\<close>

definition wants_log ::
    "log_level_or_stdout \<Rightarrow> node_id option \<Rightarrow> log_subscriber \<Rightarrow> bool" where
  "wants_log level from_node s \<longleftrightarrow>
     (case min_level (ls_filter s) of None \<Rightarrow> True | Some l \<Rightarrow> passes level l) \<and>
     (case node_filter (ls_filter s) of None \<Rightarrow> True | Some n \<Rightarrow> from_node = Some n) \<and>
     from_node \<noteq> Some (ls_node s)"

definition log_broadcast ::
    "log_level_or_stdout \<Rightarrow> node_id option \<Rightarrow> metadata \<Rightarrow> nat list \<Rightarrow> running_dataflow \<Rightarrow>
     running_dataflow" where
  "log_broadcast level from_node md sample df =
     (let targets = map (\<lambda>s. (ls_node s, ls_input s))
                      (filter (wants_log level from_node) (log_subscribers df));
          (closed, df1) =
            fold (broadcast_input (\<lambda>i. NInput i md (Some (DataVec sample)))) targets ([], df);
          df2 = fold remove_channel closed df1
      in df2\<lparr>log_subscribers := filter (\<lambda>s. ls_node s \<notin> set closed) (log_subscribers df2)\<rparr>)"

section \<open>Parameters and reloads\<close>

datatype param_error = NotConnected node_id | ChannelFull node_id | ParamChannelClosed node_id

definition deliver_strict ::
    "node_id \<Rightarrow> node_event \<Rightarrow> running_dataflow \<Rightarrow> (param_error, unit) outcome \<times> running_dataflow" where
  "deliver_strict n ev df =
     (case map_of (subscribe_channels df) n of
        None \<Rightarrow> (Err (NotConnected n), df)
      | Some ch \<Rightarrow>
          (case channel_send ch ev df of
             (Delivered, df') \<Rightarrow> (Ok (), inc_pending n df')
           | (Dropped, df') \<Rightarrow> (Err (ChannelFull n), df')
           | (ChannelClosed, df') \<Rightarrow> (Err (ParamChannelClosed n), df')))"

definition deliver_param_update_strict ::
    "node_id \<Rightarrow> string \<Rightarrow> nat \<Rightarrow> running_dataflow \<Rightarrow> (param_error, unit) outcome \<times> running_dataflow" where
  "deliver_param_update_strict n key value df = deliver_strict n (NParamUpdate key value) df"

definition deliver_param_delete_strict ::
    "node_id \<Rightarrow> string \<Rightarrow> running_dataflow \<Rightarrow> (param_error, unit) outcome \<times> running_dataflow" where
  "deliver_param_delete_strict n key df = deliver_strict n (NParamDeleted key) df"

datatype catch_up_operation = SetParam node_id string nat | DeleteParam node_id string

record catch_up_entry =
  ce_sequence :: nat
  ce_operation :: catch_up_operation

fun catch_up_target :: "catch_up_operation \<Rightarrow> node_id" where
  "catch_up_target (SetParam n k v) = n"
| "catch_up_target (DeleteParam n k) = n"

fun catch_up_event :: "catch_up_operation \<Rightarrow> node_event" where
  "catch_up_event (SetParam n k v) = NParamUpdate k v"
| "catch_up_event (DeleteParam n k) = NParamDeleted k"

fun apply_entries :: "nat \<Rightarrow> catch_up_entry list \<Rightarrow> running_dataflow \<Rightarrow> nat \<times> running_dataflow" where
  "apply_entries applied [] df = (applied, df)"
| "apply_entries applied (e # es) df =
     (case map_of (subscribe_channels df) (catch_up_target (ce_operation e)) of
        None \<Rightarrow> (applied, df)
      | Some ch \<Rightarrow>
          (case channel_send ch (catch_up_event (ce_operation e)) df of
             (Delivered, df') \<Rightarrow>
               apply_entries (ce_sequence e) es (inc_pending (catch_up_target (ce_operation e)) df')
           | (_, df') \<Rightarrow> (applied, df')))"

definition apply_state_catch_up_entries ::
    "catch_up_entry list \<Rightarrow> running_dataflow \<Rightarrow> nat \<times> running_dataflow" where
  "apply_state_catch_up_entries es df = apply_entries 0 es df"

definition send_reload :: "node_id \<Rightarrow> operator_id option \<Rightarrow> running_dataflow \<Rightarrow> running_dataflow" where
  "send_reload n op df =
     (case map_of (subscribe_channels df) n of
        None \<Rightarrow> df
      | Some ch \<Rightarrow>
          (case channel_send ch (NReload op) df of
             (Delivered, df') \<Rightarrow> inc_pending n df'
           | (Dropped, df') \<Rightarrow> df'
           | (ChannelClosed, df') \<Rightarrow> remove_channel n df'))"

section \<open>Changes of a running topology\<close>

text \<open>
  \<^verbatim>\<open>AddNode\<close> once the process has been spawned: the running node, and the node that is appended
  to the stored descriptor, are arguments.
\<close>

text \<open>The entry that a node added later has in the stored descriptor: its name and its inputs.\<close>

definition bare_node :: "node_id \<Rightarrow> input_map \<Rightarrow> node" where
  "bare_node n is =
     \<lparr>id_of = n, name_of = None, description_of = None, path_of = None, args_of = None, env_of = None,
      operators = None, operator = None, ros2 = None, custom = None,
      node_run = \<lparr>inputs = is, outputs = [], output_types = [], output_framings = [], input_types = []\<rparr>,
      output_metadata = [], pattern = None,
      node_log = \<lparr>send_stdout_as = None, send_logs_as = None, min_log_level = None,
                   max_log_size = None, max_rotated_files = None\<rparr>,
      build_of = None,
      node_git = \<lparr>git = None, branch = None, tag = None, revision = None\<rparr>,
      node_restart = \<lparr>restart_policy = Never, max_restarts = 0, restart_delay = None,
                       max_restart_delay = None, restart_window = None, health_check_timeout = None\<rparr>,
      module_of = None, params_of = [], cpu_affinity = None, deploy_of = None\<rparr>"

definition add_node ::
    "resolved_node \<Rightarrow> running_node \<Rightarrow> running_dataflow \<Rightarrow> ('e, running_dataflow) outcome" where
  "add_node nd running df =
     and_then (node_inputs (rn_kind nd)) (\<lambda>is.
     and_then (try_fold (register_input (rn_id nd)) is df) (\<lambda>df1.
       let df2 = (if kind_dynamic (rn_kind nd)
                  then df1\<lparr>dynamic_nodes := bs_insert (rn_id nd) (dynamic_nodes df1)\<rparr>
                  else df1\<lparr>df_pending := pending_insert (rn_id nd) (df_pending df1)\<rparr>)
       in Ok (df2\<lparr>running_nodes := bt_insert (rn_id nd) running (running_nodes df2),
                  df_descriptor :=
                    (df_descriptor df2)\<lparr>nodes := nodes (df_descriptor df2) @ [bare_node (rn_id nd) is]\<rparr>\<rparr>)))"

definition remove_mapping_entry :: "output_id \<Rightarrow> running_dataflow \<Rightarrow> running_dataflow" where
  "remove_mapping_entry out df =
     fold close_input (mapped_ports df out) (df\<lparr>mappings := hm_remove out (mappings df)\<rparr>)"

definition remove_node :: "node_id \<Rightarrow> duration option \<Rightarrow> running_dataflow \<Rightarrow> running_dataflow" where
  "remove_node n grace df =
     (let df1 = snd (stop_single_node n grace df);
          df2 = fold remove_mapping_entry (filter (\<lambda>k. fst k = n) (map fst (mappings df1))) df1
      in df2\<lparr>mappings := map (\<lambda>(k, ps). (k, filter (\<lambda>p. fst p \<noteq> n) ps)) (mappings df2),
             running_nodes := bt_remove n (running_nodes df2),
             open_inputs := bt_remove n (open_inputs df2),
             subscribe_channels := hm_remove n (subscribe_channels df2),
             drop_channels := hm_remove n (drop_channels df2),
             pending_messages := hm_remove n (pending_messages df2),
             df_descriptor :=
               (df_descriptor df2)\<lparr>nodes :=
                  filter (\<lambda>nd. id_of nd \<noteq> n) (nodes (df_descriptor df2))\<rparr>\<rparr>)"

definition connect_ports :: "output_id \<Rightarrow> port \<Rightarrow> running_dataflow \<Rightarrow> running_dataflow" where
  "connect_ports out p df = open_input (fst p) (snd p) (add_mapping out p df)"

definition disconnect_ports :: "output_id \<Rightarrow> port \<Rightarrow> running_dataflow \<Rightarrow> running_dataflow" where
  "disconnect_ports out p df =
     (if p \<in> set (mapped_ports df out)
      then close_input p
             (df\<lparr>mappings := hm_insert out (bs_remove p (mapped_ports df out)) (mappings df)\<rparr>)
      else df)"

definition start_topic_debug_stream ::
    "output_id list \<Rightarrow> nat \<Rightarrow> running_dataflow \<Rightarrow> running_dataflow" where
  "start_topic_debug_stream outs sub df =
     df\<lparr>debug_topic_watchers :=
          fold (\<lambda>out. bt_entry out [] (bs_insert sub)) outs (debug_topic_watchers df)\<rparr>"

definition stop_topic_debug_stream :: "nat \<Rightarrow> running_dataflow \<Rightarrow> running_dataflow" where
  "stop_topic_debug_stream sub df =
     df\<lparr>debug_topic_watchers :=
          filter (\<lambda>(out, ws). ws \<noteq> [])
            (map (\<lambda>(out, ws). (out, bs_remove sub ws)) (debug_topic_watchers df))\<rparr>"

section \<open>What the operations leave alone\<close>

lemma open_input_frame [simp]:
  "subscribe_channels (open_input n i df) = subscribe_channels df"
  "pending_messages (open_input n i df) = pending_messages df"
  "drop_channels (open_input n i df) = drop_channels df"
  "mappings (open_input n i df) = mappings df"
  "input_deadlines (open_input n i df) = input_deadlines df"
  "broken_inputs (open_input n i df) = broken_inputs df"
  "running_nodes (open_input n i df) = running_nodes df"
  "pending_drop_tokens (open_input n i df) = pending_drop_tokens df"
  "stop_sent (open_input n i df) = stop_sent df"
  "channels (open_input n i df) = channels df"
  "counters (open_input n i df) = counters df"
  "drop_queues (open_input n i df) = drop_queues df"
  "df_descriptor (open_input n i df) = df_descriptor df"
  "df_pending (open_input n i df) = df_pending df"
  by (simp_all add: open_input_def)

lemma add_mapping_frame [simp]:
  "subscribe_channels (add_mapping out p df) = subscribe_channels df"
  "pending_messages (add_mapping out p df) = pending_messages df"
  "drop_channels (add_mapping out p df) = drop_channels df"
  "open_inputs (add_mapping out p df) = open_inputs df"
  "input_deadlines (add_mapping out p df) = input_deadlines df"
  "broken_inputs (add_mapping out p df) = broken_inputs df"
  "running_nodes (add_mapping out p df) = running_nodes df"
  "pending_drop_tokens (add_mapping out p df) = pending_drop_tokens df"
  "stop_sent (add_mapping out p df) = stop_sent df"
  "channels (add_mapping out p df) = channels df"
  "counters (add_mapping out p df) = counters df"
  "drop_queues (add_mapping out p df) = drop_queues df"
  "df_descriptor (add_mapping out p df) = df_descriptor df"
  "df_pending (add_mapping out p df) = df_pending df"
  by (simp_all add: add_mapping_def)

lemma remove_open_frame [simp]:
  "subscribe_channels (remove_open n i df) = subscribe_channels df"
  "pending_messages (remove_open n i df) = pending_messages df"
  "drop_channels (remove_open n i df) = drop_channels df"
  "mappings (remove_open n i df) = mappings df"
  "input_deadlines (remove_open n i df) = input_deadlines df"
  "broken_inputs (remove_open n i df) = broken_inputs df"
  "running_nodes (remove_open n i df) = running_nodes df"
  "pending_drop_tokens (remove_open n i df) = pending_drop_tokens df"
  "stop_sent (remove_open n i df) = stop_sent df"
  "channels (remove_open n i df) = channels df"
  "counters (remove_open n i df) = counters df"
  "drop_queues (remove_open n i df) = drop_queues df"
  "df_descriptor (remove_open n i df) = df_descriptor df"
  "df_pending (remove_open n i df) = df_pending df"
  by (simp_all add: remove_open_def split: prod.splits option.splits)

lemma remove_channel_frame [simp]:
  "pending_messages (remove_channel n df) = pending_messages df"
  "drop_channels (remove_channel n df) = drop_channels df"
  "mappings (remove_channel n df) = mappings df"
  "open_inputs (remove_channel n df) = open_inputs df"
  "input_deadlines (remove_channel n df) = input_deadlines df"
  "broken_inputs (remove_channel n df) = broken_inputs df"
  "running_nodes (remove_channel n df) = running_nodes df"
  "pending_drop_tokens (remove_channel n df) = pending_drop_tokens df"
  "stop_sent (remove_channel n df) = stop_sent df"
  "channels (remove_channel n df) = channels df"
  "counters (remove_channel n df) = counters df"
  "drop_queues (remove_channel n df) = drop_queues df"
  "df_descriptor (remove_channel n df) = df_descriptor df"
  "df_pending (remove_channel n df) = df_pending df"
  by (simp_all add: remove_channel_def)

lemma notify_all_closed_frame [simp]:
  "subscribe_channels (notify_all_closed ch n df) = subscribe_channels df"
  "pending_messages (notify_all_closed ch n df) = pending_messages df"
  "drop_channels (notify_all_closed ch n df) = drop_channels df"
  "mappings (notify_all_closed ch n df) = mappings df"
  "open_inputs (notify_all_closed ch n df) = open_inputs df"
  "input_deadlines (notify_all_closed ch n df) = input_deadlines df"
  "broken_inputs (notify_all_closed ch n df) = broken_inputs df"
  "pending_drop_tokens (notify_all_closed ch n df) = pending_drop_tokens df"
  "stop_sent (notify_all_closed ch n df) = stop_sent df"
  "drop_queues (notify_all_closed ch n df) = drop_queues df"
  "df_descriptor (notify_all_closed ch n df) = df_descriptor df"
  "df_pending (notify_all_closed ch n df) = df_pending df"
  by (simp_all add: notify_all_closed_def)

lemma close_input_frame [simp]:
  "subscribe_channels (close_input p df) = subscribe_channels df"
  "pending_messages (close_input p df) = pending_messages df"
  "drop_channels (close_input p df) = drop_channels df"
  "mappings (close_input p df) = mappings df"
  "input_deadlines (close_input p df) = input_deadlines df"
  "pending_drop_tokens (close_input p df) = pending_drop_tokens df"
  "stop_sent (close_input p df) = stop_sent df"
  "drop_queues (close_input p df) = drop_queues df"
  "df_descriptor (close_input p df) = df_descriptor df"
  "df_pending (close_input p df) = df_pending df"
  by (simp_all add: close_input_def Let_def split: prod.splits option.splits)

lemma break_input_frame [simp]:
  "subscribe_channels (break_input p df) = subscribe_channels df"
  "pending_messages (break_input p df) = pending_messages df"
  "drop_channels (break_input p df) = drop_channels df"
  "mappings (break_input p df) = mappings df"
  "input_deadlines (break_input p df) = input_deadlines df"
  "broken_inputs (break_input p df) = broken_inputs df"
  "pending_drop_tokens (break_input p df) = pending_drop_tokens df"
  "stop_sent (break_input p df) = stop_sent df"
  "drop_queues (break_input p df) = drop_queues df"
  "df_descriptor (break_input p df) = df_descriptor df"
  "df_pending (break_input p df) = df_pending df"
  by (simp_all add: break_input_def Let_def split: prod.splits option.splits)

lemma trip_breaker_frame [simp]:
  "subscribe_channels (trip_breaker pt df) = subscribe_channels df"
  "pending_messages (trip_breaker pt df) = pending_messages df"
  "drop_channels (trip_breaker pt df) = drop_channels df"
  "mappings (trip_breaker pt df) = mappings df"
  "input_deadlines (trip_breaker pt df) = input_deadlines df"
  "pending_drop_tokens (trip_breaker pt df) = pending_drop_tokens df"
  "stop_sent (trip_breaker pt df) = stop_sent df"
  "drop_queues (trip_breaker pt df) = drop_queues df"
  "df_descriptor (trip_breaker pt df) = df_descriptor df"
  "df_pending (trip_breaker pt df) = df_pending df"
  by (simp_all add: trip_breaker_def split: prod.splits)

lemma touch_deadline_frame [simp]:
  "subscribe_channels (touch_deadline now p df) = subscribe_channels df"
  "pending_messages (touch_deadline now p df) = pending_messages df"
  "drop_channels (touch_deadline now p df) = drop_channels df"
  "mappings (touch_deadline now p df) = mappings df"
  "open_inputs (touch_deadline now p df) = open_inputs df"
  "broken_inputs (touch_deadline now p df) = broken_inputs df"
  "running_nodes (touch_deadline now p df) = running_nodes df"
  "pending_drop_tokens (touch_deadline now p df) = pending_drop_tokens df"
  "stop_sent (touch_deadline now p df) = stop_sent df"
  "channels (touch_deadline now p df) = channels df"
  "counters (touch_deadline now p df) = counters df"
  "drop_queues (touch_deadline now p df) = drop_queues df"
  "df_descriptor (touch_deadline now p df) = df_descriptor df"
  "df_pending (touch_deadline now p df) = df_pending df"
  by (simp_all add: touch_deadline_def split: option.splits)

lemma recover_input_frame [simp]:
  "subscribe_channels (recover_input now ch p df) = subscribe_channels df"
  "pending_messages (recover_input now ch p df) = pending_messages df"
  "drop_channels (recover_input now ch p df) = drop_channels df"
  "mappings (recover_input now ch p df) = mappings df"
  "running_nodes (recover_input now ch p df) = running_nodes df"
  "pending_drop_tokens (recover_input now ch p df) = pending_drop_tokens df"
  "stop_sent (recover_input now ch p df) = stop_sent df"
  "drop_queues (recover_input now ch p df) = drop_queues df"
  "df_descriptor (recover_input now ch p df) = df_descriptor df"
  "df_pending (recover_input now ch p df) = df_pending df"
  by (simp_all add: recover_input_def split: prod.splits option.splits)

lemma register_token_frame [simp]:
  "subscribe_channels (register_token n t df) = subscribe_channels df"
  "pending_messages (register_token n t df) = pending_messages df"
  "drop_channels (register_token n t df) = drop_channels df"
  "mappings (register_token n t df) = mappings df"
  "open_inputs (register_token n t df) = open_inputs df"
  "input_deadlines (register_token n t df) = input_deadlines df"
  "broken_inputs (register_token n t df) = broken_inputs df"
  "running_nodes (register_token n t df) = running_nodes df"
  "stop_sent (register_token n t df) = stop_sent df"
  "channels (register_token n t df) = channels df"
  "counters (register_token n t df) = counters df"
  "drop_queues (register_token n t df) = drop_queues df"
  "df_descriptor (register_token n t df) = df_descriptor df"
  "df_pending (register_token n t df) = df_pending df"
  by (simp_all add: register_token_def)

lemma hold_token_frame [simp]:
  "subscribe_channels (hold_token n t r df) = subscribe_channels df"
  "pending_messages (hold_token n t r df) = pending_messages df"
  "drop_channels (hold_token n t r df) = drop_channels df"
  "mappings (hold_token n t r df) = mappings df"
  "open_inputs (hold_token n t r df) = open_inputs df"
  "input_deadlines (hold_token n t r df) = input_deadlines df"
  "broken_inputs (hold_token n t r df) = broken_inputs df"
  "running_nodes (hold_token n t r df) = running_nodes df"
  "stop_sent (hold_token n t r df) = stop_sent df"
  "channels (hold_token n t r df) = channels df"
  "counters (hold_token n t r df) = counters df"
  "drop_queues (hold_token n t r df) = drop_queues df"
  "df_descriptor (hold_token n t r df) = df_descriptor df"
  "df_pending (hold_token n t r df) = df_pending df"
  by (simp_all add: hold_token_def)

lemma report_drop_token_frame [simp]:
  "subscribe_channels (report_drop_token n t df) = subscribe_channels df"
  "pending_messages (report_drop_token n t df) = pending_messages df"
  "drop_channels (report_drop_token n t df) = drop_channels df"
  "mappings (report_drop_token n t df) = mappings df"
  "open_inputs (report_drop_token n t df) = open_inputs df"
  "input_deadlines (report_drop_token n t df) = input_deadlines df"
  "broken_inputs (report_drop_token n t df) = broken_inputs df"
  "running_nodes (report_drop_token n t df) = running_nodes df"
  "stop_sent (report_drop_token n t df) = stop_sent df"
  "channels (report_drop_token n t df) = channels df"
  "counters (report_drop_token n t df) = counters df"
  "df_descriptor (report_drop_token n t df) = df_descriptor df"
  "df_pending (report_drop_token n t df) = df_pending df"
  by (simp_all add: report_drop_token_def split: option.splits)

lemma open_inputs_of_simps [simp]:
  "open_inputs_of (remove_open n i df) m =
     (if m = n then bs_remove i (open_inputs_of df m) else open_inputs_of df m)"
  "open_inputs_of (open_input n i df) m =
     (if m = n then bs_insert i (open_inputs_of df m) else open_inputs_of df m)"
  by (auto simp: open_inputs_of_def remove_open_def open_input_def bs_remove_def split: option.splits)

lemma open_inputs_of_cong:
  "open_inputs df = open_inputs df' \<Longrightarrow> open_inputs_of df m = open_inputs_of df' m"
  by (simp add: open_inputs_of_def)

lemma open_inputs_of_notify [simp]: "open_inputs_of (notify_all_closed ch n df) m = open_inputs_of df m"
  by (rule open_inputs_of_cong) simp

lemma open_inputs_of_update [simp]:
  "open_inputs_of (df\<lparr>broken_inputs := b\<rparr>) m = open_inputs_of df m"
  "open_inputs_of (df\<lparr>input_deadlines := d\<rparr>) m = open_inputs_of df m"
  "open_inputs_of (df\<lparr>channels := c\<rparr>) m = open_inputs_of df m"
  "open_inputs_of (df\<lparr>mappings := x\<rparr>) m = open_inputs_of df m"
  by (simp_all add: open_inputs_of_def)

section \<open>Invariants of sending\<close>

text \<open>
  Most handlers only send events to subscribed nodes and forget nodes whose channel is closed. What
  these two actions, and updates of the tables that describe processes and log subscribers, leave
  intact is left intact by all of them.
\<close>

lemma channel_send_counted:
  "channel_send ch ev df = (Delivered, df') \<Longrightarrow> inc_pending n df' = send_counted ch n ev df"
  by (simp add: send_counted_def)

lemma channel_send_failed:
  "channel_send ch ev df = (x, df') \<Longrightarrow> x \<noteq> Delivered \<Longrightarrow> df' = df"
  using send_not_delivered[of ev "channels df ch"]
  by (auto simp: channel_send_def split: prod.splits)

lemma apply_entries_Cons:
  "apply_entries a (e # es) df =
     (case map_of (subscribe_channels df) (catch_up_target (ce_operation e)) of
        None \<Rightarrow> (a, df)
      | Some ch \<Rightarrow>
          if fst (channel_send ch (catch_up_event (ce_operation e)) df) = Delivered
          then apply_entries (ce_sequence e) es
                 (send_counted ch (catch_up_target (ce_operation e)) (catch_up_event (ce_operation e)) df)
          else (a, df))"
  by (auto simp: channel_send_counted dest: channel_send_failed
      split: option.splits prod.splits send_result.splits)

declare apply_entries.simps(2) [simp del]

locale send_invariant =
  fixes I :: "running_dataflow \<Rightarrow> bool"
  assumes send: "I df \<Longrightarrow> map_of (subscribe_channels df) n = Some ch \<Longrightarrow> I (send_counted ch n ev df)"
    and forget: "I df \<Longrightarrow> I (remove_channel n df)"
    and processes: "I df \<Longrightarrow> I (df\<lparr>running_nodes := rs\<rparr>)" "I df \<Longrightarrow> I (df\<lparr>kill_tasks := ks\<rparr>)"
    and subscribers: "I df \<Longrightarrow> I (df\<lparr>log_subscribers := ls\<rparr>)"
begin

lemma forget_all: "I df \<Longrightarrow> I (fold remove_channel ns df)"
  by (induction ns arbitrary: df) (auto simp: forget)

lemma broadcast_one: "I (snd s) \<Longrightarrow> I (snd (broadcast_input ev p s))"
  by (cases s; cases p)
    (auto simp: broadcast_input_def channel_send_counted dest: channel_send_failed intro!: send
      split: option.splits prod.splits send_result.splits)

lemma broadcast_many: "I (snd s) \<Longrightarrow> I (snd (fold (broadcast_input ev) ps s))"
  by (induction ps arbitrary: s) (auto simp: broadcast_one)

lemma broadcast_all: "I df \<Longrightarrow> I (broadcast ev ps df)"
  using broadcast_many[of "([], df)" ev ps]
  by (auto simp: broadcast_def Let_def forget_all split: prod.splits)

lemma tick: "I df \<Longrightarrow> I (timer_tick interval md df)"
  by (simp add: timer_tick_def broadcast_all split: option.splits)

lemma logs: "I df \<Longrightarrow> I (logs_event out md msg df)"
  by (simp add: logs_event_def broadcast_all split: option.splits)

lemma log_message: "I df \<Longrightarrow> I (log_broadcast l n md sample df)"
  using broadcast_many[of "([], df)" "\<lambda>i. NInput i md (Some (DataVec sample))"
      "map (\<lambda>s. (ls_node s, ls_input s)) (filter (wants_log l n) (log_subscribers df))"]
  by (auto simp: log_broadcast_def Let_def forget_all subscribers split: prod.splits)

lemma strict: "I df \<Longrightarrow> I (snd (deliver_strict n ev df))"
  by (auto simp: deliver_strict_def channel_send_counted dest: channel_send_failed intro!: send
      split: option.splits prod.splits send_result.splits)

lemma param_update: "I df \<Longrightarrow> I (snd (deliver_param_update_strict n k v df))"
  by (simp add: deliver_param_update_strict_def strict)

lemma param_delete: "I df \<Longrightarrow> I (snd (deliver_param_delete_strict n k df))"
  by (simp add: deliver_param_delete_strict_def strict)

lemma entries: "I df \<Longrightarrow> I (snd (apply_entries a es df))"
  by (induction es arbitrary: a df) (auto simp: apply_entries_Cons send split: option.splits)

lemma catch_up: "I df \<Longrightarrow> I (snd (apply_state_catch_up_entries es df))"
  by (simp add: apply_state_catch_up_entries_def entries)

lemma reload: "I df \<Longrightarrow> I (send_reload n op df)"
  by (auto simp: send_reload_def channel_send_counted dest: channel_send_failed intro: send forget
      split: option.splits prod.splits send_result.splits)

lemma schedule_kill: "I df \<Longrightarrow> I (send_stop_and_schedule_kill n h g d df)"
  by (auto simp: send_stop_and_schedule_kill_def Let_def send processes split: option.splits)

lemma stop_node: "I df \<Longrightarrow> I (snd (stop_single_node n g df))"
  by (simp add: stop_single_node_def schedule_kill processes split: option.splits)

lemma restart_node: "I df \<Longrightarrow> I (snd (restart_single_node n g df))"
  by (simp add: restart_single_node_def schedule_kill processes split: option.splits)

end

section \<open>The circuit breaker\<close>

lemma close_input_open [simp]:
  "open_inputs_of (close_input (r, i) df) m =
     (if m = r then bs_remove i (open_inputs_of df m) else open_inputs_of df m)"
  by (auto simp: close_input_def Let_def split: option.splits)

lemma close_input_broken [simp]:
  "broken_inputs (close_input (r, i) df) = hm_remove (r, i) (broken_inputs df)"
  by (simp add: close_input_def Let_def split: option.splits)

lemma break_input_open [simp]:
  "open_inputs_of (break_input (r, i) df) m =
     (if m = r then bs_remove i (open_inputs_of df m) else open_inputs_of df m)"
  by (auto simp: break_input_def Let_def split: option.splits)

lemma trip_breaker_broken [simp]:
  "broken_inputs (trip_breaker (p, t) df) = hm_insert p t (broken_inputs df)"
  by (simp add: trip_breaker_def)

lemma trip_breaker_open [simp]:
  "open_inputs_of (trip_breaker ((r, i), t) df) m =
     (if m = r then bs_remove i (open_inputs_of df m) else open_inputs_of df m)"
  by (simp add: trip_breaker_def)

text \<open>A broken input is not open, and no deadline runs for it.\<close>

definition breaker_ok :: "running_dataflow \<Rightarrow> bool" where
  "breaker_ok df \<longleftrightarrow>
     (\<forall>r i t. map_of (broken_inputs df) (r, i) = Some t \<longrightarrow>
        i \<notin> set (open_inputs_of df r) \<and> map_of (input_deadlines df) (r, i) = None)"

lemma breaker_ok_cong:
  "open_inputs df = open_inputs df' \<Longrightarrow> broken_inputs df = broken_inputs df' \<Longrightarrow>
   input_deadlines df = input_deadlines df' \<Longrightarrow> breaker_ok df \<longleftrightarrow> breaker_ok df'"
  by (simp add: breaker_ok_def open_inputs_of_def)

lemma breaker_ok_close: "breaker_ok df \<Longrightarrow> breaker_ok (close_input p df)"
  by (cases p) (auto simp: breaker_ok_def)

lemma breaker_ok_close_fold: "breaker_ok df \<Longrightarrow> breaker_ok (fold close_input ps df)"
  by (induction ps arbitrary: df) (auto simp: breaker_ok_close)

lemma trip_fold:
  fixes pts :: "(port \<times> duration) list"
  defines "df' df \<equiv> fold trip_breaker pts df"
  shows "map_of (broken_inputs (df' df)) p =
      (case map_of (rev pts) p of None \<Rightarrow> map_of (broken_inputs df) p | Some t \<Rightarrow> Some t)"
    and "set (open_inputs_of (df' df) r) = set (open_inputs_of df r) - {i. (r, i) \<in> fst ` set pts}"
    and "input_deadlines (df' df) = input_deadlines df"
  unfolding df'_def
proof (induction pts arbitrary: df)
  case (Cons pt pts)
  obtain q j t where pt: "pt = ((q, j), t)" by (metis prod.exhaust)
  {
    case 1
    show ?case using Cons(1)[of "trip_breaker pt df"] pt
      by (auto simp: map_add_def split: option.splits)
  next
    case 2
    show ?case using Cons(2)[of "trip_breaker pt df"] pt by auto
  next
    case 3
    show ?case using Cons(3)[of "trip_breaker pt df"] by simp
  }
qed simp_all

lemma hm_remove_fold:
  "map_of (fold (\<lambda>(p, t). hm_remove p) pts m) q = (if q \<in> fst ` set pts then None else map_of m q)"
  by (induction pts arbitrary: m) auto

lemma breaker_ok_timeouts:
  assumes "breaker_ok df"
  shows "breaker_ok (check_input_timeouts now df)"
  unfolding breaker_ok_def
proof (intro allI impI)
  fix r i t
  let ?pts = "timed_out_inputs now df"
  let ?df = "check_input_timeouts now df"
  assume broken: "map_of (broken_inputs ?df) (r, i) = Some t"
  show "i \<notin> set (open_inputs_of ?df r) \<and> map_of (input_deadlines ?df) (r, i) = None"
  proof (cases "(r, i) \<in> fst ` set ?pts")
    case True
    then show ?thesis
      by (simp add: check_input_timeouts_def Let_def trip_fold hm_remove_fold)
  next
    case False
    then have "map_of (rev ?pts) (r, i) = None" by (simp add: map_of_eq_None_iff)
    with broken have "map_of (broken_inputs df) (r, i) = Some t"
      by (simp add: check_input_timeouts_def Let_def trip_fold)
    with assms False show ?thesis
      by (auto simp: breaker_ok_def check_input_timeouts_def Let_def trip_fold hm_remove_fold)
  qed
qed

lemma breaker_ok_recover: "breaker_ok df \<Longrightarrow> breaker_ok (recover_input now ch p df)"
  by (cases p) (auto simp: breaker_ok_def recover_input_def split: option.splits)

lemma breaker_ok_touch: "breaker_ok df \<Longrightarrow> breaker_ok (touch_deadline now p df)"
  by (fastforce simp: breaker_ok_def touch_deadline_def split: option.splits if_splits)

lemma breaker_ok_inc [simp]: "breaker_ok (inc_pending n df) = breaker_ok df"
  by (rule breaker_ok_cong) simp_all

lemma breaker_ok_channels [simp]: "breaker_ok (df\<lparr>channels := c\<rparr>) = breaker_ok df"
  by (rule breaker_ok_cong) simp_all

lemma breaker_ok_hold [simp]: "breaker_ok (hold_token n t r df) = breaker_ok df"
  by (rule breaker_ok_cong) simp_all

lemma breaker_ok_remove_channel [simp]: "breaker_ok (remove_channel n df) = breaker_ok df"
  by (rule breaker_ok_cong) simp_all

lemma breaker_ok_remove_channels [simp]: "breaker_ok (fold remove_channel ns df) = breaker_ok df"
  by (induction ns arbitrary: df) simp_all

lemma breaker_ok_deliver: "breaker_ok (snd s) \<Longrightarrow> breaker_ok (snd (deliver n md data now p s))"
  by (cases s; cases p)
    (auto simp: deliver_def Let_def breaker_ok_recover breaker_ok_touch
      split: option.splits prod.splits send_result.splits)

lemma breaker_ok_deliver_fold:
  "breaker_ok (snd s) \<Longrightarrow> breaker_ok (snd (fold (deliver n md data now) ps s))"
  by (induction ps arbitrary: s) (auto simp: breaker_ok_deliver)

lemma breaker_ok_token [simp]:
  "breaker_ok (check_drop_token t df) = breaker_ok df"
  "breaker_ok (register_token n t df) = breaker_ok df"
  "breaker_ok (report_drop_token n t df) = breaker_ok df"
  by (rule breaker_ok_cong; simp)+

lemma breaker_ok_output:
  assumes "breaker_ok df"
  shows "breaker_ok (snd (send_output_to_local_receivers shm now out md data nb df))"
proof -
  let ?s = "fold (deliver (fst out) md data now) (mapped_ports df out) ([], df)"
  have "breaker_ok (snd ?s)" using assms breaker_ok_deliver_fold[of "([], df)"] by simp
  then show ?thesis
    by (cases ?s) (auto simp: send_output_to_local_receivers_def Let_def
        split: outcome.splits option.splits prod.splits)
qed

section \<open>The counters of undelivered events\<close>

lemma synced_channel: "synced df \<Longrightarrow> map_of (subscribe_channels df) n = Some ch \<Longrightarrow> map_of (pending_messages df) n = Some ch"
  by (simp add: synced_def)

lemma synced_frames [simp]:
  "synced (disable_restart_of n df) = synced df"
  "synced (open_input n i df) = synced df"
  "synced (remove_open n i df) = synced df"
  "synced (touch_deadline now p df) = synced df"
  "synced (hold_token m t n df) = synced df"
  "synced (register_token n t df) = synced df"
  "synced (check_drop_token t df) = synced df"
  "synced (report_drop_token n t df) = synced df"
  "synced (df\<lparr>broken_inputs := b\<rparr>) = synced df"
  "synced (df\<lparr>input_deadlines := d\<rparr>) = synced df"
  "synced (df\<lparr>mappings := x\<rparr>) = synced df"
  "synced (df\<lparr>running_nodes := rs\<rparr>) = synced df"
  "synced (df\<lparr>log_subscribers := ls\<rparr>) = synced df"
  "synced (df\<lparr>kill_tasks := ks\<rparr>) = synced df"
  "synced (df\<lparr>debug_topic_watchers := w\<rparr>) = synced df"
  by (rule synced_cong; simp)+

lemma synced_notify:
  "synced df \<Longrightarrow> map_of (pending_messages df) n = Some ch \<Longrightarrow> synced (notify_all_closed ch n df)"
  by (simp add: notify_all_closed_def synced_send_counted)

lemma synced_close: "synced df \<Longrightarrow> synced (close_input p df)"
  by (cases p) (auto simp: close_input_def Let_def synced_channel
      intro!: synced_notify synced_send_counted split: option.splits)

lemma synced_break: "synced df \<Longrightarrow> synced (break_input p df)"
  by (cases p) (auto simp: break_input_def Let_def synced_channel
      intro!: synced_notify synced_send_counted split: option.splits)

lemma synced_close_fold: "synced df \<Longrightarrow> synced (fold close_input ps df)"
  by (induction ps arbitrary: df) (auto simp: synced_close)

lemma synced_trip: "synced df \<Longrightarrow> synced (trip_breaker pt df)"
  by (cases pt) (simp add: trip_breaker_def synced_break)

lemma synced_trip_fold: "synced df \<Longrightarrow> synced (fold trip_breaker pts df)"
  by (induction pts arbitrary: df) (auto simp: synced_trip)

lemma synced_timeouts: "synced df \<Longrightarrow> synced (check_input_timeouts now df)"
  by (simp add: check_input_timeouts_def Let_def synced_trip_fold)

lemma synced_remove_channel: "synced df \<Longrightarrow> synced (remove_channel n df)"
  by (auto simp: synced_def counts_ok_def remove_channel_def)

lemma synced_remove_channels: "synced df \<Longrightarrow> synced (fold remove_channel ns df)"
  by (induction ns arbitrary: df) (auto simp: synced_remove_channel)

lemma synced_recover:
  "synced df \<Longrightarrow> map_of (pending_messages df) (fst p) = Some ch \<Longrightarrow> synced (recover_input now ch p df)"
  by (cases p) (auto simp: recover_input_def intro!: synced_send_counted split: option.splits)

lemma deliver_sends:
  assumes "\<not> ch_capacity (channels df ch) < CONTROL_EVENT_HEADROOM"
    and "try_send (NInput i md data) (channels df ch) = (Delivered, c)"
  shows "inc_pending r (df\<lparr>channels := (channels df)(ch := c)\<rparr>) = send_counted ch r (NInput i md data) df"
  using assms by (simp add: send_counted_def channel_send_def send_with_timestamp_def)

lemma synced_deliver: "synced (snd s) \<Longrightarrow> synced (snd (deliver n md data now p s))"
  by (cases s; cases p)
    (auto simp: deliver_def Let_def deliver_sends synced_channel
      intro!: synced_recover synced_send_counted
      split: option.splits prod.splits send_result.splits)

lemma synced_deliver_fold: "synced (snd s) \<Longrightarrow> synced (snd (fold (deliver n md data now) ps s))"
  by (induction ps arbitrary: s) (auto simp: synced_deliver)

lemma synced_output:
  assumes "synced df"
  shows "synced (snd (send_output_to_local_receivers shm now out md data nb df))"
proof -
  let ?s = "fold (deliver (fst out) md data now) (mapped_ports df out) ([], df)"
  have "synced (snd ?s)" using assms synced_deliver_fold[of "([], df)"] by simp
  then show ?thesis
    by (cases ?s) (auto simp: send_output_to_local_receivers_def Let_def synced_remove_channels
        split: outcome.splits option.splits prod.splits)
qed

text \<open>A subscription with a fresh address, on the first start of a node or after a restart.\<close>

lemma counts_ok_frames [simp]:
  "counts_ok (disable_restart_of n df) = counts_ok df"
  "counts_ok (df\<lparr>subscribe_channels := s\<rparr>) = counts_ok df"
  by (rule counts_ok_cong; simp)+

lemma counts_ok_closed_fold:
  "counts_ok df \<Longrightarrow> map_of (pending_messages df) n = Some ch \<Longrightarrow>
   counts_ok (fold (\<lambda>i. send_counted ch n (ev i)) is df) \<and>
   pending_messages (fold (\<lambda>i. send_counted ch n (ev i)) is df) = pending_messages df \<and>
   subscribe_channels (fold (\<lambda>i. send_counted ch n (ev i)) is df) = subscribe_channels df"
  by (induction "is" arbitrary: df) (auto simp: counts_ok_send_counted)

lemma subscribe_counts:
  assumes "counts_ok df" "map_of (pending_messages df) n = Some ch"
  shows "counts_ok (subscribe_node n ch df) \<and>
    pending_messages (subscribe_node n ch df) = pending_messages df \<and>
    subscribe_channels (subscribe_node n ch df) = hm_insert n ch (subscribe_channels df)"
  using counts_ok_closed_fold[OF assms, of NInputClosed "closed_inputs_of n df"] assms
  by (auto simp: subscribe_node_def Let_def counts_ok_send_counted split: option.splits)

lemma synced_subscribe:
  assumes "synced df" and "channels df a = new_channel" "counters df a = 0"
    and "\<And>m. m \<noteq> n \<Longrightarrow> map_of (pending_messages df) m \<noteq> Some a"
  shows "synced (subscribe_node n a (df\<lparr>pending_messages := hm_insert n a (pending_messages df)\<rparr>))"
proof -
  let ?df = "df\<lparr>pending_messages := hm_insert n a (pending_messages df)\<rparr>"
  have "counts_ok ?df"
    using assms by (auto simp: synced_def counts_ok_def new_channel_def)
  then have "counts_ok (subscribe_node n a ?df) \<and>
      pending_messages (subscribe_node n a ?df) = pending_messages ?df \<and>
      subscribe_channels (subscribe_node n a ?df) = hm_insert n a (subscribe_channels df)"
    using subscribe_counts[of ?df n a] by simp
  with assms(1) show ?thesis by (auto simp: synced_def)
qed

section \<open>Histories of a routed dataflow\<close>

inductive route_step :: "(string \<Rightarrow> nat list option) \<Rightarrow> running_dataflow \<Rightarrow> running_dataflow \<Rightarrow> bool"
  for shm where
  rs_subscribe:
    "channels df a = new_channel \<Longrightarrow> counters df a = 0 \<Longrightarrow>
     (\<And>m. m \<noteq> n \<Longrightarrow> map_of (pending_messages df) m \<noteq> Some a) \<Longrightarrow>
     route_step shm df (subscribe_node n a (df\<lparr>pending_messages := hm_insert n a (pending_messages df)\<rparr>))"
| rs_serve: "route_step shm df (snd (serve_event a df))"
| rs_output: "route_step shm df (snd (send_output_to_local_receivers shm now out md data nb df))"
| rs_report_drop: "route_step shm df (report_drop n ts df)"
| rs_close: "route_step shm df (close_local_outputs n outs df)"
| rs_timeouts: "route_step shm df (check_input_timeouts now df)"
| rs_tick: "route_step shm df (timer_tick interval md df)"
| rs_logs: "route_step shm df (logs_event out md msg df)"
| rs_log_broadcast: "route_step shm df (log_broadcast l src md sample df)"
| rs_param_update: "route_step shm df (snd (deliver_param_update_strict n k v df))"
| rs_param_delete: "route_step shm df (snd (deliver_param_delete_strict n k df))"
| rs_catch_up: "route_step shm df (snd (apply_state_catch_up_entries es df))"
| rs_reload: "route_step shm df (send_reload n op df)"
| rs_stop_node: "route_step shm df (snd (stop_single_node n g df))"
| rs_restart_node: "route_step shm df (snd (restart_single_node n g df))"
| rs_disconnect: "route_step shm df (disconnect_ports out p df)"
| rs_stream_dropped: "route_step shm df (remove_channel n df)"

definition routed :: "node_id list \<Rightarrow> resolved_node list \<Rightarrow> descriptor \<Rightarrow> ('e, running_dataflow) outcome" where
  "routed spawn_nodes rns d = try_fold (register_resolved spawn_nodes) rns (running_dataflow_new d)"

text \<open>The tables are built before any node is connected.\<close>

definition unconnected :: "running_dataflow \<Rightarrow> bool" where
  "unconnected df \<longleftrightarrow> subscribe_channels df = [] \<and> pending_messages df = [] \<and> broken_inputs df = []"

lemma unconnected_register:
  assumes "register_input n x df = Ok df'" "unconnected df"
  shows "unconnected df'"
  using assms
  by (cases x) (auto simp: register_input_def Let_def arm_deadline_def unconnected_def
      split: input_mapping.splits option.splits)

lemma unconnected_remote_input: "unconnected df \<Longrightarrow> unconnected (register_remote_input x df)"
  by (cases x) (simp add: register_remote_input_def unconnected_def split: input_mapping.splits)

lemma unconnected_remote: "unconnected df \<Longrightarrow> unconnected (fold register_remote_input xs df)"
  by (induction xs arbitrary: df) (simp_all add: unconnected_remote_input)

lemma unconnected_node:
  assumes "register_resolved sp nd df = (Ok df' :: ('e, running_dataflow) outcome)" "unconnected df"
  shows "unconnected df'"
proof -
  from assms(1) obtain xs where xs:
    "(if rn_id nd \<in> set sp then try_fold (register_input (rn_id nd)) xs df
      else Ok (fold register_remote_input xs df)) = (Ok df' :: ('e, running_dataflow) outcome)"
    unfolding register_resolved_def and_then_Ok by blast
  show ?thesis
  proof (cases "rn_id nd \<in> set sp")
    case True
    with xs have "try_fold (register_input (rn_id nd)) xs df = (Ok df' :: ('e, running_dataflow) outcome)"
      by simp
    then show ?thesis
      by (rule try_fold_invariant[where P = unconnected]) (use assms(2) in \<open>auto dest: unconnected_register\<close>)
  next
    case False
    with xs assms(2) show ?thesis by (auto simp: unconnected_remote)
  qed
qed

lemma unconnected_new: "unconnected (running_dataflow_new d)"
  by (simp add: unconnected_def running_dataflow_new_def)

lemma routed_unconnected: "routed sp rns d = Ok df \<Longrightarrow> unconnected df"
  unfolding routed_def
  by (erule try_fold_invariant[where P = unconnected]) (blast intro: unconnected_new unconnected_node)+

lemma routed_ok: "routed sp rns d = Ok df \<Longrightarrow> synced df \<and> breaker_ok df"
  by (drule routed_unconnected) (simp add: unconnected_def synced_def counts_ok_def breaker_ok_def)

lemma synced_report_drop: "synced df \<Longrightarrow> synced (report_drop n ts df)"
  by (simp add: report_drop_def) (induction ts arbitrary: df, auto)

interpretation counted: send_invariant synced
  by unfold_locales (simp_all add: synced_send_counted synced_channel synced_remove_channel)

lemma synced_step: "route_step shm df df' \<Longrightarrow> synced df \<Longrightarrow> synced df'"
proof (induction rule: route_step.induct)
  case (rs_subscribe df a n)
  then show ?case by (intro synced_subscribe) blast+
qed (simp_all add: synced_serve synced_output synced_report_drop close_local_outputs_def
    synced_close_fold synced_timeouts disconnect_ports_def synced_close synced_remove_channel
    counted.tick counted.logs counted.log_message counted.param_update counted.param_delete
    counted.catch_up counted.reload counted.stop_node counted.restart_node)

lemma synced_reachable: "(route_step shm)\<^sup>*\<^sup>* df df' \<Longrightarrow> synced df \<Longrightarrow> synced df'"
  by (induction rule: rtranclp_induct) (auto dest: synced_step)

lemma breaker_ok_report_drop: "breaker_ok df \<Longrightarrow> breaker_ok (report_drop n ts df)"
  by (simp add: report_drop_def) (induction ts arbitrary: df, auto)

text \<open>Sending an event touches no table, so it concerns neither inputs nor deadlines.\<close>

lemma breaker_ok_send [simp]:
  "breaker_ok (send_counted ch n ev df) = breaker_ok df"
  "breaker_ok (disable_restart_of n df) = breaker_ok df"
  "breaker_ok (df\<lparr>subscribe_channels := s\<rparr>) = breaker_ok df"
  "breaker_ok (df\<lparr>pending_messages := c\<rparr>) = breaker_ok df"
  "breaker_ok (df\<lparr>running_nodes := rs\<rparr>) = breaker_ok df"
  "breaker_ok (df\<lparr>log_subscribers := ls\<rparr>) = breaker_ok df"
  "breaker_ok (df\<lparr>kill_tasks := ks\<rparr>) = breaker_ok df"
  "breaker_ok (df\<lparr>mappings := ms\<rparr>) = breaker_ok df"
  "breaker_ok (df\<lparr>counters := ns\<rparr>) = breaker_ok df"
  "breaker_ok (snd (channel_send ch ev df)) = breaker_ok df"
  by (rule breaker_ok_cong; simp)+

lemma breaker_ok_send_fold [simp]:
  "breaker_ok (fold (\<lambda>i. send_counted ch n (ev i)) xs df) = breaker_ok df"
  by (induction xs arbitrary: df) simp_all

lemma breaker_ok_subscribe: "breaker_ok df \<Longrightarrow> breaker_ok (subscribe_node n ch df)"
  by (simp add: subscribe_node_def Let_def split: option.splits)

lemma breaker_ok_serve: "breaker_ok df \<Longrightarrow> breaker_ok (snd (serve_event a df))"
  by (simp add: serve_event_def split: prod.splits option.splits)

interpretation breaker: send_invariant breaker_ok
  by unfold_locales simp_all

lemma breaker_ok_step: "route_step shm df df' \<Longrightarrow> breaker_ok df \<Longrightarrow> breaker_ok df'"
  by (induction rule: route_step.induct)
    (simp_all add: breaker_ok_subscribe breaker_ok_serve breaker_ok_output breaker_ok_report_drop
      close_local_outputs_def breaker_ok_close_fold breaker_ok_timeouts disconnect_ports_def
      breaker_ok_close breaker.tick breaker.logs breaker.log_message breaker.param_update
      breaker.param_delete breaker.catch_up breaker.reload breaker.stop_node breaker.restart_node)

lemma breaker_ok_reachable: "(route_step shm)\<^sup>*\<^sup>* df df' \<Longrightarrow> breaker_ok df \<Longrightarrow> breaker_ok df'"
  by (induction rule: rtranclp_induct) (auto dest: breaker_ok_step)

section \<open>Closing an input\<close>

definition last_input :: "running_dataflow \<Rightarrow> node_id \<Rightarrow> data_id \<Rightarrow> bool" where
  "last_input df r i \<longleftrightarrow>
     set (open_inputs_of df r) \<subseteq> {i} \<and> (\<forall>j. map_of (broken_inputs df) (r, j) = None \<or> j = i)"

lemma has_broken_iff: "has_broken df n \<longleftrightarrow> (\<exists>j t. ((n, j), t) \<in> set (broken_inputs df))"
  by (fastforce simp: has_broken_def list_ex_iff)

lemma has_broken_map_of: "has_broken df n \<longleftrightarrow> (\<exists>j t. map_of (broken_inputs df) (n, j) = Some t)"
proof
  assume "has_broken df n"
  then obtain j t where "((n, j), t) \<in> set (broken_inputs df)" by (auto simp: has_broken_iff)
  then show "\<exists>j t. map_of (broken_inputs df) (n, j) = Some t" by (metis weak_map_of_SomeI)
next
  assume "\<exists>j t. map_of (broken_inputs df) (n, j) = Some t"
  then show "has_broken df n" by (auto simp: has_broken_iff dest: map_of_SomeD)
qed

lemma has_broken_send [simp]:
  "has_broken (send_counted ch n ev df) m = has_broken df m"
  "has_broken (disable_restart_of n df) m = has_broken df m"
  "has_broken (remove_open n i df) m = has_broken df m"
  by (simp_all add: has_broken_def)

definition restart_disabled :: "running_dataflow \<Rightarrow> node_id \<Rightarrow> bool" where
  "restart_disabled df n \<longleftrightarrow>
     (case map_of (running_nodes df) n of None \<Rightarrow> False | Some r \<Rightarrow> disable_restart r)"

lemma restart_disabled_send [simp]: "restart_disabled (send_counted ch n ev df) m = restart_disabled df m"
  by (simp add: restart_disabled_def)

lemma restart_disabled_disable [simp]:
  "restart_disabled (disable_restart_of n df) m \<longleftrightarrow>
     restart_disabled df m \<or> m = n \<and> map_of (running_nodes df) n \<noteq> None"
  by (auto simp: restart_disabled_def disable_restart_of_def split: option.splits)

lemma send_counted_queue:
  assumes "\<not> ch_closed (channels df ch)"
    and "length (ch_queue (channels df ch)) < (if is_control ev then 1000 else 951)"
  shows "channels (send_counted ch n ev df) ch =
    (channels df ch)\<lparr>ch_queue := ch_queue (channels df ch) @ [ev]\<rparr>"
proof -
  have "send_with_timestamp ev (channels df ch) =
      (Delivered, (channels df ch)\<lparr>ch_queue := ch_queue (channels df ch) @ [ev]\<rparr>)"
    using assms by (simp add: send_delivered)
  then show ?thesis by (simp add: channels_send_counted)
qed

lemma channels_disable [simp]: "channels (disable_restart_of n df) = channels df"
  by simp

text \<open>
  C12. Closing an input that is open tells its node so, and tells it that all inputs are closed exactly
  when no other input is open and none is waiting to recover behind the circuit breaker; only then
  is the restart of the node disabled. The node must be connected with room for two events.
\<close>

theorem close_input_notifies:
  assumes "map_of (subscribe_channels df) r = Some ch" and "\<not> ch_closed (channels df ch)"
    and "length (ch_queue (channels df ch)) < 999" and "i \<in> set (open_inputs_of df r)"
    and "map_of (running_nodes df) r \<noteq> None"
  shows "ch_queue (channels (close_input (r, i) df) ch) =
      ch_queue (channels df ch) @ NInputClosed i #
        (if last_input df r i then [NAllInputsClosed] else []) \<and>
    (restart_disabled (close_input (r, i) df) r \<longleftrightarrow> restart_disabled df r \<or> last_input df r i)"
proof -
  let ?df1 = "remove_open r i (df\<lparr>broken_inputs := hm_remove (r, i) (broken_inputs df)\<rparr>)"
  let ?df2 = "send_counted ch r (NInputClosed i) ?df1"
  have close: "close_input (r, i) df = notify_all_closed ch r ?df2"
    using assms by (simp add: close_input_def Let_def)
  have c: "channels ?df2 ch = (channels df ch)\<lparr>ch_queue := ch_queue (channels df ch) @ [NInputClosed i]\<rparr>"
    using assms by (subst send_counted_queue) simp_all
  have "bs_remove i (open_inputs_of df r) = [] \<longleftrightarrow> set (open_inputs_of df r) \<subseteq> {i}"
    by (auto simp: bs_remove_def filter_empty_conv)
  moreover have "has_broken (df\<lparr>broken_inputs := hm_remove (r, i) (broken_inputs df)\<rparr>) r \<longleftrightarrow>
      \<not> (\<forall>j. map_of (broken_inputs df) (r, j) = None \<or> j = i)"
    unfolding has_broken_map_of by auto
  ultimately have last: "open_inputs_of ?df2 r = [] \<and> \<not> has_broken ?df2 r \<longleftrightarrow> last_input df r i"
    unfolding last_input_def by simp
  have d: "restart_disabled ?df2 r = restart_disabled df r"
    "map_of (running_nodes ?df2) r = map_of (running_nodes df) r"
    by (simp_all add: restart_disabled_def)
  show ?thesis
  proof (cases "last_input df r i")
    case True
    then have n: "notify_all_closed ch r ?df2 =
        send_counted ch r NAllInputsClosed (disable_restart_of r ?df2)"
      using last by (simp add: notify_all_closed_def)
    have "channels (notify_all_closed ch r ?df2) ch =
        (channels ?df2 ch)\<lparr>ch_queue := ch_queue (channels ?df2 ch) @ [NAllInputsClosed]\<rparr>"
      unfolding n using assms c by (subst send_counted_queue) simp_all
    moreover have "restart_disabled (notify_all_closed ch r ?df2) r"
      unfolding n using assms(5) d(2) by simp
    ultimately show ?thesis using True close c by simp
  next
    case False
    then have "notify_all_closed ch r ?df2 = ?df2" unfolding notify_all_closed_def last by simp
    with False close c d show ?thesis by simp
  qed
qed

text \<open>One node with one input that has a deadline, fed by another node, and connected.\<close>

definition example_running :: running_node where
  "example_running =
     \<lparr>process = Some 0, is_dynamic = False, node_restart_policy = Always, disable_restart = False,
      last_activity = 0, health_timeout = None\<rparr>"

definition example_df :: running_dataflow where
  "example_df =
     (running_dataflow_new (example_descriptor []))
       \<lparr>open_inputs := [(NodeId ''b'', [DataId ''x''])],
        subscribe_channels := [(NodeId ''b'', 0)], pending_messages := [(NodeId ''b'', 0)],
        running_nodes := [(NodeId ''b'', example_running)],
        mappings := [((NodeId ''a'', DataId ''o''), [(NodeId ''b'', DataId ''x'')])],
        input_deadlines := [((NodeId ''b'', DataId ''x''), \<lparr>timeout = 5, last_received = Some 1\<rparr>)],
        drop_channels := [(NodeId ''a'', 0)]\<rparr>"

lemma example_df_simps [simp]:
  "subscribe_channels example_df = [(NodeId ''b'', 0)]"
  "pending_messages example_df = [(NodeId ''b'', 0)]"
  "channels example_df = (\<lambda>_. new_channel)"
  "counters example_df = (\<lambda>_. 0)"
  "open_inputs example_df = [(NodeId ''b'', [DataId ''x''])]"
  "broken_inputs example_df = []"
  "running_nodes example_df = [(NodeId ''b'', example_running)]"
  "mappings example_df = [((NodeId ''a'', DataId ''o''), [(NodeId ''b'', DataId ''x'')])]"
  "input_deadlines example_df =
     [((NodeId ''b'', DataId ''x''), \<lparr>timeout = 5, last_received = Some 1\<rparr>)]"
  "drop_channels example_df = [(NodeId ''a'', 0)]"
  "drop_queues example_df = (\<lambda>_. \<lparr>dc_queue = [], dc_closed = False\<rparr>)"
  "pending_drop_tokens example_df = []"
  "open_inputs_of example_df (NodeId ''b'') = [DataId ''x'']"
  by (simp_all add: example_df_def running_dataflow_new_def open_inputs_of_def)

lemma new_channel_simps [simp]: "ch_queue new_channel = []" "ch_closed new_channel = False"
  by (simp_all add: new_channel_def)

theorem close_input_notifies_witness:
  "ch_queue (channels (close_input (NodeId ''b'', DataId ''x'') example_df) 0) =
     [NInputClosed (DataId ''x''), NAllInputsClosed]"
  using close_input_notifies[of example_df "NodeId ''b''" 0 "DataId ''x''"]
  by (simp add: last_input_def)

section \<open>The breaker closes and recovers\<close>

lemma timed_out_mem:
  assumes "map_of (input_deadlines df) p = Some d" "is_timed_out now d"
    and "map_of (broken_inputs df) p = None"
  shows "(p, timeout d) \<in> set (timed_out_inputs now df)"
  using map_of_SomeD[OF assms(1)] assms(2,3) by (force simp: timed_out_inputs_def)

lemma timed_out_map_of:
  assumes "hm_wf (input_deadlines df)" and "map_of (input_deadlines df) p = Some d"
    and "is_timed_out now d" and "map_of (broken_inputs df) p = None"
  shows "map_of (rev (timed_out_inputs now df)) p = Some (timeout d)"
proof -
  have "map fst (timed_out_inputs now df) =
      map fst (filter (\<lambda>(p, d). map_of (broken_inputs df) p = None \<and> is_timed_out now d)
        (input_deadlines df))"
    by (simp add: timed_out_inputs_def case_prod_beta' comp_def)
  then have "distinct (map fst (rev (timed_out_inputs now df)))"
    using assms(1) by (simp add: rev_map distinct_map_filter flip: rev_map)
  with timed_out_mem[OF assms(2-4)] show ?thesis by (simp add: map_of_eq_Some_iff)
qed

lemma timeout_breaks:
  assumes "hm_wf (input_deadlines df)" and "map_of (input_deadlines df) (r, i) = Some d"
    and "is_timed_out now d" and "map_of (broken_inputs df) (r, i) = None"
  shows "map_of (broken_inputs (check_input_timeouts now df)) (r, i) = Some (timeout d) \<and>
    i \<notin> set (open_inputs_of (check_input_timeouts now df) r) \<and>
    map_of (input_deadlines (check_input_timeouts now df)) (r, i) = None"
proof -
  have "(r, i) \<in> fst ` set (timed_out_inputs now df)"
    using timed_out_mem[OF assms(2-4)] by force
  with timed_out_map_of[OF assms] show ?thesis
    by (simp add: check_input_timeouts_def Let_def trip_fold hm_remove_fold)
qed

lemma trip_fold_frame:
  "subscribe_channels (fold trip_breaker pts df) = subscribe_channels df"
  "mappings (fold trip_breaker pts df) = mappings df"
  "drop_queues (fold trip_breaker pts df) = drop_queues df"
  "pending_drop_tokens (fold trip_breaker pts df) = pending_drop_tokens df"
  by (induction pts arbitrary: df) simp_all

text \<open>What a delivery to a single port does when the channel has room for it.\<close>

lemma deliver_accepted:
  assumes "map_of (subscribe_channels df) r = Some ch" and "\<not> ch_closed (channels df ch)"
    and "length (ch_queue (channels df ch)) \<le> 950"
  shows "deliver n md data now (r, i) (closed, df) =
    (closed,
     (case Option.bind data data_drop_token of None \<Rightarrow> (\<lambda>d. d) | Some t \<Rightarrow> hold_token n t r)
       (recover_input now ch (r, i)
         (touch_deadline now (r, i) (send_counted ch r (NInput i md data) df))))"
proof -
  have room: "\<not> ch_capacity (channels df ch) < CONTROL_EVENT_HEADROOM"
    using assms by (simp add: channel_defs)
  have sent: "try_send (NInput i md data) (channels df ch) =
      (Delivered, (channels df ch)\<lparr>ch_queue := ch_queue (channels df ch) @ [NInput i md data]\<rparr>)"
    using assms by (simp add: channel_defs)
  show ?thesis
    using assms room sent deliver_sends[OF room sent, of r]
    by (simp add: deliver_def Let_def split: option.splits)
qed

lemma recover_broken:
  assumes "map_of (broken_inputs df) (r, i) = Some t"
  shows "map_of (broken_inputs (recover_input now ch (r, i) df)) (r, i) = None"
    and "i \<in> set (open_inputs_of (recover_input now ch (r, i) df) r)"
    and "map_of (input_deadlines (recover_input now ch (r, i) df)) (r, i) =
      Some \<lparr>timeout = t, last_received = Some now\<rparr>"
    and "channels (recover_input now ch (r, i) df) =
      (channels df)(ch := snd (send_with_timestamp (NInputRecovered i) (channels df ch)))"
  using assms by (simp_all add: recover_input_def channels_send_counted)

lemma touch_absent: "map_of (input_deadlines df) p = None \<Longrightarrow> touch_deadline now p df = df"
  by (simp add: touch_deadline_def)


lemmas routing_eval =
  check_input_timeouts_def timed_out_inputs_def is_timed_out_def trip_breaker_def break_input_def
  remove_open_def notify_all_closed_def has_broken_def channels_send_counted send_with_timestamp_def
  try_send_def ch_capacity_def NODE_EVENT_CHANNEL_CAPACITY_def CONTROL_EVENT_HEADROOM_def Let_def

lemma example_timed_out:
  "ch_queue (channels (check_input_timeouts 10 example_df) 0) = [NInputClosed (DataId ''x'')]"
  "\<not> ch_closed (channels (check_input_timeouts 10 example_df) 0)"
  by (simp_all add: routing_eval)


section \<open>A closed input that returns\<close>

lemma notify_broken: "has_broken df n \<Longrightarrow> notify_all_closed ch n df = df"
  by (simp add: notify_all_closed_def)

definition end_events :: "running_dataflow \<Rightarrow> nat \<Rightarrow> nat" where
  "end_events df a = count_list (ch_queue (channels df a)) NAllInputsClosed"

lemma end_events_send:
  assumes "ev \<noteq> NAllInputsClosed"
  shows "end_events (send_counted ch n ev df) a = end_events df a"
  using assms by (cases rule: send_cases[of ev "channels df ch"])
    (auto simp: end_events_def channels_send_counted)

lemma close_beside_broken:
  assumes "map_of (broken_inputs df) (r, i) = Some t" and "j \<noteq> i"
  shows "map_of (broken_inputs (close_input (r, j) df)) (r, i) = Some t \<and>
    end_events (close_input (r, j) df) a = end_events df a \<and>
    running_nodes (close_input (r, j) df) = running_nodes df"
proof -
  let ?df = "remove_open r j (df\<lparr>broken_inputs := hm_remove (r, j) (broken_inputs df)\<rparr>)"
  have "has_broken ?df r" unfolding has_broken_map_of using assms by auto
  moreover have "end_events ?df a = end_events df a" by (simp add: end_events_def)
  ultimately show ?thesis
    using assms
    by (auto simp: close_input_def Let_def notify_broken end_events_send split: option.splits)
qed

lemma close_others_beside_broken:
  assumes "map_of (broken_inputs df) (r, i) = Some t" and "i \<notin> set js"
  shows "map_of (broken_inputs (fold close_input (map (Pair r) js) df)) (r, i) = Some t \<and>
    end_events (fold close_input (map (Pair r) js) df) a = end_events df a \<and>
    running_nodes (fold close_input (map (Pair r) js) df) = running_nodes df"
  using assms
proof (induction js arbitrary: df)
  case (Cons j js)
  then have "j \<noteq> i" by auto
  with Cons.prems close_beside_broken[of df r i t j a]
    Cons.IH[of "close_input (r, j) df"] show ?case by simp
qed simp



section \<open>Counters and breaker in every history\<close>

lemma routed_nothing: "routed sp [] d = Ok (running_dataflow_new d)"
  by (simp add: routed_def)

lemma new_dataflow_simps [simp]:
  "subscribe_channels (running_dataflow_new d) = []"
  "pending_messages (running_dataflow_new d) = []"
  "channels (running_dataflow_new d) = (\<lambda>_. new_channel)"
  "counters (running_dataflow_new d) = (\<lambda>_. 0)"
  "mappings (running_dataflow_new d) = []"
  "open_inputs (running_dataflow_new d) = []"
  "broken_inputs (running_dataflow_new d) = []"
  "input_deadlines (running_dataflow_new d) = []"
  "running_nodes (running_dataflow_new d) = []"
  "stop_sent (running_dataflow_new d) = False"
  "df_descriptor (running_dataflow_new d) = d"
  by (simp_all add: running_dataflow_new_def)


definition example_subscribed :: running_dataflow where
  "example_subscribed =
     subscribe_node (NodeId ''b'') 0
       ((running_dataflow_new (example_descriptor []))\<lparr>pending_messages := [(NodeId ''b'', 0)]\<rparr>)"

lemma example_subscribed_step:
  "route_step shm (running_dataflow_new (example_descriptor [])) example_subscribed"
  using rs_subscribe[of "running_dataflow_new (example_descriptor [])" 0 "NodeId ''b''" shm]
  by (simp add: example_subscribed_def)

lemma example_subscribed_simps:
  "subscribe_channels example_subscribed = [(NodeId ''b'', 0)]"
  "channels example_subscribed = (\<lambda>_. new_channel)"
  by (simp_all add: example_subscribed_def subscribe_node_def Let_def closed_inputs_of_def
      open_inputs_of_def find_node_def disable_restart_of_def example_descriptor_def)


section \<open>Drop tokens\<close>

definition held :: "drop_token \<Rightarrow> node_id \<Rightarrow> running_dataflow \<Rightarrow> bool" where
  "held t h df \<longleftrightarrow>
     (case map_of (pending_drop_tokens df) t of None \<Rightarrow> False | Some info \<Rightarrow> h \<in> set (token_nodes info))"

definition released :: "drop_token \<Rightarrow> running_dataflow \<Rightarrow> bool" where
  "released t df \<longleftrightarrow> (\<exists>c. t \<in> set (dc_queue (drop_queues df c)))"

lemma held_cong: "pending_drop_tokens df = pending_drop_tokens df' \<Longrightarrow> held t h df = held t h df'"
  by (simp add: held_def)

lemma released_cong: "drop_queues df = drop_queues df' \<Longrightarrow> released t df = released t df'"
  by (simp add: released_def)

lemma held_hold: "held t h df \<Longrightarrow> held t h (hold_token n t' r df)"
  by (auto simp: held_def hold_token_def split: option.splits if_splits)

lemma held_register: "held t h df \<Longrightarrow> held t h (register_token n t' df)"
  by (auto simp: held_def register_token_def split: option.splits if_splits)

lemma held_check: "held t h df \<Longrightarrow> held t h (check_drop_token t' df)"
  by (auto simp: held_def check_drop_token_def Let_def split: option.splits if_splits)

lemma released_check:
  "released t (check_drop_token t' df) \<Longrightarrow>
     released t df \<or> (\<forall>h. \<not> held t h (check_drop_token t' df))"
  by (auto simp: released_def held_def check_drop_token_def Let_def split: option.splits if_splits)

lemma not_held_check: "\<not> held t h df \<Longrightarrow> \<not> held t h (check_drop_token t' df)"
  by (auto simp: held_def check_drop_token_def Let_def split: option.splits if_splits)

lemma held_report_other:
  "held t h df \<Longrightarrow> n \<noteq> h \<or> t' \<noteq> t \<Longrightarrow> held t h (report_drop_token n t' df)"
  by (auto simp: report_drop_token_def held_def[of _ _ df] intro!: held_check
      split: option.splits) (auto simp: held_def)

lemma not_held_report: "\<not> held t h df \<Longrightarrow> \<not> held t h (report_drop_token n t' df)"
  by (auto simp: report_drop_token_def intro!: not_held_check split: option.splits)
    (auto simp: held_def split: if_splits option.splits)

lemma released_report:
  "released t (report_drop_token n t' df) \<Longrightarrow>
     released t df \<or> (\<forall>h. \<not> held t h (report_drop_token n t' df))"
  by (auto simp: report_drop_token_def dest!: released_check split: option.splits if_splits)
    (auto simp: released_def)

lemma held_report_drop:
  "held t h df \<Longrightarrow> n \<noteq> h \<or> t \<notin> set ts \<Longrightarrow> held t h (report_drop n ts df)"
  unfolding report_drop_def
  by (induction ts arbitrary: df) (auto simp: held_report_other)

lemma released_report_drop:
  "released t (report_drop n ts df) \<Longrightarrow> released t df \<or> (\<forall>h. \<not> held t h (report_drop n ts df))"
  unfolding report_drop_def
proof (induction ts arbitrary: df)
  case (Cons t' ts)
  have "\<not> held t h (fold (report_drop_token n) us d)" if "\<not> held t h d" for h us d
    using that by (induction us arbitrary: d) (auto simp: not_held_report)
  with Cons released_report[of t n t' df] show ?case by fastforce
qed simp

interpretation token_held: send_invariant "held t h" for t h
  by unfold_locales (simp_all add: held_def)

interpretation tokens_kept: send_invariant "\<lambda>df. pending_drop_tokens df = ps \<and> drop_queues df = q" for ps q
  by unfold_locales simp_all

lemma held_deliver: "held t h (snd s) \<Longrightarrow> held t h (snd (deliver n md data now p s))"
proof -
  have "held t h (recover_input now' ch q df) = held t h df"
    "held t h (touch_deadline now' q df) = held t h df" "held t h (inc_pending m df) = held t h df"
    for now' ch q m df by (rule held_cong; simp)+
  moreover have "held t h (df\<lparr>channels := c\<rparr>) = held t h df" for c df by (rule held_cong) simp
  ultimately show "held t h (snd s) \<Longrightarrow> held t h (snd (deliver n md data now p s))"
    by (cases s; cases p) (auto simp: deliver_def Let_def held_hold
        split: option.splits prod.splits send_result.splits)
qed

lemma held_deliver_fold: "held t h (snd s) \<Longrightarrow> held t h (snd (fold (deliver n md data now) ps s))"
  by (induction ps arbitrary: s) (auto simp: held_deliver)

lemma drop_queues_deliver: "drop_queues (snd (deliver n md data now p s)) = drop_queues (snd s)"
  by (cases s; cases p) (auto simp: deliver_def Let_def
      split: option.splits prod.splits send_result.splits)

lemma drop_queues_deliver_fold [simp]:
  "drop_queues (snd (fold (deliver n md data now) ps s)) = drop_queues (snd s)"
  by (induction ps arbitrary: s) (auto simp: drop_queues_deliver)

lemma output_state:
  assumes "(closed, df1) = fold (deliver (fst out) md data now) (mapped_ports df out) ([], df)"
  shows "snd (send_output_to_local_receivers shm now out md data nb df) = fold remove_channel closed df1 \<or>
    (\<exists>t. snd (send_output_to_local_receivers shm now out md data nb df) =
       check_drop_token t (register_token (fst out) t (fold remove_channel closed df1)))"
  using assms[symmetric]
  by (auto simp: send_output_to_local_receivers_def Let_def split: outcome.splits option.splits)

lemma held_output:
  assumes "held t h df"
  shows "held t h (snd (send_output_to_local_receivers shm now out md data nb df))"
proof -
  obtain closed df1 where s:
      "(closed, df1) = fold (deliver (fst out) md data now) (mapped_ports df out) ([], df)"
    by (metis surj_pair)
  have "held t h df1"
    using assms held_deliver_fold[of t h "([], df)"] s by (metis snd_conv)
  then have "held t h (fold remove_channel closed df1)" by (rule token_held.forget_all)
  with output_state[OF s, of shm nb] show ?thesis by (auto simp: held_check held_register)
qed

lemma released_output:
  assumes "released t (snd (send_output_to_local_receivers shm now out md data nb df))"
  shows "released t df \<or>
    (\<forall>h. \<not> held t h (snd (send_output_to_local_receivers shm now out md data nb df)))"
proof -
  obtain closed df1 where s:
      "(closed, df1) = fold (deliver (fst out) md data now) (mapped_ports df out) ([], df)"
    by (metis surj_pair)
  have "drop_queues df1 = drop_queues df"
    using drop_queues_deliver_fold[of _ _ _ _ _ "([], df)"] s by (metis snd_conv)
  moreover have "drop_queues (fold remove_channel closed df1) = drop_queues df1"
    using tokens_kept.forget_all[of df1] by blast
  ultimately have same: "released t (fold remove_channel closed df1) = released t df"
    "\<And>n u. released t (register_token n u (fold remove_channel closed df1)) = released t df"
    by (simp_all add: released_def)
  from output_state[OF s, of shm nb] assms same released_check show ?thesis by metis
qed

lemma close_fold_token_frames:
  "pending_drop_tokens (fold close_input ps df) = pending_drop_tokens df"
  "drop_queues (fold close_input ps df) = drop_queues df"
  by (induction ps arbitrary: df) simp_all

lemma token_frames:
  "pending_drop_tokens (check_input_timeouts now df) = pending_drop_tokens df"
  "drop_queues (check_input_timeouts now df) = drop_queues df"
  "pending_drop_tokens (snd (serve_event a df)) = pending_drop_tokens df"
  "drop_queues (snd (serve_event a df)) = drop_queues df"
  "pending_drop_tokens (disconnect_ports out p df) = pending_drop_tokens df"
  "drop_queues (disconnect_ports out p df) = drop_queues df"
  by (simp_all add: check_input_timeouts_def Let_def trip_fold_frame serve_event_def
      disconnect_ports_def split: prod.splits option.splits)

lemma subscribe_token_frames:
  "pending_drop_tokens (subscribe_node n a df) = pending_drop_tokens df"
  "drop_queues (subscribe_node n a df) = drop_queues df"
proof -
  have "pending_drop_tokens (fold (\<lambda>i. send_counted a n (NInputClosed i)) xs df) = pending_drop_tokens df"
    "drop_queues (fold (\<lambda>i. send_counted a n (NInputClosed i)) xs df) = drop_queues df" for xs
    by (induction xs arbitrary: df) simp_all
  then show "pending_drop_tokens (subscribe_node n a df) = pending_drop_tokens df"
    "drop_queues (subscribe_node n a df) = drop_queues df"
    by (simp_all add: subscribe_node_def Let_def split: option.splits)
qed

lemma other_steps_keep_tokens:
  assumes "route_step shm df df'"
  shows "pending_drop_tokens df' = pending_drop_tokens df \<and> drop_queues df' = drop_queues df \<or>
    (\<exists>n ts. df' = report_drop n ts df) \<or>
    (\<exists>now out md data nb. df' = snd (send_output_to_local_receivers shm now out md data nb df))"
  using assms
proof (induction rule: route_step.induct)
  case (rs_report_drop df n ts)
  show ?case by blast
next
  case (rs_output df now out md data nb)
  show ?case by blast
qed (rule disjI1, simp add: close_local_outputs_def close_fold_token_frames token_frames
    subscribe_token_frames tokens_kept.tick tokens_kept.logs tokens_kept.log_message
    tokens_kept.param_update tokens_kept.param_delete tokens_kept.catch_up tokens_kept.reload
    tokens_kept.stop_node tokens_kept.restart_node)+

text \<open>
  C6. Shared memory is handed back to its owner only when nobody reads it: in every step of the
  routing, a node that holds a drop token keeps it unless it reports that very token itself, and when
  a token is put into the drop channel of its owner, no node holds it any more.
\<close>

theorem drop_token_safe:
  assumes "route_step shm df df'"
  shows "(held t h df \<longrightarrow> held t h df' \<or> (\<exists>ts. t \<in> set ts \<and> df' = report_drop h ts df)) \<and>
    (released t df' \<longrightarrow> released t df \<or> (\<forall>h. \<not> held t h df'))"
  using other_steps_keep_tokens[OF assms]
proof (elim disjE exE)
  assume "pending_drop_tokens df' = pending_drop_tokens df \<and> drop_queues df' = drop_queues df"
  then show ?thesis by (simp add: held_def released_def)
next
  fix n ts
  assume "df' = report_drop n ts df"
  then show ?thesis
    using held_report_drop[of t h df n ts] released_report_drop[of t n ts df] by blast
next
  fix now out md data nb
  assume "df' = snd (send_output_to_local_receivers shm now out md data nb df)"
  then show ?thesis using held_output[of t h df] released_output[of t] by blast
qed

definition example_sent :: running_dataflow where
  "example_sent =
     snd (send_output_to_local_receivers (\<lambda>_. None) 2 (NodeId ''a'', DataId ''o'') some_metadata
       (Some (SharedMemory ''m'' 8 9)) False example_df)"

lemma example_sent_tokens:
  "pending_drop_tokens example_sent = [(9, \<lparr>owner = NodeId ''a'', token_nodes = [NodeId ''b'']\<rparr>)]"
  "drop_queues example_sent = (\<lambda>_. \<lparr>dc_queue = [], dc_closed = False\<rparr>)"
  "drop_channels example_sent = [(NodeId ''a'', 0)]"
  by (simp_all add: example_sent_def send_output_to_local_receivers_def mapped_ports_def Let_def
      deliver_accepted hold_token_def register_token_def hm_entry_def check_drop_token_def)

text \<open>The receiver reports the token; it goes back to its owner and is not held any more.\<close>

theorem drop_token_safe_witness:
  "released 9 (report_drop (NodeId ''b'') [9] example_sent) \<and>
   \<not> held 9 (NodeId ''b'') (report_drop (NodeId ''b'') [9] example_sent)"
proof -
  have "released 9 (report_drop (NodeId ''b'') [9] example_sent)" "\<not> released 9 example_sent"
    by (auto simp: released_def report_drop_def report_drop_token_def example_sent_tokens
        check_drop_token_def bs_remove_def)
  with drop_token_safe[OF rs_report_drop[of "\<lambda>_. None" example_sent "NodeId ''b''" "[9]"]]
  show ?thesis by blast
qed

section \<open>Catching up\<close>

definition entry_events :: "running_dataflow \<Rightarrow> nat \<Rightarrow> catch_up_entry list \<Rightarrow> node_event list" where
  "entry_events df a es =
     map (\<lambda>e. catch_up_event (ce_operation e))
       (filter (\<lambda>e. map_of (subscribe_channels df) (catch_up_target (ce_operation e)) = Some a) es)"

lemma entry_events_cong:
  "subscribe_channels df = subscribe_channels df' \<Longrightarrow> entry_events df a es = entry_events df' a es"
  by (simp add: entry_events_def)

lemma channel_send_delivered:
  "fst (channel_send ch ev df) = Delivered \<longleftrightarrow>
     \<not> ch_closed (channels df ch) \<and> length (ch_queue (channels df ch)) < (if is_control ev then 1000 else 951)"
  by (auto simp: channel_send_def channel_defs split: prod.splits if_splits)

lemma catch_up_control [simp]: "is_control (catch_up_event op)"
  by (cases op) simp_all

definition deliverable :: "running_dataflow \<Rightarrow> catch_up_entry \<Rightarrow> bool" where
  "deliverable df e \<longleftrightarrow>
     (case map_of (subscribe_channels df) (catch_up_target (ce_operation e)) of
        None \<Rightarrow> False
      | Some ch \<Rightarrow> \<not> ch_closed (channels df ch) \<and> length (ch_queue (channels df ch)) < 1000)"

lemma apply_entries_blocked: "\<not> deliverable df e \<Longrightarrow> apply_entries s (e # es) df = (s, df)"
  by (auto simp: deliverable_def apply_entries_Cons channel_send_delivered split: option.splits)

lemma apply_entries_accepted:
  assumes "deliverable df e"
  obtains df1 where "apply_entries s (e # es) df = apply_entries (ce_sequence e) es df1"
    "subscribe_channels df1 = subscribe_channels df"
    "\<And>a. ch_queue (channels df1 a) = ch_queue (channels df a) @ entry_events df a [e]"
    "\<And>a. ch_closed (channels df1 a) = ch_closed (channels df a)"
proof -
  from assms obtain ch where ch: "map_of (subscribe_channels df) (catch_up_target (ce_operation e)) = Some ch"
      "\<not> ch_closed (channels df ch)" "length (ch_queue (channels df ch)) < 1000"
    by (auto simp: deliverable_def split: option.splits)
  let ?ev = "catch_up_event (ce_operation e)"
  let ?df = "send_counted ch (catch_up_target (ce_operation e)) ?ev df"
  have "channels ?df ch = (channels df ch)\<lparr>ch_queue := ch_queue (channels df ch) @ [?ev]\<rparr>"
    using ch by (subst send_counted_queue) simp_all
  then have "channels ?df = (channels df)(ch := (channels df ch)\<lparr>ch_queue := ch_queue (channels df ch) @ [?ev]\<rparr>)"
    by (simp add: channels_send_counted)
  with ch show thesis
    by (intro that[of ?df]) (simp_all add: apply_entries_Cons channel_send_delivered entry_events_def)
qed

definition blocked :: "running_dataflow \<Rightarrow> catch_up_entry \<Rightarrow> bool" where
  "blocked df e \<longleftrightarrow> \<not> deliverable df e"

lemma apply_entries_prefix:
  "\<exists>k \<le> length es.
     fst (apply_entries s es df) = (if k = 0 then s else ce_sequence (es ! (k - 1))) \<and>
     (\<forall>a. ch_queue (channels (snd (apply_entries s es df)) a) =
        ch_queue (channels df a) @ entry_events df a (take k es)) \<and>
     (k = length es \<or> blocked (snd (apply_entries s es df)) (es ! k))"
proof (induction es arbitrary: s df)
  case Nil
  show ?case by (simp add: entry_events_def)
next
  case (Cons e es)
  show ?case
  proof (cases "deliverable df e")
    case False
    then show ?thesis
      by (intro exI[of _ 0]) (simp add: apply_entries_blocked entry_events_def blocked_def)
  next
    case True
    then obtain df1 where df1: "apply_entries s (e # es) df = apply_entries (ce_sequence e) es df1"
        "subscribe_channels df1 = subscribe_channels df"
        "\<And>a. ch_queue (channels df1 a) = ch_queue (channels df a) @ entry_events df a [e]"
      using apply_entries_accepted[OF True, of s es] by metis
    from Cons.IH[of "ce_sequence e" df1] obtain k where "k \<le> length es"
      "fst (apply_entries (ce_sequence e) es df1) = (if k = 0 then ce_sequence e else ce_sequence (es ! (k - 1)))"
      "\<forall>a. ch_queue (channels (snd (apply_entries (ce_sequence e) es df1)) a) =
        ch_queue (channels df1 a) @ entry_events df1 a (take k es)"
      "k = length es \<or> blocked (snd (apply_entries (ce_sequence e) es df1)) (es ! k)"
      by blast
    with df1 show ?thesis
      by (intro exI[of _ "Suc k"])
        (auto simp: entry_events_cong[OF df1(2)] nth_Cons' entry_events_def)
  qed
qed

text \<open>
  Replaying the parameter log after a reconnect applies a prefix of it: some number of
  entries is delivered, each to the channel of its node and in the order of the log; the first entry
  that cannot be delivered, because its node is not connected or its channel is closed or full,
  ends the replay; and the acknowledged sequence number is that of the last entry delivered, or zero.
\<close>

theorem catch_up_prefix:
  "\<exists>k. k \<le> length es \<and>
     fst (apply_state_catch_up_entries es df) = (if k = 0 then 0 else ce_sequence (es ! (k - 1))) \<and>
     (\<forall>a. ch_queue (channels (snd (apply_state_catch_up_entries es df)) a) =
        ch_queue (channels df a) @ entry_events df a (take k es)) \<and>
     (k = length es \<or> blocked (snd (apply_state_catch_up_entries es df)) (es ! k))"
  unfolding apply_state_catch_up_entries_def using apply_entries_prefix[of es 0 df] by blast

section \<open>Subscribing late\<close>

lemma send_fold_queue:
  assumes "list_all is_control evs" and "\<not> ch_closed (channels df ch)"
    and "length (ch_queue (channels df ch)) + length evs \<le> 1000"
  shows "channels (fold (\<lambda>ev. send_counted ch n ev) evs df) ch =
    (channels df ch)\<lparr>ch_queue := ch_queue (channels df ch) @ evs\<rparr>"
  using assms
proof (induction evs arbitrary: df)
  case (Cons ev evs)
  have "channels (send_counted ch n ev df) ch =
      (channels df ch)\<lparr>ch_queue := ch_queue (channels df ch) @ [ev]\<rparr>"
    using Cons.prems by (intro send_counted_queue) auto
  with Cons.IH[of "send_counted ch n ev df"] Cons.prems show ?case by simp
qed simp

lemma fold_closed_events:
  "fold (\<lambda>i. send_counted ch n (NInputClosed i)) xs df =
   fold (\<lambda>ev. send_counted ch n ev) (map NInputClosed xs) df"
  by (simp add: fold_map comp_def)

definition expects_inputs :: "running_dataflow \<Rightarrow> node_id \<Rightarrow> bool" where
  "expects_inputs df n \<longleftrightarrow>
     (case find_node (df_descriptor df) n of None \<Rightarrow> False | Some nd \<Rightarrow> inputs (node_run nd) \<noteq> [])"

lemma closed_fold_frames:
  "df_descriptor (fold (\<lambda>i. send_counted ch n (NInputClosed i)) xs df) = df_descriptor df"
  "stop_sent (fold (\<lambda>i. send_counted ch n (NInputClosed i)) xs df) = stop_sent df"
  "open_inputs_of (fold (\<lambda>i. send_counted ch n (NInputClosed i)) xs df) m = open_inputs_of df m"
  "running_nodes (fold (\<lambda>i. send_counted ch n (NInputClosed i)) xs df) = running_nodes df"
  by (induction xs arbitrary: df) simp_all

text \<open>
  A node that subscribes late misses nothing: its fresh channel starts with one notice for
  every mapped input that is closed, then the notice that all inputs are closed if none is open
  and the node has inputs at all, then the stop event if the dataflow was stopped before.
\<close>

theorem subscribe_reports_past:
  assumes "channels df ch = new_channel" and "length (closed_inputs_of n df) \<le> 998"
  shows "ch_queue (channels (subscribe_node n ch df) ch) =
    map NInputClosed (closed_inputs_of n df) @
    (if open_inputs_of df n = [] \<and> expects_inputs df n then [NAllInputsClosed] else []) @
    (if stop_sent df then [NStop] else [])"
proof -
  let ?df1 = "fold (\<lambda>i. send_counted ch n (NInputClosed i)) (closed_inputs_of n df) df"
  let ?all = "open_inputs_of df n = [] \<and> expects_inputs df n"
  define df2 where "df2 = (if open_inputs_of ?df1 n = [] then
                (case find_node (df_descriptor (disable_restart_of n ?df1)) n of
                   None \<Rightarrow> disable_restart_of n ?df1
                 | Some nd \<Rightarrow> if inputs (node_run nd) = [] then disable_restart_of n ?df1
                     else send_counted ch n NAllInputsClosed (disable_restart_of n ?df1))
              else ?df1)"
  have c1: "channels ?df1 ch = \<lparr>ch_queue = map NInputClosed (closed_inputs_of n df), ch_closed = False\<rparr>"
    using assms unfolding fold_closed_events by (subst send_fold_queue) (simp_all add: list_all_iff new_channel_def)
  have "channels (send_counted ch n NAllInputsClosed (disable_restart_of n ?df1)) ch =
      \<lparr>ch_queue = map NInputClosed (closed_inputs_of n df) @ [NAllInputsClosed], ch_closed = False\<rparr>"
    using assms(2) c1 by (subst send_counted_queue) simp_all
  then have c2: "channels df2 ch =
      \<lparr>ch_queue = map NInputClosed (closed_inputs_of n df) @ (if ?all then [NAllInputsClosed] else []),
       ch_closed = False\<rparr>"
    using c1 by (simp add: df2_def expects_inputs_def closed_fold_frames split: option.splits)
  have s2: "stop_sent df2 = stop_sent df" by (simp add: df2_def closed_fold_frames split: option.splits)
  have "channels (send_counted ch n NStop (disable_restart_of n df2)) ch =
      \<lparr>ch_queue = ch_queue (channels df2 ch) @ [NStop], ch_closed = False\<rparr>"
    using assms(2) c2 by (subst send_counted_queue) simp_all
  moreover have "channels (subscribe_node n ch df) =
      channels (if stop_sent df2 then send_counted ch n NStop (disable_restart_of n df2) else df2)"
    unfolding subscribe_node_def df2_def Let_def by simp
  ultimately show ?thesis using c2 s2 by simp
qed

theorem subscribe_reports_past_witness:
  "ch_queue (channels (subscribe_node (NodeId ''b'') 1 (close_input (NodeId ''b'', DataId ''x'')
      (remove_channel (NodeId ''b'') example_df))) 1) = [NInputClosed (DataId ''x'')]"
  using subscribe_reports_past[of "close_input (NodeId ''b'', DataId ''x'')
      (remove_channel (NodeId ''b'') example_df)" 1 "NodeId ''b''"]
  by (simp add: closed_inputs_of_def close_input_def remove_open_def remove_channel_def
      open_inputs_of_def bs_remove_def expects_inputs_def find_node_def example_df_def
      running_dataflow_new_def example_descriptor_def Let_def)

text \<open>
  A node without any input, a pure source, has no open input when it subscribes, and its restart is
  disabled like that of a node whose inputs were all closed.
\<close>

lemma subscribe_disables_restart:
  assumes "open_inputs_of df n = []" and "map_of (running_nodes df) n \<noteq> None"
  shows "restart_disabled (subscribe_node n ch df) n"
proof -
  let ?df1 = "fold (\<lambda>i. send_counted ch n (NInputClosed i)) (closed_inputs_of n df) df"
  have d: "restart_disabled (disable_restart_of n ?df1) n"
    using assms by (simp add: closed_fold_frames)
  have "restart_disabled (d\<lparr>subscribe_channels := x\<rparr>) n = restart_disabled d n" for d x
    by (simp add: restart_disabled_def)
  with d assms show ?thesis
    by (auto simp: subscribe_node_def Let_def closed_fold_frames split: option.splits)
qed

section \<open>Removing a node\<close>

lemma other_frames [simp]:
  "timers (close_input p df) = timers df" "log_subscribers (close_input p df) = log_subscribers df"
  by (simp_all add: close_input_def Let_def notify_all_closed_def remove_open_def
      split: prod.splits option.splits)

lemma close_fold_other_frames [simp]:
  "timers (fold close_input ps df) = timers df"
  "log_subscribers (fold close_input ps df) = log_subscribers df"
  "mappings (fold close_input ps df) = mappings df"
  "input_deadlines (fold close_input ps df) = input_deadlines df"
  by (induction ps arbitrary: df) simp_all

lemma remove_mappings_frames:
  "timers (fold remove_mapping_entry outs df) = timers df"
  "log_subscribers (fold remove_mapping_entry outs df) = log_subscribers df"
  "input_deadlines (fold remove_mapping_entry outs df) = input_deadlines df"
  "mappings (fold remove_mapping_entry outs df) = fold hm_remove outs (mappings df)"
  by (induction outs arbitrary: df) (simp_all add: remove_mapping_entry_def)

lemma stop_single_frames:
  "timers (snd (stop_single_node n g df)) = timers df"
  "log_subscribers (snd (stop_single_node n g df)) = log_subscribers df"
  "input_deadlines (snd (stop_single_node n g df)) = input_deadlines df"
  "mappings (snd (stop_single_node n g df)) = mappings df"
  by (simp_all add: stop_single_node_def send_stop_and_schedule_kill_def Let_def split: option.splits)

lemma fold_hm_remove: "fold hm_remove ks m = filter (\<lambda>(k, v). k \<notin> set ks) m"
  by (induction ks arbitrary: m) (auto simp: AList.delete_eq intro!: filter_cong)

text \<open>
  Removing a node cuts all its connections: no output of the node is routed any more and no
  other output is routed to it. Its timers, its log subscriptions and the deadlines of its inputs
  stay in the tables, though, so a node added later under the same name inherits them.
\<close>

theorem remove_node_routes:
  "list_all (\<lambda>(out, ps). fst out \<noteq> n \<and> list_all (\<lambda>p. fst p \<noteq> n) ps) (mappings (remove_node n g df)) \<and>
   timers (remove_node n g df) = timers df \<and>
   log_subscribers (remove_node n g df) = log_subscribers df \<and>
   input_deadlines (remove_node n g df) = input_deadlines df"
  by (auto simp: remove_node_def Let_def remove_mappings_frames stop_single_frames fold_hm_remove
      list_all_iff intro: rev_image_eqI)

end
