(* ===== verification/Restart.thy ===== *)
theory Restart
  imports Daemon_Routing
begin

text \<open>
  The task that restarts a node (\<^verbatim>\<open>binaries/daemon/src/spawn/prepared.rs\<close>). For every exit of the
  process it decides whether to restart, reports the exit to the daemon, waits for the backoff and
  spawns a replacement. What the environment decides at each turn (the exit status, the time, the
  shared flag that disables restarts, the result of spawning) is an argument, so a run is a list
  of such turns. Counters are natural numbers: four billion restarts of one process are out of
  reach. Also the bound on the length of a log line.
\<close>

section \<open>Configuration\<close>

record restart_config =
  cfg_max_restarts :: nat
  cfg_restart_delay :: "duration option"
  cfg_max_restart_delay :: "duration option"
  cfg_restart_window :: "duration option"

definition opt_secs :: "f64 option \<Rightarrow> ('e, duration option) outcome" where
  "opt_secs x =
     (case x of None \<Rightarrow> Ok None | Some s \<Rightarrow> and_then (from_secs_f64 s) (\<lambda>d. Ok (Some d)))"

fun restart_config_of :: "core_node_kind \<Rightarrow> ('e, restart_config) outcome" where
  "restart_config_of (Custom c) =
     (let r = custom_restart c
      in and_then (opt_secs (restart_delay r)) (\<lambda>d.
         and_then (opt_secs (max_restart_delay r)) (\<lambda>m.
         and_then (opt_secs (restart_window r)) (\<lambda>w.
         Ok \<lparr>cfg_max_restarts = max_restarts r, cfg_restart_delay = d,
             cfg_max_restart_delay = m, cfg_restart_window = w\<rparr>))))"
| "restart_config_of (Runtime ops) =
     Ok \<lparr>cfg_max_restarts = 0, cfg_restart_delay = None, cfg_max_restart_delay = None,
         cfg_restart_window = None\<rparr>"

fun restart_policy_of :: "core_node_kind \<Rightarrow> restart_policy" where
  "restart_policy_of (Custom c) = restart_policy (custom_restart c)"
| "restart_policy_of (Runtime ops) = Never"

fun health_check_timeout_of :: "core_node_kind \<Rightarrow> ('e, duration option) outcome" where
  "health_check_timeout_of (Custom c) = opt_secs (health_check_timeout (custom_restart c))"
| "health_check_timeout_of (Runtime ops) = Ok None"

section \<open>The loop\<close>

record restart_state =
  restart_count :: nat
  window_start :: duration
  window_count :: nat

datatype respawn = Spawned | SpawnedDynamic | SpawnFailed

record process_exit =
  exit_success :: bool
  exit_time :: duration
  exit_disabled :: bool
  disabled_after_wait :: bool
  respawn_result :: respawn

datatype restart_event =
    SpawnedNodeResult bool bool nat
  | ProcessHandleReplaced

fun policy_restarts :: "restart_policy \<Rightarrow> bool \<Rightarrow> bool" where
  "policy_restarts Always success = True"
| "policy_restarts OnFailure success = (\<not> success)"
| "policy_restarts Never success = False"

text \<open>The limit: the window may have expired, then the restart is counted.\<close>

definition count_restart :: "restart_config \<Rightarrow> duration \<Rightarrow> restart_state \<Rightarrow> bool \<times> restart_state" where
  "count_restart cfg now st =
     (let expired = (case cfg_restart_window cfg of None \<Rightarrow> False | Some w \<Rightarrow> now - window_start st > w);
          st1 = (if expired then st\<lparr>window_count := 0, window_start := now\<rparr> else st);
          st2 = st1\<lparr>window_count := window_count st1 + 1\<rparr>
      in (\<not> (cfg_max_restarts cfg > 0 \<and> window_count st2 > cfg_max_restarts cfg), st2))"

definition decide_restart ::
    "restart_config \<Rightarrow> restart_policy \<Rightarrow> process_exit \<Rightarrow> restart_state \<Rightarrow> bool \<times> restart_state" where
  "decide_restart cfg pol x st =
     (if policy_restarts pol (exit_success x) \<and> \<not> exit_disabled x
      then count_restart cfg (exit_time x) st
      else (False, st))"

definition backoff :: "restart_config \<Rightarrow> nat \<Rightarrow> ('e, duration option) outcome" where
  "backoff cfg wc =
     (case cfg_restart_delay cfg of
        None \<Rightarrow> Ok None
      | Some base \<Rightarrow>
          and_then (mul_f64 base (f64_pow2 (min (wc - 1) 16))) (\<lambda>b.
            Ok (Some (case cfg_max_restart_delay cfg of None \<Rightarrow> b | Some m \<Rightarrow> min b m))))"

fun restart_loop ::
    "restart_config \<Rightarrow> restart_policy \<Rightarrow> process_exit list \<Rightarrow> restart_state \<Rightarrow> restart_event list" where
  "restart_loop cfg pol [] st = []"
| "restart_loop cfg pol (x # xs) st =
     (let (restart, st1) = decide_restart cfg pol x st;
          report = SpawnedNodeResult (exit_success x) restart (restart_count st1)
      in if \<not> restart then [report]
         else case (backoff cfg (window_count st1) :: (unit, duration option) outcome) of
             Ok wait \<Rightarrow>
               if wait \<noteq> None \<and> disabled_after_wait x then [report]
               else (case respawn_result x of
                   Spawned \<Rightarrow>
                     report # ProcessHandleReplaced #
                       restart_loop cfg pol xs (st1\<lparr>restart_count := restart_count st1 + 1\<rparr>)
                 | _ \<Rightarrow> [report])
           | _ \<Rightarrow> [report])"

definition restart_start :: "duration \<Rightarrow> restart_state" where
  "restart_start now = \<lparr>restart_count = 0, window_start = now, window_count = 0\<rparr>"

section \<open>Long log lines\<close>

definition MAX_LOG_LINE_BYTES :: nat where
  "MAX_LOG_LINE_BYTES = 1048576"

definition truncate_line :: "nat \<Rightarrow> string \<Rightarrow> string" where
  "truncate_line mx s =
     (if length s > mx then take (floor_boundary mx s) s @ ''... [truncated]'' else s)"

definition truncate_log_line :: "string \<Rightarrow> string" where
  "truncate_log_line s = truncate_line MAX_LOG_LINE_BYTES s"

section \<open>How often\<close>

fun grants :: "restart_event list \<Rightarrow> nat" where
  "grants [] = 0"
| "grants (SpawnedNodeResult ok r n # es) = (if r then Suc (grants es) else grants es)"
| "grants (ProcessHandleReplaced # es) = grants es"

text \<open>No exit of the run falls outside the window that is open when it starts.\<close>

definition within_window :: "restart_config \<Rightarrow> process_exit list \<Rightarrow> duration \<Rightarrow> bool" where
  "within_window cfg xs start \<longleftrightarrow>
     (case cfg_restart_window cfg of
        None \<Rightarrow> True
      | Some w \<Rightarrow> list_all (\<lambda>x. exit_time x - start \<le> w) xs)"

lemma decide_within:
  assumes "decide_restart cfg pol x st = (r, st1)" "within_window cfg (x # xs) (window_start st)"
    and "0 < cfg_max_restarts cfg"
  shows "window_start st1 = window_start st" "restart_count st1 = restart_count st"
    and "r \<Longrightarrow> window_count st1 = Suc (window_count st) \<and> window_count st1 \<le> cfg_max_restarts cfg"
  using assms
  by (auto simp: decide_restart_def count_restart_def Let_def within_window_def
      split: if_splits option.splits)

lemma grants_bound:
  assumes "0 < cfg_max_restarts cfg" "within_window cfg xs (window_start st)"
    and "window_count st \<le> cfg_max_restarts cfg"
  shows "grants (restart_loop cfg pol xs st) + window_count st \<le> cfg_max_restarts cfg"
  using assms
proof (induction xs arbitrary: st)
  case (Cons x xs)
  obtain r st1 where d: "decide_restart cfg pol x st = (r, st1)" by (cases "decide_restart cfg pol x st")
  note w = decide_within[OF d Cons.prems(2) Cons.prems(1)]
  show ?case
  proof (cases r)
    case False
    with d Cons.prems(3) show ?thesis by simp
  next
    case True
    let ?st2 = "st1\<lparr>restart_count := restart_count st1 + 1\<rparr>"
    have "within_window cfg xs (window_start ?st2)"
      using Cons.prems(2) w(1) by (auto simp: within_window_def split: option.splits)
    from Cons.IH[OF Cons.prems(1) this] w(3)[OF True]
    have "grants (restart_loop cfg pol xs ?st2) + Suc (window_count st) \<le> cfg_max_restarts cfg" by simp
    with d True w(3)[OF True] show ?thesis
      by (auto simp: Let_def split: outcome.splits respawn.splits)
  qed
qed simp


definition example_exit :: "nat \<Rightarrow> process_exit" where
  "example_exit t =
     \<lparr>exit_success = False, exit_time = t, exit_disabled = False, disabled_after_wait = False,
      respawn_result = Spawned\<rparr>"

definition example_restarts :: restart_config where
  "example_restarts =
     \<lparr>cfg_max_restarts = 2, cfg_restart_delay = None, cfg_max_restart_delay = None,
      cfg_restart_window = Some 100\<rparr>"

lemmas restart_eval =
  decide_restart_def count_restart_def backoff_def restart_start_def Let_def


section \<open>How long\<close>

text \<open>
  The delay before a restart doubles: with an initial delay of a whole number of seconds the
  delay before the restart number \<open>k\<close> of a window is exactly the initial delay times
  \<open>2 ^ (k - 1)\<close>, no floating-point error included, up to the factor \<open>2 ^ 16\<close> and never more than the
  configured maximum.
\<close>

theorem backoff_doubles:
  assumes "cfg_restart_delay cfg = Some (from_secs s)" and "s < 2 ^ 48"
  shows "backoff cfg k =
    Ok (Some (case cfg_max_restart_delay cfg of
                None \<Rightarrow> from_secs (s * 2 ^ min (k - 1) 16)
              | Some m \<Rightarrow> min (from_secs (s * 2 ^ min (k - 1) 16)) m))"
proof -
  let ?e = "min (k - 1) 16"
  have "(2::nat) ^ ?e \<le> 2 ^ 16" by (intro power_increasing) auto
  then have "s * 2 ^ ?e \<le> s * 2 ^ 16" by simp
  also have "\<dots> < 2 ^ 64" using assms(2) by simp
  finally have "s * 2 ^ ?e < 2 ^ 64" "s < 2 ^ 53" "?e \<le> 52" using assms(2) by auto
  note exact = mul_f64_pow2[OF this]
  show ?thesis by (simp add: backoff_def assms(1) exact[unfolded One_nat_def] split: option.splits)
qed

text \<open>One second at first and thirty at most: 1, 2, 4, 8, 16, 30, 30 seconds.\<close>

theorem backoff_doubles_witness:
  "map (backoff \<lparr>cfg_max_restarts = 0, cfg_restart_delay = Some (from_secs 1),
                 cfg_max_restart_delay = Some (from_secs 30), cfg_restart_window = None\<rparr>)
     [1, 2, 3, 4, 5, 6, 7] =
   map (\<lambda>s. Ok (Some (from_secs s)) :: (unit, duration option) outcome) [1, 2, 4, 8, 16, 30, 30]"
  by (simp add: backoff_doubles[of _ 1]) (simp add: from_secs_def)

section \<open>How it ends\<close>

text \<open>
  A restart that is abandoned is never reported: when the restarts are disabled during the
  backoff, or when spawning the replacement fails, the last message of the task to the daemon is that
  the node will be restarted, and no message follows.
\<close>

theorem abandoned_restart_unreported:
  assumes "decide_restart cfg pol x st = (True, st1)"
    and "cfg_restart_delay cfg \<noteq> None \<and> disabled_after_wait x \<or> respawn_result x = SpawnFailed"
  shows "restart_loop cfg pol (x # xs) st = [SpawnedNodeResult (exit_success x) True (restart_count st1)]"
proof -
  have "backoff cfg k = Ok w \<Longrightarrow> cfg_restart_delay cfg \<noteq> None \<Longrightarrow> w \<noteq> None" for k w
    by (auto simp: backoff_def split: option.splits)
  with assms show ?thesis by (auto simp: Let_def split: outcome.splits respawn.splits)
qed

theorem abandoned_restart_unreported_witness:
  "restart_loop (example_restarts\<lparr>cfg_restart_delay := Some (from_secs 1)\<rparr>) Always
     [(example_exit 10)\<lparr>disabled_after_wait := True\<rparr>] (restart_start 0) =
   [SpawnedNodeResult False True 0]"
  using abandoned_restart_unreported[of "example_restarts\<lparr>cfg_restart_delay := Some (from_secs 1)\<rparr>" Always
      "(example_exit 10)\<lparr>disabled_after_wait := True\<rparr>" "restart_start 0"
      "\<lparr>restart_count = 0, window_start = 0, window_count = 1\<rparr>" "[]"]
  by (simp add: decide_restart_def count_restart_def restart_start_def Let_def example_restarts_def
      example_exit_def)

text \<open>
  A source is never restarted: once a node that has no inputs has subscribed, the task finds its
  restarts disabled at the next exit, whatever its restart policy is.
\<close>

theorem source_never_restarted:
  assumes "open_inputs_of df n = []" and "map_of (running_nodes df) n \<noteq> None"
    and "exit_disabled x = restart_disabled (subscribe_node n ch df) n"
  shows "restart_loop cfg pol (x # xs) st = [SpawnedNodeResult (exit_success x) False (restart_count st)]"
  using assms(3) subscribe_disables_restart[OF assms(1,2), of ch]
  by (simp add: decide_restart_def)

theorem source_never_restarted_witness:
  "restart_loop example_restarts Always [(example_exit 10)\<lparr>exit_disabled :=
      restart_disabled (subscribe_node (NodeId ''b'') 1 (example_df\<lparr>open_inputs := []\<rparr>)) (NodeId ''b'')\<rparr>]
     (restart_start 0) =
   [SpawnedNodeResult False False 0]"
  using source_never_restarted[of "example_df\<lparr>open_inputs := []\<rparr>" "NodeId ''b''"
      "(example_exit 10)\<lparr>exit_disabled :=
         restart_disabled (subscribe_node (NodeId ''b'') 1 (example_df\<lparr>open_inputs := []\<rparr>)) (NodeId ''b'')\<rparr>"
      1 example_restarts Always "[]" "restart_start 0"]
  by (simp add: open_inputs_of_def) (simp add: example_exit_def restart_start_def)

section \<open>Truncation\<close>

text \<open>
  A log line is bounded and stays valid text: a line is kept as it is up to the limit of
  one mebibyte; a longer one is cut at a character boundary below the limit and marked, so no
  line exceeds the limit by more than the 15 bytes of the mark.
\<close>

theorem truncate_log_line_cuts:
  "length (truncate_log_line s) \<le> MAX_LOG_LINE_BYTES + 15 \<and>
   (if length s \<le> MAX_LOG_LINE_BYTES then truncate_log_line s = s
    else \<exists>b. b \<le> MAX_LOG_LINE_BYTES \<and> is_char_boundary b s \<and>
           truncate_log_line s = take b s @ ''... [truncated]'')"
  using floor_boundary_le[of MAX_LOG_LINE_BYTES s] floor_boundary_boundary[of MAX_LOG_LINE_BYTES s]
  by (auto simp: truncate_log_line_def truncate_line_def)

end
