(* ===== verification/Daemon.thy ===== *)
theory Daemon
  imports Restart
begin

text \<open>
  The event loop of the daemon (\<^verbatim>\<open>binaries/daemon/src/lib.rs\<close>): requests of nodes, exits of
  node processes, events from other daemons and from the coordinator, and the end of a dataflow.
  A handler takes the state of the daemon to its result and the new state, also when it fails.

  Parameters stand for what other code decides: whether a message to the coordinator goes out
  (\<open>coordinator_link\<close>, \<open>None\<close> without a coordinator), whether a publisher for an output can be
  declared on the network, and the contents of shared memory. Messages to the coordinator, to other
  daemons and to the daemon itself are logs of the state.
\<close>

section \<open>State\<close>

type_synonym dataflow_id = nat

datatype exit_status = ExitSuccess | ExitIoError string | ExitCode int | ExitSignal int | ExitUnknown

datatype error_cause =
    CascadingError node_id
  | GraceDuration
  | FailedToSpawn string
  | OtherError string

record node_error =
  ne_cause :: error_cause
  ne_status :: exit_status

type_synonym node_result = "node_error option"

datatype daemon_error =
    NoRunningDataflow dataflow_id
  | BarrierFailed pending_error
  | OutputFailed output_error
  | PublisherFailed output_id
  | CoordinatorSendFailed
  | ParamFailed param_error
  | NodeOpFailed node_op_error
  | SpawnRejected spawn_error
  | NoWorkingDirectory
and spawn_error =
    AlreadyRunning dataflow_id
  | GitSourceNotBuilt node_id
  | NoCloneDirectory node_id
  | SubscribeFailed output_id
  | StopFailed daemon_error

datatype remote_event =
    RemoteOutput dataflow_id output_id metadata "nat list option"
  | RemoteOutputClosed dataflow_id output_id

datatype coordinator_message =
    AllNodesFinished dataflow_id "(node_id \<times> node_result) list"
  | TopicDebugData dataflow_id "nat list" remote_event
  | StateCatchUpAck dataflow_id nat

record daemon =
  running :: "(dataflow_id \<times> running_dataflow) list"
  coordinator_link :: "bool option"
  exit_when_done :: "(dataflow_id \<times> node_id) list option"
  exit_when_all_finished :: bool
  dataflow_node_results :: "(dataflow_id \<times> (node_id \<times> node_result) list) list"
  node_stderr :: "(dataflow_id \<times> node_id) \<Rightarrow> string option"
  to_coordinator :: "coordinator_message list"
  published :: "remote_event list"
  stopped_events :: "(dataflow_id \<times> node_id) list"

record environment =
  can_publish :: "output_id \<Rightarrow> bool"
  shared_memory :: "string \<Rightarrow> nat list option"
  current_time :: duration

type_synonym handler = "daemon \<Rightarrow> (daemon_error, unit) outcome \<times> daemon"

definition set_dataflow :: "dataflow_id \<Rightarrow> running_dataflow \<Rightarrow> daemon \<Rightarrow> daemon" where
  "set_dataflow d df dm = dm\<lparr>running := hm_insert d df (running dm)\<rparr>"

section \<open>Other daemons\<close>

definition send_to_remote_receivers :: "environment \<Rightarrow> dataflow_id \<Rightarrow> output_id \<Rightarrow> remote_event \<Rightarrow> handler" where
  "send_to_remote_receivers env d out ev dm =
     (if map_of (running dm) d = None then (Err (NoRunningDataflow d), dm)
      else if can_publish env out then (Ok (), dm\<lparr>published := published dm @ [ev]\<rparr>)
      else (Err (PublisherFailed out), dm))"

fun publish_closed :: "environment \<Rightarrow> dataflow_id \<Rightarrow> output_id list \<Rightarrow> handler" where
  "publish_closed env d [] dm = (Ok (), dm)"
| "publish_closed env d (out # outs) dm =
     (case send_to_remote_receivers env d out (RemoteOutputClosed d out) dm of
        (Ok _, dm') \<Rightarrow> publish_closed env d outs dm'
      | (Err e, dm') \<Rightarrow> (Err e, dm')
      | (Panic, dm') \<Rightarrow> (Panic, dm'))"

definition send_output_closed_events :: "environment \<Rightarrow> dataflow_id \<Rightarrow> node_id \<Rightarrow> data_id list \<Rightarrow> handler" where
  "send_output_closed_events env d n outs dm =
     (case map_of (running dm) d of
        None \<Rightarrow> (Err (NoRunningDataflow d), dm)
      | Some df \<Rightarrow>
          let df1 = close_local_outputs n outs df
          in publish_closed env d (closed_external_outputs n outs df1) (set_dataflow d df1 dm))"

definition send_topic_debug_frames :: "dataflow_id \<Rightarrow> output_id \<Rightarrow> remote_event \<Rightarrow> daemon \<Rightarrow> daemon" where
  "send_topic_debug_frames d out ev dm =
     (case (coordinator_link dm, map_of (running dm) d) of
        (Some True, Some df) \<Rightarrow>
          (case map_of (debug_topic_watchers df) out of
             None \<Rightarrow> dm
           | Some subs \<Rightarrow> dm\<lparr>to_coordinator := to_coordinator dm @ [TopicDebugData d subs ev]\<rparr>)
      | _ \<Rightarrow> dm)"

section \<open>Outputs\<close>

definition send_out ::
    "environment \<Rightarrow> dataflow_id \<Rightarrow> node_id \<Rightarrow> data_id \<Rightarrow> metadata \<Rightarrow> data_message option \<Rightarrow> handler" where
  "send_out env d n o_id md data dm =
     (case map_of (running dm) d of
        None \<Rightarrow> (Err (NoRunningDataflow d), dm)
      | Some df \<Rightarrow>
          let out = (n, o_id);
              remote = (out \<in> set (open_external_mappings df) \<or> debug_inspection df);
              watched = (map_of (debug_topic_watchers df) out \<noteq> None)
          in case send_output_to_local_receivers (shared_memory env) (current_time env) out md data
                    remote df of
               (Err e, df1) \<Rightarrow> (Err (OutputFailed e), set_dataflow d df1 dm)
             | (Panic, df1) \<Rightarrow> (Panic, set_dataflow d df1 dm)
             | (Ok bytes, df1) \<Rightarrow>
                 let dm1 = set_dataflow d df1 dm;
                     ev = RemoteOutput d out md bytes;
                     dm2 = (if watched then send_topic_debug_frames d out ev dm1 else dm1)
                 in if remote then send_to_remote_receivers env d out ev dm2 else (Ok (), dm2))"

definition handle_outputs_done :: "environment \<Rightarrow> dataflow_id \<Rightarrow> node_id \<Rightarrow> bool \<Rightarrow> handler" where
  "handle_outputs_done env d n might_restart dm =
     (case map_of (running dm) d of
        None \<Rightarrow> (Err (NoRunningDataflow d), dm)
      | Some df \<Rightarrow>
          let outs = map snd (filter (\<lambda>k. fst k = n) (map fst (mappings df)));
              (r, dm1) = (if might_restart then (Ok (), dm)
                          else send_output_closed_events env d n outs dm)
          in case r of
               Ok _ \<Rightarrow>
                 (case map_of (running dm1) d of
                    None \<Rightarrow> (Err (NoRunningDataflow d), dm1)
                  | Some df1 \<Rightarrow>
                      (Ok (),
                       set_dataflow d
                         (df1\<lparr>drop_channels := hm_remove n (drop_channels df1)\<rparr>) dm1))
             | Err e \<Rightarrow> (Err e, dm1)
             | Panic \<Rightarrow> (Panic, dm1))"

section \<open>The end of a node and of a dataflow\<close>

definition finish_dataflow :: "dataflow_id \<Rightarrow> handler" where
  "finish_dataflow d dm =
     (let results = (case map_of (dataflow_node_results dm) d of None \<Rightarrow> [] | Some rs \<Rightarrow> rs)
      in case coordinator_link dm of
           Some False \<Rightarrow> (Err CoordinatorSendFailed, dm)
         | Some True \<Rightarrow>
             (Ok (), dm\<lparr>to_coordinator := to_coordinator dm @ [AllNodesFinished d results],
                        running := hm_remove d (running dm)\<rparr>)
         | None \<Rightarrow> (Ok (), dm\<lparr>running := hm_remove d (running dm)\<rparr>))"

definition all_dynamic :: "running_dataflow \<Rightarrow> bool" where
  "all_dynamic df \<longleftrightarrow> list_all (\<lambda>(n, r). is_dynamic r) (running_nodes df)"

definition handle_node_stop_inner :: "environment \<Rightarrow> dataflow_id \<Rightarrow> node_id \<Rightarrow> bool \<Rightarrow> handler" where
  "handle_node_stop_inner env d n dynamic dm =
     (case map_of (running dm) d of
        None \<Rightarrow> if dynamic then (Ok (), dm) else (Err (NoRunningDataflow d), dm)
      | Some df \<Rightarrow>
          (case pending_node_stop (coordinator_link dm) n (df_pending df) of
             (Err e, p) \<Rightarrow> (Err (BarrierFailed e), set_dataflow d (df\<lparr>df_pending := p\<rparr>) dm)
           | (Panic, p) \<Rightarrow> (Panic, set_dataflow d (df\<lparr>df_pending := p\<rparr>) dm)
           | (Ok _, p) \<Rightarrow>
               (case handle_outputs_done env d n False (set_dataflow d (df\<lparr>df_pending := p\<rparr>) dm) of
                  (Err e, dm1) \<Rightarrow> (Err e, dm1)
                | (Panic, dm1) \<Rightarrow> (Panic, dm1)
                | (Ok _, dm1) \<Rightarrow>
                    (case map_of (running dm1) d of
                       None \<Rightarrow> (Err (NoRunningDataflow d), dm1)
                     | Some df1 \<Rightarrow>
                         let df2 = df1\<lparr>running_nodes := bt_remove n (running_nodes df1)\<rparr>;
                             dm2 = set_dataflow d df2 dm1
                         in if \<not> local_nodes_pending (df_pending df2) \<and> all_dynamic df2
                            then finish_dataflow d dm2 else (Ok (), dm2)))))"

definition handle_node_stop :: "environment \<Rightarrow> dataflow_id \<Rightarrow> node_id \<Rightarrow> bool \<Rightarrow> handler" where
  "handle_node_stop env d n dynamic dm =
     (let (r, dm1) = handle_node_stop_inner env d n dynamic dm
      in (r, dm1\<lparr>stopped_events := stopped_events dm1 @ [(d, n)]\<rparr>))"

section \<open>Exits of node processes\<close>

definition downstream_nodes :: "node_id \<Rightarrow> running_dataflow \<Rightarrow> node_id list" where
  "downstream_nodes n df =
     bs_collect (map fst (concat (map snd (filter (\<lambda>(k, ps). fst k = n) (mappings df)))))"

text \<open>
  A restart must not be missed: when the channel is full the daemon waits until the serving task
  has taken an event, then sends.
\<close>

definition notify_restarted :: "node_id \<Rightarrow> node_id \<Rightarrow> running_dataflow \<Rightarrow> running_dataflow" where
  "notify_restarted n r df =
     (case map_of (subscribe_channels df) r of
        None \<Rightarrow> df
      | Some ch \<Rightarrow>
          (case channel_send ch (NNodeRestarted n) df of
             (Delivered, df') \<Rightarrow> inc_pending r df'
           | (Dropped, df') \<Rightarrow> send_counted ch r (NNodeRestarted n) (snd (serve_event ch df'))
           | (ChannelClosed, df') \<Rightarrow> df'))"

definition affected_by_receiver :: "node_id \<Rightarrow> running_dataflow \<Rightarrow> (node_id \<times> data_id list) list" where
  "affected_by_receiver n df =
     fold (\<lambda>(r, i). bt_entry r [] (\<lambda>is. is @ [i]))
       (concat (map snd (filter (\<lambda>(k, ps). fst k = n) (mappings df)))) []"

text \<open>Unlike every other event, this one is sent without counting it.\<close>

definition notify_failed :: "string \<Rightarrow> node_id \<Rightarrow> (node_id \<times> data_id list) \<Rightarrow> running_dataflow \<Rightarrow> running_dataflow" where
  "notify_failed err n = (\<lambda>(r, affected) df.
     case map_of (subscribe_channels df) r of
       None \<Rightarrow> df
     | Some ch \<Rightarrow> snd (channel_send ch (NNodeFailed affected err n) df))"

definition failure_cause :: "dataflow_id \<Rightarrow> node_id \<Rightarrow> daemon \<Rightarrow> error_cause" where
  "failure_cause d n dm =
     (case map_of (running dm) d of
        None \<Rightarrow> OtherError []
      | Some df \<Rightarrow>
          (case error_caused_by (caused_by (df_pending df)) n of
             Some c \<Rightarrow> CascadingError c
           | None \<Rightarrow>
               if n \<in> set (grace_duration_kills df) then GraceDuration
               else OtherError (case node_stderr dm (d, n) of None \<Rightarrow> [] | Some s \<Rightarrow> s)))"

definition exit_result :: "dataflow_id \<Rightarrow> node_id \<Rightarrow> exit_status \<Rightarrow> daemon \<Rightarrow> node_result" where
  "exit_result d n status dm =
     (if status = ExitSuccess then None
      else Some \<lparr>ne_cause = failure_cause d n dm, ne_status = status\<rparr>)"

definition record_result :: "dataflow_id \<Rightarrow> node_id \<Rightarrow> node_result \<Rightarrow> daemon \<Rightarrow> daemon" where
  "record_result d n r dm =
     dm\<lparr>dataflow_node_results := bt_entry d [] (bt_insert n r) (dataflow_node_results dm)\<rparr>"

text \<open>The text of a node error is a parameter of the notification.\<close>

definition spawned_node_result ::
    "environment \<Rightarrow> (node_error \<Rightarrow> string) \<Rightarrow> dataflow_id \<Rightarrow> node_id \<Rightarrow> bool \<Rightarrow> exit_status \<Rightarrow> bool \<Rightarrow> handler" where
  "spawned_node_result env show_error d n dynamic status restart dm =
     (let result = exit_result d n status dm
      in if restart
         then (Ok (),
               case map_of (running dm) d of
                 None \<Rightarrow> dm
               | Some df \<Rightarrow> set_dataflow d (fold (notify_restarted n) (downstream_nodes n df) df) dm)
         else
           let dm1 = (case (result, map_of (running dm) d) of
                        (Some e, Some df) \<Rightarrow>
                          set_dataflow d
                            (fold (notify_failed (show_error e) n) (affected_by_receiver n df) df) dm
                      | _ \<Rightarrow> dm)
           in handle_node_stop env d n dynamic (record_result d n result dm1))"

definition process_handle_replaced :: "dataflow_id \<Rightarrow> node_id \<Rightarrow> nat \<Rightarrow> daemon \<Rightarrow> daemon" where
  "process_handle_replaced d n h dm =
     (case map_of (running dm) d of
        None \<Rightarrow> dm
      | Some df \<Rightarrow>
          (case map_of (running_nodes df) n of
             None \<Rightarrow> dm
           | Some r \<Rightarrow>
               set_dataflow d
                 ((case process r of None \<Rightarrow> df | Some old \<Rightarrow> drop_handle old df)
                    \<lparr>running_nodes := bt_insert n (r\<lparr>process := Some h\<rparr>) (running_nodes df)\<rparr>) dm))"

definition spawn_node_result ::
    "environment \<Rightarrow> dataflow_id \<Rightarrow> node_id \<Rightarrow> bool \<Rightarrow> node_error + running_node \<Rightarrow> handler" where
  "spawn_node_result env d n dynamic result dm =
     (case result of
        Inr r \<Rightarrow>
          (Ok (),
           case map_of (running dm) d of
             None \<Rightarrow> dm
           | Some df \<Rightarrow>
               set_dataflow d (df\<lparr>running_nodes := bt_insert n r (running_nodes df)\<rparr>) dm)
      | Inl e \<Rightarrow> handle_node_stop env d n dynamic (record_result d n (Some e) dm))"

section \<open>Requests of nodes\<close>

datatype node_request =
    ReqSubscribe nat nat
  | ReqSubscribeDrop nat
  | ReqCloseOutputs "data_id list"
  | ReqOutputsDone
  | ReqSendOut data_id metadata "data_message option"
  | ReqReportDrop "drop_token list"
  | ReqEventStreamDropped

definition might_restart :: "dataflow_id \<Rightarrow> node_id \<Rightarrow> daemon \<Rightarrow> bool" where
  "might_restart d n dm =
     (case map_of (running dm) d of
        None \<Rightarrow> False
      | Some df \<Rightarrow>
          (case map_of (running_nodes df) n of
             None \<Rightarrow> False
           | Some r \<Rightarrow> node_restart_policy r \<noteq> Never \<and> \<not> disable_restart r))"

definition handle_subscribe :: "dataflow_id \<Rightarrow> node_id \<Rightarrow> nat \<Rightarrow> nat \<Rightarrow> handler" where
  "handle_subscribe d n ch reply dm =
     (case map_of (running dm) d of
        None \<Rightarrow> (Ok (), dm)
      | Some df \<Rightarrow>
          let df1 = subscribe_node n ch
                      (df\<lparr>pending_messages := hm_insert n ch (pending_messages df)\<rparr>);
              (r, p) = handle_node_subscription (coordinator_link dm) n reply (df_pending df1);
              df2 = df1\<lparr>df_pending := p\<rparr>
          in case r of
               Ok AllNodesReady \<Rightarrow>
                 (Ok (),
                  set_dataflow d
                    (if dataflow_started df2 then df2
                     else (start_dataflow df2)\<lparr>dataflow_started := True\<rparr>) dm)
             | Ok StillPending \<Rightarrow> (Ok (), set_dataflow d df2 dm)
             | Err e \<Rightarrow> (Err (BarrierFailed e), set_dataflow d df2 dm)
             | Panic \<Rightarrow> (Panic, set_dataflow d df2 dm))"

text \<open>A request also has an answer: none, or the error it reports to the node.\<close>

fun reply_of :: "(daemon_error, unit) outcome \<Rightarrow> daemon_error option" where
  "reply_of (Err e) = Some e"
| "reply_of _ = None"

definition handle_node_event ::
    "environment \<Rightarrow> dataflow_id \<Rightarrow> node_id \<Rightarrow> node_request \<Rightarrow> daemon \<Rightarrow>
     (daemon_error, unit) outcome \<times> daemon_error option \<times> daemon" where
  "handle_node_event env d n req dm =
     (case req of
        ReqSubscribe ch reply \<Rightarrow>
          (let (r, dm1) = handle_subscribe d n ch reply dm
           in (r, if map_of (running dm) d = None then Some (NoRunningDataflow d) else None, dm1))
      | ReqSubscribeDrop ch \<Rightarrow>
          (case map_of (running dm) d of
             None \<Rightarrow> (Ok (), Some (NoRunningDataflow d), dm)
           | Some df \<Rightarrow>
               (Ok (), None, set_dataflow d (df\<lparr>drop_channels := hm_insert n ch (drop_channels df)\<rparr>) dm))
      | ReqCloseOutputs outs \<Rightarrow>
          (if might_restart d n dm then (Ok (), None, dm)
           else let (r, dm1) = send_output_closed_events env d n outs dm in (Ok (), reply_of r, dm1))
      | ReqOutputsDone \<Rightarrow>
          (let (r, dm1) = handle_outputs_done env d n (might_restart d n dm) dm
           in (Ok (), reply_of r, dm1))
      | ReqSendOut o_id md data \<Rightarrow>
          (let (r, dm1) = send_out env d n o_id md data dm in (r, None, dm1))
      | ReqReportDrop ts \<Rightarrow>
          (Ok (), None,
           case map_of (running dm) d of
             None \<Rightarrow> dm
           | Some df \<Rightarrow> set_dataflow d (report_drop n ts df) dm)
      | ReqEventStreamDropped \<Rightarrow>
          (case map_of (running dm) d of
             None \<Rightarrow> (Ok (), Some (NoRunningDataflow d), dm)
           | Some df \<Rightarrow> (Ok (), None, set_dataflow d (remove_channel n df) dm)))"

section \<open>Events of other daemons\<close>

definition handle_inter_daemon_event :: "environment \<Rightarrow> remote_event \<Rightarrow> daemon \<Rightarrow> daemon" where
  "handle_inter_daemon_event env ev dm =
     (case ev of
        RemoteOutput d out md bytes \<Rightarrow>
          (case map_of (running dm) d of
             None \<Rightarrow> dm
           | Some df \<Rightarrow>
               set_dataflow d
                 (snd (send_output_to_local_receivers (shared_memory env) (current_time env) out md
                    (map_option DataVec bytes) False df)) dm)
      | RemoteOutputClosed d out \<Rightarrow>
          (case map_of (running dm) d of
             None \<Rightarrow> dm
           | Some df \<Rightarrow> set_dataflow d (fold close_input (mapped_ports df out) df) dm))"

section \<open>Spawning a dataflow\<close>

record spawn_environment =
  working_directory :: bool
  build_found :: bool
  clone_directory :: "node_id \<Rightarrow> bool"
  spawn_failure :: "node_id \<Rightarrow> string option"
  can_subscribe :: "output_id \<Rightarrow> bool"

text \<open>
  The second loop over the nodes: a local node is awaited or noted as dynamic, then spawned; a node
  of another machine makes the start wait for the coordinator, and its outputs are subscribed.
\<close>

definition spawn_local ::
    "spawn_environment \<Rightarrow> dataflow_id \<Rightarrow> resolved_node \<Rightarrow> (node_id \<times> bool) list \<times> daemon \<Rightarrow>
     (spawn_error, unit) outcome \<times> (node_id \<times> bool) list \<times> daemon" where
  "spawn_local senv d nd = (\<lambda>(stopped, dm).
     case map_of (running dm) d of
       None \<Rightarrow> (Ok (), stopped, dm)
     | Some df \<Rightarrow>
         let n = rn_id nd;
             dynamic = kind_dynamic (rn_kind nd);
             dm1 = set_dataflow d
                     (if dynamic then df\<lparr>dynamic_nodes := bs_insert n (dynamic_nodes df)\<rparr>
                      else df\<lparr>df_pending := pending_insert n (df_pending df)\<rparr>) dm
         in if \<not> clone_directory senv n \<and> has_git_source nd
            then (Err (NoCloneDirectory n), stopped, dm1)
            else (case spawn_failure senv n of
                None \<Rightarrow> (Ok (), stopped, dm1)
              | Some err \<Rightarrow>
                  (Ok (), stopped @ [(n, dynamic)],
                   record_result d n
                     (Some \<lparr>ne_cause = FailedToSpawn err, ne_status = ExitUnknown\<rparr>) dm1)))"

definition spawn_remote ::
    "spawn_environment \<Rightarrow> dataflow_id \<Rightarrow> resolved_node \<Rightarrow> (node_id \<times> bool) list \<times> daemon \<Rightarrow>
     (spawn_error, unit) outcome \<times> (node_id \<times> bool) list \<times> daemon" where
  "spawn_remote senv d nd = (\<lambda>(stopped, dm).
     case map_of (running dm) d of
       None \<Rightarrow> (Ok (), stopped, dm)
     | Some df \<Rightarrow>
         let dm1 = set_dataflow d (df\<lparr>df_pending := set_external_nodes True (df_pending df)\<rparr>) dm
         in (case List.find (\<lambda>out. fst out = rn_id nd \<and> \<not> can_subscribe senv out) (map fst (mappings df)) of
               None \<Rightarrow> (Ok (), stopped, dm1)
             | Some out \<Rightarrow> (Err (SubscribeFailed out), stopped, dm1)))"

fun spawn_all ::
    "spawn_environment \<Rightarrow> dataflow_id \<Rightarrow> node_id list \<Rightarrow> resolved_node list \<Rightarrow>
     (node_id \<times> bool) list \<times> daemon \<Rightarrow>
     (spawn_error, unit) outcome \<times> (node_id \<times> bool) list \<times> daemon" where
  "spawn_all senv d spawn_nodes [] s = (Ok (), s)"
| "spawn_all senv d spawn_nodes (nd # rest) s =
     (case (if rn_id nd \<in> set spawn_nodes then spawn_local senv d nd s else spawn_remote senv d nd s) of
        (Ok _, s') \<Rightarrow> spawn_all senv d spawn_nodes rest s'
      | (Err e, s') \<Rightarrow> (Err e, s')
      | (Panic, s') \<Rightarrow> (Panic, s'))"

fun stop_failed_nodes :: "environment \<Rightarrow> dataflow_id \<Rightarrow> (node_id \<times> bool) list \<Rightarrow> handler" where
  "stop_failed_nodes env d [] dm = (Ok (), dm)"
| "stop_failed_nodes env d ((n, dynamic) # rest) dm =
     (case handle_node_stop env d n dynamic dm of
        (Ok _, dm') \<Rightarrow> stop_failed_nodes env d rest dm'
      | (Err e, dm') \<Rightarrow> (Err e, dm')
      | (Panic, dm') \<Rightarrow> (Panic, dm'))"

definition spawn_dataflow ::
    "environment \<Rightarrow> spawn_environment \<Rightarrow> dataflow_id \<Rightarrow> resolved_node list \<Rightarrow> descriptor \<Rightarrow>
     node_id list \<Rightarrow> daemon \<Rightarrow> (spawn_error, unit) outcome \<times> daemon" where
  "spawn_dataflow env senv d rns desc spawn_nodes dm =
     (if map_of (running dm) d \<noteq> None then (Err (AlreadyRunning d), dm)
      else
        let df0 = running_dataflow_new desc;
            dm0 = set_dataflow d df0 dm
        in case (List.find has_git_source rns, build_found senv) of
             (Some nd, False) \<Rightarrow> (Err (GitSourceNotBuilt (rn_id nd)), dm0)
           | _ \<Rightarrow>
               (case try_fold (register_resolved spawn_nodes) rns df0 of
                  Err e \<Rightarrow> (Err e, dm0)
                | Panic \<Rightarrow> (Panic, dm0)
                | Ok df1 \<Rightarrow>
                    (case spawn_all senv d spawn_nodes rns ([], set_dataflow d df1 dm0) of
                       (Err e, stopped, dm1) \<Rightarrow> (Err e, dm1)
                     | (Panic, stopped, dm1) \<Rightarrow> (Panic, dm1)
                     | (Ok _, stopped, dm1) \<Rightarrow>
                         (case stop_failed_nodes env d stopped dm1 of
                            (Ok _, dm2) \<Rightarrow> (Ok (), dm2)
                          | (Err e, dm2) \<Rightarrow> (Err (StopFailed e), dm2)
                          | (Panic, dm2) \<Rightarrow> (Panic, dm2)))))"

section \<open>Requests of the coordinator\<close>

datatype coordinator_request =
    CoSpawn dataflow_id "resolved_node list" descriptor "node_id list"
  | CoAllNodesReady dataflow_id "node_id list"
  | CoReload dataflow_id node_id "operator_id option"
  | CoRestartNode dataflow_id node_id "duration option"
  | CoStopNode dataflow_id node_id "duration option"
  | CoSetParam dataflow_id node_id string nat
  | CoDeleteParam dataflow_id node_id string
  | CoStopDataflow dataflow_id "duration option" bool
  | CoAddNode dataflow_id resolved_node "running_node option"
  | CoRemoveNode dataflow_id node_id "duration option"
  | CoAddMapping dataflow_id output_id port
  | CoRemoveMapping dataflow_id output_id port
  | CoStartTopicDebugStream dataflow_id "output_id list" nat
  | CoStopTopicDebugStream dataflow_id nat
  | CoStateCatchUp dataflow_id "catch_up_entry list"
  | CoHeartbeat
  | CoPeerDaemonDisconnected
  | CoDestroy

datatype run_status = Continue | Exit

text \<open>An update of one dataflow, with the answer \<open>NoRunningDataflow\<close> if there is none.\<close>

definition on_dataflow ::
    "dataflow_id \<Rightarrow> (running_dataflow \<Rightarrow> daemon_error option \<times> running_dataflow) \<Rightarrow> daemon \<Rightarrow>
     daemon_error option \<times> daemon" where
  "on_dataflow d f dm =
     (case map_of (running dm) d of
        None \<Rightarrow> (Some (NoRunningDataflow d), dm)
      | Some df \<Rightarrow> (let (r, df') = f df in (r, set_dataflow d df' dm)))"

fun param_reply :: "(param_error, unit) outcome \<times> running_dataflow \<Rightarrow> daemon_error option \<times> running_dataflow" where
  "param_reply (Err e, df) = (Some (ParamFailed e), df)"
| "param_reply (_, df) = (None, df)"

fun node_op_reply :: "(node_op_error, unit) outcome \<times> running_dataflow \<Rightarrow> daemon_error option \<times> running_dataflow" where
  "node_op_reply (Err e, df) = (Some (NodeOpFailed e), df)"
| "node_op_reply (_, df) = (None, df)"

definition all_nodes_ready :: "node_id list \<Rightarrow> running_dataflow \<Rightarrow> running_dataflow" where
  "all_nodes_ready exited df =
     (let df1 = df\<lparr>df_pending := handle_external_all_nodes_ready exited (df_pending df)\<rparr>
      in if exited = [] then start_dataflow df1 else df1)"

definition stop_dataflow :: "dataflow_id \<Rightarrow> duration option \<Rightarrow> bool \<Rightarrow> handler" where
  "stop_dataflow d grace force dm =
     (case map_of (running dm) d of
        None \<Rightarrow> (Ok (), dm)
      | Some df \<Rightarrow>
          (case stop_all (coordinator_link dm) grace force df of
             (Ok FinishNow, df1) \<Rightarrow> finish_dataflow d (set_dataflow d df1 dm)
           | (Ok WaitForNodes, df1) \<Rightarrow> (Ok (), set_dataflow d df1 dm)
           | (Err e, df1) \<Rightarrow> (Err (BarrierFailed e), set_dataflow d df1 dm)
           | (Panic, df1) \<Rightarrow> (Panic, set_dataflow d df1 dm)))"

definition state_catch_up :: "dataflow_id \<Rightarrow> catch_up_entry list \<Rightarrow> daemon \<Rightarrow> daemon" where
  "state_catch_up d es dm =
     (case map_of (running dm) d of
        None \<Rightarrow> dm
      | Some df \<Rightarrow>
          (let (applied, df1) = apply_state_catch_up_entries es df;
               dm1 = set_dataflow d df1 dm
           in if applied > 0 \<and> coordinator_link dm = Some True
              then dm1\<lparr>to_coordinator := to_coordinator dm1 @ [StateCatchUpAck d applied]\<rparr>
              else dm1))"

text \<open>
  What a request gets back over the connection: nothing at all, or the error of the operation, if any.
\<close>

datatype daemon_reply = NotReplied | Reply "daemon_error option"

definition spawn_request ::
    "environment \<Rightarrow> spawn_environment \<Rightarrow> dataflow_id \<Rightarrow> resolved_node list \<Rightarrow> descriptor \<Rightarrow>
     node_id list \<Rightarrow> daemon \<Rightarrow> (daemon_error, run_status) outcome \<times> daemon_reply \<times> daemon" where
  "spawn_request env senv d rns desc spawn_nodes dm =
     (if \<not> working_directory senv then (Err NoWorkingDirectory, NotReplied, dm)
      else case spawn_dataflow env senv d rns desc spawn_nodes dm of
             (Ok _, dm1) \<Rightarrow> (Ok Continue, Reply None, dm1)
           | (Err e, dm1) \<Rightarrow> (Ok Continue, Reply (Some (SpawnRejected e)), dm1)
           | (Panic, dm1) \<Rightarrow> (Panic, NotReplied, dm1))"

text \<open>
  A node is added only when its process could be started; whatever happens, the coordinator gets no
  reply.
\<close>

definition add_node_request ::
    "dataflow_id \<Rightarrow> resolved_node \<Rightarrow> running_node option \<Rightarrow> daemon \<Rightarrow>
     (daemon_error, run_status) outcome \<times> daemon_reply \<times> daemon" where
  "add_node_request d nd started dm =
     (case (map_of (running dm) d, started) of
        (Some df, Some r) \<Rightarrow>
          (case (add_node nd r df :: (daemon_error, running_dataflow) outcome) of
             Ok df' \<Rightarrow> (Ok Continue, NotReplied, set_dataflow d df' dm)
           | Err e \<Rightarrow> (Ok Continue, NotReplied, dm)
           | Panic \<Rightarrow> (Panic, NotReplied, dm))
      | _ \<Rightarrow> (Ok Continue, NotReplied, dm))"

definition handle_coordinator_event ::
    "environment \<Rightarrow> spawn_environment \<Rightarrow> coordinator_request \<Rightarrow> daemon \<Rightarrow>
     (daemon_error, run_status) outcome \<times> daemon_reply \<times> daemon" where
  "handle_coordinator_event env senv req dm =
     (let continue = (\<lambda>(r, dm'). (Ok Continue, Reply r, dm'));
          unanswered = (\<lambda>(r, dm'). (Ok Continue, NotReplied, dm'))
      in case req of
           CoSpawn d rns desc sn \<Rightarrow> spawn_request env senv d rns desc sn dm
         | CoAddNode d nd started \<Rightarrow> add_node_request d nd started dm
         | CoAllNodesReady d exited \<Rightarrow> unanswered (on_dataflow d (\<lambda>df. (None, all_nodes_ready exited df)) dm)
         | CoReload d n op \<Rightarrow> continue (on_dataflow d (\<lambda>df. (None, send_reload n op df)) dm)
         | CoRestartNode d n g \<Rightarrow> continue (on_dataflow d (\<lambda>df. node_op_reply (restart_single_node n g df)) dm)
         | CoStopNode d n g \<Rightarrow> continue (on_dataflow d (\<lambda>df. node_op_reply (stop_single_node n g df)) dm)
         | CoSetParam d n k v \<Rightarrow>
             continue (on_dataflow d (\<lambda>df. param_reply (deliver_param_update_strict n k v df)) dm)
         | CoDeleteParam d n k \<Rightarrow>
             continue (on_dataflow d (\<lambda>df. param_reply (deliver_param_delete_strict n k df)) dm)
         | CoStopDataflow d g force \<Rightarrow>
             (let answer = Reply (if map_of (running dm) d = None then Some (NoRunningDataflow d) else None)
              in case stop_dataflow d g force dm of
                   (Ok _, dm1) \<Rightarrow> (Ok Continue, answer, dm1)
                 | (Err e, dm1) \<Rightarrow> (Err e, answer, dm1)
                 | (Panic, dm1) \<Rightarrow> (Panic, answer, dm1))
         | CoRemoveNode d n g \<Rightarrow> unanswered (on_dataflow d (\<lambda>df. (None, remove_node n g df)) dm)
         | CoAddMapping d out p \<Rightarrow> unanswered (on_dataflow d (\<lambda>df. (None, connect_ports out p df)) dm)
         | CoRemoveMapping d out p \<Rightarrow> unanswered (on_dataflow d (\<lambda>df. (None, disconnect_ports out p df)) dm)
         | CoStartTopicDebugStream d outs sub \<Rightarrow>
             continue (on_dataflow d (\<lambda>df. (None, start_topic_debug_stream outs sub df)) dm)
         | CoStopTopicDebugStream d sub \<Rightarrow>
             continue (on_dataflow d (\<lambda>df. (None, stop_topic_debug_stream sub df)) dm)
         | CoStateCatchUp d es \<Rightarrow> (Ok Continue, NotReplied, state_catch_up d es dm)
         | CoHeartbeat \<Rightarrow> (Ok Continue, NotReplied, dm)
         | CoPeerDaemonDisconnected \<Rightarrow> (Ok Continue, NotReplied, dm)
         | CoDestroy \<Rightarrow> (Ok Exit, Reply None, dm))"

section \<open>Stopping the daemon\<close>

fun stop_dataflows :: "dataflow_id list \<Rightarrow> daemon \<Rightarrow> (daemon_error, dataflow_id list) outcome \<times> daemon" where
  "stop_dataflows [] dm = (Ok [], dm)"
| "stop_dataflows (d # ds) dm =
     (case map_of (running dm) d of
        None \<Rightarrow> stop_dataflows ds dm
      | Some df \<Rightarrow>
          (case stop_all (coordinator_link dm) None False df of
             (Ok w, df1) \<Rightarrow>
               (case stop_dataflows ds (set_dataflow d df1 dm) of
                  (Ok fs, dm1) \<Rightarrow> (Ok (if w = FinishNow then d # fs else fs), dm1)
                | (Err e, dm1) \<Rightarrow> (Err e, dm1)
                | (Panic, dm1) \<Rightarrow> (Panic, dm1))
           | (Err e, df1) \<Rightarrow> (Err (BarrierFailed e), set_dataflow d df1 dm)
           | (Panic, df1) \<Rightarrow> (Panic, set_dataflow d df1 dm)))"

fun finish_dataflows :: "dataflow_id list \<Rightarrow> handler" where
  "finish_dataflows [] dm = (Ok (), dm)"
| "finish_dataflows (d # ds) dm =
     (case finish_dataflow d dm of
        (Ok _, dm1) \<Rightarrow> finish_dataflows ds dm1
      | (Err e, dm1) \<Rightarrow> (Err e, dm1)
      | (Panic, dm1) \<Rightarrow> (Panic, dm1))"

definition trigger_manual_stop :: handler where
  "trigger_manual_stop dm =
     (case stop_dataflows (map fst (running dm)) dm of
        (Ok fs, dm1) \<Rightarrow>
          (case finish_dataflows fs dm1 of
             (Ok _, dm2) \<Rightarrow> (Ok (), dm2\<lparr>exit_when_all_finished := True\<rparr>)
           | (Err e, dm2) \<Rightarrow> (Err e, dm2)
           | (Panic, dm2) \<Rightarrow> (Panic, dm2))
      | (Err e, dm1) \<Rightarrow> (Err e, dm1)
      | (Panic, dm1) \<Rightarrow> (Panic, dm1))"

text \<open>The two ways in which the loop ends by itself: an interrupt, and the end of the last node.\<close>

definition ctrl_c :: "daemon \<Rightarrow> (daemon_error, run_status) outcome \<times> daemon" where
  "ctrl_c dm =
     (case trigger_manual_stop dm of
        (Ok _, dm1) \<Rightarrow> (Ok (if running dm1 = [] then Exit else Continue), dm1)
      | (Err e, dm1) \<Rightarrow> (Err e, dm1)
      | (Panic, dm1) \<Rightarrow> (Panic, dm1))"

definition node_stopped :: "dataflow_id \<Rightarrow> node_id \<Rightarrow> daemon \<Rightarrow> run_status \<times> daemon" where
  "node_stopped d n dm =
     (case exit_when_done dm of
        Some waiting \<Rightarrow>
          let rest = bs_remove (d, n) waiting;
              dm1 = dm\<lparr>exit_when_done := Some rest\<rparr>
          in (if rest = [] \<or> exit_when_all_finished dm \<and> running dm = [] then Exit else Continue, dm1)
      | None \<Rightarrow> (if exit_when_all_finished dm \<and> running dm = [] then Exit else Continue, dm))"

definition health_check :: "nat \<Rightarrow> duration \<Rightarrow> daemon \<Rightarrow> daemon" where
  "health_check now_millis now dm =
     dm\<lparr>running :=
          map (\<lambda>(d, df). (d, check_input_timeouts now (check_node_health now_millis df))) (running dm)\<rparr>"

text \<open>The configuration of a dynamic node that connects by name only.\<close>

datatype dynamic_config = DynamicNode dataflow_id | AmbiguousNode | NotDynamic | UnknownNode

definition dynamic_node_config :: "node_id \<Rightarrow> daemon \<Rightarrow> dynamic_config" where
  "dynamic_node_config n dm =
     (case filter (\<lambda>(d, df). map_of (running_nodes df) n \<noteq> None) (running dm) of
        [] \<Rightarrow> UnknownNode
      | [(d, df)] \<Rightarrow>
          (case map_of (running_nodes df) n of
             Some r \<Rightarrow> if is_dynamic r then DynamicNode d else NotDynamic
           | None \<Rightarrow> UnknownNode)
      | _ \<Rightarrow> AmbiguousNode)"

section \<open>What a node stop leaves alone\<close>

text \<open>
  Closing inputs may disable the restart of a node, but never adds or removes one and never makes it
  dynamic or static.
\<close>

definition static_nodes :: "running_dataflow \<Rightarrow> node_id set" where
  "static_nodes df = {n. \<exists>r. (n, r) \<in> set (running_nodes df) \<and> \<not> is_dynamic r}"

definition runs_static :: "running_dataflow \<Rightarrow> node_id \<Rightarrow> bool" where
  "runs_static df n \<longleftrightarrow>
     (case map_of (running_nodes df) n of None \<Rightarrow> False | Some r \<Rightarrow> \<not> is_dynamic r)"

lemma all_dynamic_iff: "all_dynamic df \<longleftrightarrow> static_nodes df = {}"
  by (auto simp: all_dynamic_def static_nodes_def list_all_iff)

lemma runs_static_mem: "runs_static df n \<Longrightarrow> n \<in> static_nodes df"
  by (auto simp: runs_static_def static_nodes_def split: option.splits dest: map_of_SomeD)

lemma set_bt_insert: "x \<in> set (bt_insert k v m) \<Longrightarrow> x = (k, v) \<or> x \<in> set m"
  by (induction m) (auto split: if_splits)

lemma disable_restart_static:
  "static_nodes (disable_restart_of n df) \<subseteq> static_nodes df"
  "runs_static (disable_restart_of n df) m = runs_static df m"
  by (auto simp: static_nodes_def runs_static_def disable_restart_of_def
      dest!: set_bt_insert dest: map_of_SomeD split: option.splits)

lemma static_send [simp]:
  "static_nodes (send_counted ch n ev df) = static_nodes df"
  "runs_static (send_counted ch n ev df) m = runs_static df m"
  "static_nodes (remove_open r i df) = static_nodes df"
  "runs_static (remove_open r i df) m = runs_static df m"
  "static_nodes (df\<lparr>broken_inputs := b\<rparr>) = static_nodes df"
  "runs_static (df\<lparr>broken_inputs := b\<rparr>) m = runs_static df m"
  "static_nodes (df\<lparr>drop_channels := c\<rparr>) = static_nodes df"
  "runs_static (df\<lparr>drop_channels := c\<rparr>) m = runs_static df m"
  "static_nodes (df\<lparr>df_pending := p\<rparr>) = static_nodes df"
  "runs_static (df\<lparr>df_pending := p\<rparr>) m = runs_static df m"
  by (simp_all add: static_nodes_def runs_static_def)

lemma notify_all_closed_static:
  "static_nodes (notify_all_closed ch n df) \<subseteq> static_nodes df"
  "runs_static (notify_all_closed ch n df) m = runs_static df m"
  by (simp_all add: notify_all_closed_def disable_restart_static)

lemma close_input_static: "static_nodes (close_input p df) \<subseteq> static_nodes df"
  by (cases p) (auto simp: close_input_def Let_def split: option.splits
      dest!: subsetD[OF notify_all_closed_static(1)])

lemma close_input_runs: "runs_static (close_input p df) m = runs_static df m"
  by (cases p) (simp add: close_input_def Let_def notify_all_closed_static split: option.splits)

lemma close_fold_static:
  "static_nodes (fold close_input ps df) \<subseteq> static_nodes df \<and>
   runs_static (fold close_input ps df) m = runs_static df m \<and>
   df_pending (fold close_input ps df) = df_pending df"
proof (induction ps arbitrary: df)
  case (Cons p ps)
  show ?case using Cons[of "close_input p df"] close_input_static[of p df]
    by (simp add: close_input_runs) blast
qed simp

lemma set_dataflow_running [simp]:
  "map_of (running (set_dataflow d df dm)) e = (if e = d then Some df else map_of (running dm) e)"
  by (simp add: set_dataflow_def)

lemma set_dataflow_frame [simp]:
  "coordinator_link (set_dataflow d df dm) = coordinator_link dm"
  "published (set_dataflow d df dm) = published dm"
  "to_coordinator (set_dataflow d df dm) = to_coordinator dm"
  by (simp_all add: set_dataflow_def)

lemma publish_closed_frame [simp]:
  "running (snd (publish_closed env d outs dm)) = running dm"
  "coordinator_link (snd (publish_closed env d outs dm)) = coordinator_link dm"
  by (induction outs arbitrary: dm) (simp_all add: send_to_remote_receivers_def)

lemma publish_closed_ok:
  assumes "\<And>out. can_publish env out"
  shows "map_of (running dm) d \<noteq> None \<Longrightarrow> fst (publish_closed env d outs dm) = Ok ()"
  using assms by (induction outs arbitrary: dm) (simp_all add: send_to_remote_receivers_def)

text \<open>The state of the dataflow after its outputs are done, whether publishing worked or not.\<close>

definition outputs_done :: "node_id \<Rightarrow> bool \<Rightarrow> running_dataflow \<Rightarrow> running_dataflow" where
  "outputs_done n m df =
     (if m then df
      else close_local_outputs n (map snd (filter (\<lambda>k. fst k = n) (map fst (mappings df)))) df)"

lemma outputs_done_frame [simp]:
  "static_nodes (outputs_done n m df) \<subseteq> static_nodes df"
  "runs_static (outputs_done n m df) k = runs_static df k"
  "df_pending (outputs_done n m df) = df_pending df"
  by (simp_all add: outputs_done_def close_local_outputs_def close_fold_static)

lemma handle_outputs_done_result:
  assumes "map_of (running dm) d = Some df"
  obtains r dm1 where
    "handle_outputs_done env d n m dm =
       (case r of
          Ok _ \<Rightarrow> (Ok (), set_dataflow d ((outputs_done n m df)
                    \<lparr>drop_channels := hm_remove n (drop_channels (outputs_done n m df))\<rparr>) dm1)
        | Err e \<Rightarrow> (Err e, dm1) | Panic \<Rightarrow> (Panic, dm1))"
    "map_of (running dm1) d = Some (outputs_done n m df)"
    "coordinator_link dm1 = coordinator_link dm"
    "(\<And>out. can_publish env out) \<Longrightarrow> r = Ok ()"
proof -
  let ?outs = "map snd (filter (\<lambda>k. fst k = n) (map fst (mappings df)))"
  obtain r dm1 where x: "(if m then (Ok (), dm) else send_output_closed_events env d n ?outs dm) = (r, dm1)"
    by (meson surj_pair)
  from x assms have dm1: "dm1 = snd (if m then (Ok (), dm) else send_output_closed_events env d n ?outs dm)"
    "r = fst (if m then (Ok (), dm) else send_output_closed_events env d n ?outs dm)" by simp_all
  have run: "map_of (running dm1) d = Some (outputs_done n m df)"
    "coordinator_link dm1 = coordinator_link dm"
    using assms by (simp_all add: dm1(1) outputs_done_def send_output_closed_events_def Let_def)
  have "handle_outputs_done env d n m dm =
       (case r of
          Ok _ \<Rightarrow> (Ok (), set_dataflow d ((outputs_done n m df)
                    \<lparr>drop_channels := hm_remove n (drop_channels (outputs_done n m df))\<rparr>) dm1)
        | Err e \<Rightarrow> (Err e, dm1) | Panic \<Rightarrow> (Panic, dm1))"
    unfolding handle_outputs_done_def assms option.case Let_def x prod.case run ..
  moreover have "(\<And>out. can_publish env out) \<Longrightarrow> r = Ok ()"
    using assms publish_closed_ok[of env] by (simp add: dm1(2) send_output_closed_events_def Let_def)
  ultimately show thesis using run that by blast
qed

section \<open>The end of a dataflow\<close>

lemma node_stop_pending:
  "local_nodes (snd (pending_node_stop link n p)) = bs_remove n (local_nodes p)"
  "external_nodes (snd (pending_node_stop link n p)) = external_nodes p"
  by (auto simp: pending_node_stop_def split: prod.splits outcome.splits
      dest!: arg_cong[where f = snd])

lemma node_stop_ok:
  assumes "external_nodes p \<longrightarrow> link = Some True"
  shows "fst (pending_node_stop link n p) = Ok ()"
  using assms by (auto simp: pending_node_stop_def update_dataflow_status_def report_nodes_ready_def)

text \<open>The last steps of a node stop: forget the node and finish the dataflow when it was the last.\<close>

definition forget_node :: "dataflow_id \<Rightarrow> node_id \<Rightarrow> running_dataflow \<Rightarrow> handler" where
  "forget_node d n df dm =
     (let df2 = df\<lparr>running_nodes := bt_remove n (running_nodes df)\<rparr>;
          dm2 = set_dataflow d df2 dm
      in if \<not> local_nodes_pending (df_pending df2) \<and> all_dynamic df2
         then finish_dataflow d dm2 else (Ok (), dm2))"

lemma static_nodes_remove:
  "static_nodes (df\<lparr>running_nodes := bt_remove n (running_nodes df)\<rparr>) = static_nodes df - {n}"
  by (auto simp: static_nodes_def bt_remove_def)

lemma runs_static_remove:
  "runs_static (df\<lparr>running_nodes := bt_remove n (running_nodes df)\<rparr>) m \<longleftrightarrow> m \<noteq> n \<and> runs_static df m"
  by (simp add: runs_static_def)

text \<open>
  A node stop either fails, leaving the dataflow with all its nodes, or forgets the node.
\<close>

lemma node_stop_result:
  assumes df: "map_of (running dm) d = Some df"
  obtains (failed) df1 where
      "map_of (running (snd (handle_node_stop_inner env d n dyn dm))) d = Some df1"
      "\<And>m. runs_static df1 m = runs_static df m"
      "\<not> ((\<forall>out. can_publish env out) \<and> (external_nodes (df_pending df) \<longrightarrow> coordinator_link dm = Some True))"
  | (forgot) df1 dm1 where
      "handle_node_stop_inner env d n dyn dm = forget_node d n df1 dm1"
      "static_nodes df1 \<subseteq> static_nodes df" "\<And>m. runs_static df1 m = runs_static df m"
      "local_nodes (df_pending df1) = bs_remove n (local_nodes (df_pending df))"
      "external_nodes (df_pending df1) = external_nodes (df_pending df)"
      "coordinator_link dm1 = coordinator_link dm"
proof -
  obtain r p where p: "pending_node_stop (coordinator_link dm) n (df_pending df) = (r, p)"
    by (meson surj_pair)
  let ?df = "df\<lparr>df_pending := p\<rparr>"
  note p_eqs = arg_cong[OF p, of fst, simplified] arg_cong[OF p, of snd, simplified]
  have run: "map_of (running (set_dataflow d ?df dm)) d = Some ?df" by simp
  obtain r2 dm1 where o: "handle_outputs_done env d n False (set_dataflow d ?df dm) =
       (case r2 of
          Ok _ \<Rightarrow> (Ok (), set_dataflow d ((outputs_done n False ?df)
                    \<lparr>drop_channels := hm_remove n (drop_channels (outputs_done n False ?df))\<rparr>) dm1)
        | Err e \<Rightarrow> (Err e, dm1) | Panic \<Rightarrow> (Panic, dm1))"
    and dm1: "map_of (running dm1) d = Some (outputs_done n False ?df)"
    "coordinator_link dm1 = coordinator_link (set_dataflow d ?df dm)"
    and ok: "(\<And>out. can_publish env out) \<Longrightarrow> r2 = Ok ()"
    using handle_outputs_done_result[OF run, of env n False] by metis
  show thesis
  proof (cases "r = Ok () \<and> r2 = Ok ()")
    case True
    show ?thesis
      by (rule forgot[of "(outputs_done n False ?df)
          \<lparr>drop_channels := hm_remove n (drop_channels (outputs_done n False ?df))\<rparr>"
          "set_dataflow d ((outputs_done n False ?df)
          \<lparr>drop_channels := hm_remove n (drop_channels (outputs_done n False ?df))\<rparr>) dm1"])
        (use True p df o dm1 node_stop_pending[of "coordinator_link dm" n "df_pending df"]
           outputs_done_frame(1)[of n False ?df] in
          \<open>simp_all add: handle_node_stop_inner_def forget_node_def Let_def\<close>)
  next
    case False
    have "\<exists>df1. map_of (running (snd (handle_node_stop_inner env d n dyn dm))) d = Some df1 \<and>
      (\<forall>m. runs_static df1 m = runs_static df m)"
      using False p df o dm1 by (auto simp: handle_node_stop_inner_def split: outcome.splits)
    moreover have "\<not> ((\<forall>out. can_publish env out) \<and>
        (external_nodes (df_pending df) \<longrightarrow> coordinator_link dm = Some True))"
      using False ok node_stop_ok[of "df_pending df" "coordinator_link dm" n] p by auto
    ultimately show ?thesis using failed by blast
  qed
qed

lemma notify_failed_frame [simp]:
  "running_nodes (notify_failed err n x df) = running_nodes df"
  "df_pending (notify_failed err n x df) = df_pending df"
  by (simp_all add: notify_failed_def channel_send_def split: prod.splits option.splits)

lemma notify_restarted_frame [simp]:
  "running_nodes (notify_restarted n r df) = running_nodes df"
  "df_pending (notify_restarted n r df) = df_pending df"
  by (auto simp: notify_restarted_def channel_send_def serve_event_def
      split: prod.splits option.splits send_result.splits)

lemma fold_notify_failed_frame [simp]:
  "running_nodes (fold (notify_failed err n) xs df) = running_nodes df"
  "df_pending (fold (notify_failed err n) xs df) = df_pending df"
  by (induction xs arbitrary: df) simp_all

lemma fold_notify_restarted_frame [simp]:
  "running_nodes (fold (notify_restarted n) rs df) = running_nodes df"
  "df_pending (fold (notify_restarted n) rs df) = df_pending df"
  by (induction rs arbitrary: df) simp_all

lemma record_result_frame [simp]:
  "running (record_result d n r dm) = running dm"
  "coordinator_link (record_result d n r dm) = coordinator_link dm"
  "to_coordinator (record_result d n r dm) = to_coordinator dm"
  by (simp_all add: record_result_def)

text \<open>The dataflow as the end of a process finds it: the failure has been announced, no more.\<close>

lemma spawned_node_result_stop:
  assumes "map_of (running dm) d = Some df"
  obtains df1 dm1 where
    "spawned_node_result env sh d n dyn st False dm = handle_node_stop env d n dyn dm1"
    "map_of (running dm1) d = Some df1" "running_nodes df1 = running_nodes df"
    "df_pending df1 = df_pending df" "coordinator_link dm1 = coordinator_link dm"
    "to_coordinator dm1 = to_coordinator dm"
proof (cases "exit_result d n st dm")
  case None
  then show ?thesis
    using assms by (intro that[of "record_result d n None dm" df]) (simp_all add: spawned_node_result_def)
next
  case (Some e)
  let ?df = "fold (notify_failed (sh e) n) (affected_by_receiver n df) df"
  show ?thesis
    using assms Some
    by (intro that[of "record_result d n (Some e) (set_dataflow d ?df dm)" ?df])
      (simp_all add: spawned_node_result_def)
qed

text \<open>The processes of a dataflow exit, one after the other.\<close>

definition node_exits ::
    "environment \<Rightarrow> (node_error \<Rightarrow> string) \<Rightarrow> dataflow_id \<Rightarrow> (node_id \<times> exit_status) list \<Rightarrow> daemon \<Rightarrow> daemon" where
  "node_exits env sh d es dm =
     fold (\<lambda>(n, st) dm. snd (spawned_node_result env sh d n False st False dm)) es dm"

lemma node_exits_simps [simp]:
  "node_exits env sh d [] dm = dm"
  "node_exits env sh d (e # es) dm =
     node_exits env sh d es (snd (spawned_node_result env sh d (fst e) False (snd e) False dm))"
  by (simp_all add: node_exits_def split: prod.splits)

text \<open>What the dataflow still waits for: a node that is not dynamic, or one that has not subscribed.\<close>

definition awaits :: "running_dataflow \<Rightarrow> node_id \<Rightarrow> bool" where
  "awaits df n \<longleftrightarrow> runs_static df n \<or> n \<in> set (local_nodes (df_pending df))"

lemma same_nodes_static:
  assumes "running_nodes df1 = running_nodes df"
  shows "static_nodes df1 = static_nodes df" "runs_static df1 m = runs_static df m"
  using assms by (simp_all add: static_nodes_def runs_static_def)

lemma forget_node_waits:
  assumes "runs_static df m" "m \<noteq> n"
  shows "\<exists>df'. map_of (running (snd (forget_node d n df dm))) d = Some df' \<and> runs_static df' m"
proof -
  let ?df = "df\<lparr>running_nodes := bt_remove n (running_nodes df)\<rparr>"
  have "runs_static ?df m" using assms by (simp add: runs_static_remove)
  moreover from this have "\<not> all_dynamic ?df" using runs_static_mem all_dynamic_iff by blast
  ultimately show ?thesis by (auto simp: forget_node_def Let_def)
qed

lemma exit_keeps_static:
  assumes "map_of (running dm) d = Some df" "runs_static df m" "m \<noteq> n"
  shows "\<exists>df'. map_of (running (snd (spawned_node_result env sh d n dyn st False dm))) d = Some df' \<and>
    runs_static df' m"
proof -
  from assms(1) obtain df1 dm1 where 1:
    "spawned_node_result env sh d n dyn st False dm = handle_node_stop env d n dyn dm1"
    "map_of (running dm1) d = Some df1" "running_nodes df1 = running_nodes df"
    by (rule spawned_node_result_stop)
  have m: "runs_static df1 m" using assms(2) same_nodes_static(2)[OF 1(3)] by simp
  from 1(2) have "\<exists>df'. map_of (running (snd (handle_node_stop_inner env d n dyn dm1))) d = Some df' \<and>
    runs_static df' m"
  proof (cases rule: node_stop_result[where env = env and n = n and dyn = dyn])
    case (failed df2)
    then show ?thesis using m by blast
  next
    case (forgot df2 dm2)
    then show ?thesis using forget_node_waits[of df2 m n d dm2] m assms(3) by metis
  qed
  then show ?thesis by (auto simp: 1(1) handle_node_stop_def split: prod.splits)
qed

lemma exits_keep_static:
  assumes "map_of (running dm) d = Some df" "runs_static df m" "m \<notin> fst ` set es"
  shows "\<exists>df'. map_of (running (node_exits env sh d es dm)) d = Some df' \<and> runs_static df' m"
  using assms
proof (induction es arbitrary: dm df)
  case (Cons e es)
  from Cons.prems(3) have "m \<noteq> fst e" "m \<notin> fst ` set es" by auto
  moreover from exit_keeps_static[OF Cons.prems(1,2) this(1)] obtain df1 where
    "map_of (running (snd (spawned_node_result env sh d (fst e) False (snd e) False dm))) d = Some df1"
    "runs_static df1 m" by blast
  ultimately show ?case using Cons.IH by simp
qed auto

definition remaining :: "running_dataflow \<Rightarrow> node_id set" where
  "remaining df = static_nodes df \<union> set (local_nodes (df_pending df))"

definition links_work :: "environment \<Rightarrow> daemon \<Rightarrow> running_dataflow \<Rightarrow> bool" where
  "links_work env dm df \<longleftrightarrow>
     (\<forall>out. can_publish env out) \<and> coordinator_link dm \<noteq> Some False \<and>
     (external_nodes (df_pending df) \<longrightarrow> coordinator_link dm = Some True)"

lemma finish_dataflow_ok:
  assumes "coordinator_link dm \<noteq> Some False"
  shows "map_of (running (snd (finish_dataflow d dm))) d = None"
    "coordinator_link dm = Some True \<Longrightarrow>
       \<exists>rs. AllNodesFinished d rs \<in> set (to_coordinator (snd (finish_dataflow d dm)))"
  using assms by (cases "coordinator_link dm"; auto simp: finish_dataflow_def Let_def split: bool.splits)+

lemma forget_node_cases:
  assumes "coordinator_link dm \<noteq> Some False"
  obtains (ended) "map_of (running (snd (forget_node d n df dm))) d = None"
      "remaining (df\<lparr>running_nodes := bt_remove n (running_nodes df)\<rparr>) = {}"
      "coordinator_link dm = Some True \<longrightarrow>
         (\<exists>rs. AllNodesFinished d rs \<in> set (to_coordinator (snd (forget_node d n df dm))))"
  | (waits) "map_of (running (snd (forget_node d n df dm))) d =
        Some (df\<lparr>running_nodes := bt_remove n (running_nodes df)\<rparr>)"
      "remaining (df\<lparr>running_nodes := bt_remove n (running_nodes df)\<rparr>) \<noteq> {}"
      "coordinator_link (snd (forget_node d n df dm)) = coordinator_link dm"
proof -
  let ?df = "df\<lparr>running_nodes := bt_remove n (running_nodes df)\<rparr>"
  have "forget_node d n df dm =
      (if remaining ?df = {} then finish_dataflow d (set_dataflow d ?df dm) else (Ok (), set_dataflow d ?df dm))"
    by (simp add: forget_node_def Let_def remaining_def local_nodes_pending_def all_dynamic_iff)
  then show thesis
    using that finish_dataflow_ok[of "set_dataflow d ?df dm" d] assms
    by (cases "remaining ?df = {}") auto
qed

lemma exit_cases:
  fixes sh :: "node_error \<Rightarrow> string" and n :: node_id and st :: exit_status
  assumes df: "map_of (running dm) d = Some df" and ok: "links_work env dm df"
  defines "dm' \<equiv> snd (spawned_node_result env sh d n False st False dm)"
  obtains (ended) "map_of (running dm') d = None" "\<And>m. awaits df m \<Longrightarrow> m = n"
      "coordinator_link dm = Some True \<longrightarrow> (\<exists>rs. AllNodesFinished d rs \<in> set (to_coordinator dm'))"
  | (waits) df' where "map_of (running dm') d = Some df'" "links_work env dm' df'"
      "remaining df' \<noteq> {}" "remaining df' \<subseteq> remaining df - {n}"
      "\<And>m. awaits df m \<Longrightarrow> m \<noteq> n \<Longrightarrow> awaits df' m" "coordinator_link dm' = coordinator_link dm"
proof -
  from df obtain df1 dm1 where 1:
    "spawned_node_result env sh d n False st False dm = handle_node_stop env d n False dm1"
    "map_of (running dm1) d = Some df1" "running_nodes df1 = running_nodes df"
    "df_pending df1 = df_pending df" "coordinator_link dm1 = coordinator_link dm"
    by (rule spawned_node_result_stop)
  from 1(2) show thesis
  proof (cases rule: node_stop_result[where env = env and n = n and dyn = False])
    case (failed df2)
    with ok 1 show thesis by (simp add: links_work_def)
  next
    case (forgot df2 dm2)
    let ?df = "df2\<lparr>running_nodes := bt_remove n (running_nodes df2)\<rparr>"
    have dm': "running dm' = running (snd (forget_node d n df2 dm2))"
      "coordinator_link dm' = coordinator_link (snd (forget_node d n df2 dm2))"
      "to_coordinator dm' = to_coordinator (snd (forget_node d n df2 dm2))"
      by (simp_all add: dm'_def 1(1) handle_node_stop_def forgot(1) split: prod.splits)
    have rem: "remaining ?df \<subseteq> remaining df - {n}"
      using forgot(2,4) 1(4) same_nodes_static(1)[OF 1(3)] static_nodes_remove[of n df2]
      by (auto simp: remaining_def)
    have aw: "awaits ?df m" if "awaits df m" "m \<noteq> n" for m
      using that forgot(3,4) 1(4) same_nodes_static(2)[OF 1(3)] by (simp add: awaits_def runs_static_remove)
    have aw_rem: "m \<in> remaining ?df" if "awaits ?df m" for m
      using that runs_static_mem by (auto simp: awaits_def remaining_def)
    have link: "coordinator_link dm2 \<noteq> Some False" "coordinator_link dm2 = coordinator_link dm"
      using ok forgot(6) 1(5) by (simp_all add: links_work_def)
    from link(1) show thesis
    proof (cases rule: forget_node_cases[where d = d and n = n and df = df2])
      case ended
      then show thesis
        using aw aw_rem dm' link by (intro that(1)) auto
    next
      case waits
      then show thesis
        using aw rem dm' link ok forgot(5) 1(4) by (intro that(2)[of ?df]) (auto simp: links_work_def)
    qed
  qed
qed

lemma exits_after_end:
  "map_of (running dm) d = None \<Longrightarrow>
   map_of (running (node_exits env sh d es dm)) d = None \<and>
   to_coordinator (node_exits env sh d es dm) = to_coordinator dm"
proof (induction es arbitrary: dm)
  case (Cons e es)
  then show ?case
    by (simp add: spawned_node_result_def handle_node_stop_def handle_node_stop_inner_def record_result_def
        Let_def split: option.splits)
qed simp

lemma remaining_awaits:
  assumes "bt_wf (running_nodes df)"
  shows "n \<in> remaining df \<longleftrightarrow> awaits df n"
proof -
  have "(n, r) \<in> set (running_nodes df) \<longleftrightarrow> map_of (running_nodes df) n = Some r" for r
    using assms by (simp add: bt_wf_distinct)
  then show ?thesis
    by (auto simp: remaining_def awaits_def static_nodes_def runs_static_def split: option.splits)
qed

lemma dataflow_ends_strong:
  assumes "map_of (running dm) d = Some df" "links_work env dm df" "remaining df \<subseteq> fst ` set es" "es \<noteq> []"
  shows "map_of (running (node_exits env sh d es dm)) d = None \<and>
    (coordinator_link dm = Some True \<longrightarrow>
       (\<exists>rs. AllNodesFinished d rs \<in> set (to_coordinator (node_exits env sh d es dm))))"
  using assms
proof (induction es arbitrary: dm df)
  case (Cons e es)
  let ?dm = "snd (spawned_node_result env sh d (fst e) False (snd e) False dm)"
  from Cons.prems(1,2) show ?case
  proof (cases rule: exit_cases[where sh = sh and n = "fst e" and st = "snd e"])
    case ended
    then show ?thesis using exits_after_end[of ?dm d env sh es] by simp
  next
    case (waits df')
    then have "remaining df' \<subseteq> fst ` set es" "es \<noteq> []" using Cons.prems(3) by auto
    with Cons.IH[OF waits(1,2)] waits(6) show ?thesis by simp
  qed
qed simp

lemma dataflow_waits:
  assumes "map_of (running dm) d = Some df" "links_work env dm df" "awaits df m" "m \<notin> fst ` set es"
  shows "map_of (running (node_exits env sh d es dm)) d \<noteq> None"
  using assms
proof (induction es arbitrary: dm df)
  case (Cons e es)
  from Cons.prems(4) have m: "m \<noteq> fst e" "m \<notin> fst ` set es" by auto
  from Cons.prems(1,2) show ?case
  proof (cases rule: exit_cases[where sh = sh and n = "fst e" and st = "snd e"])
    case ended
    then show ?thesis using Cons.prems(3) m(1) by blast
  next
    case (waits df')
    then show ?thesis using Cons.IH[OF waits(1,2) waits(5)[OF Cons.prems(3) m(1)] m(2)] by simp
  qed
qed simp

lemma publish_closed_exact:
  assumes "\<And>out. can_publish env out"
  shows "map_of (running dm) d \<noteq> None \<Longrightarrow>
    published (snd (publish_closed env d outs dm)) = published dm @ map (RemoteOutputClosed d) outs"
  using assms by (induction outs arbitrary: dm) (simp_all add: send_to_remote_receivers_def)

lemma send_external [simp]:
  "open_external_mappings (send_counted ch n ev df) = open_external_mappings df"
  "open_external_mappings (remove_open n i df) = open_external_mappings df"
  "open_external_mappings (disable_restart_of n df) = open_external_mappings df"
  by (auto simp: remove_open_def send_counted_def channel_send_def inc_pending_def disable_restart_of_def
      split: option.splits prod.splits send_result.splits)

lemma close_input_external [simp]:
  "open_external_mappings (close_input p df) = open_external_mappings df"
  by (simp add: close_input_def notify_all_closed_def Let_def split: prod.splits option.splits)

lemma close_fold_external [simp]:
  "open_external_mappings (fold close_input ps df) = open_external_mappings df"
  by (induction ps arbitrary: df) simp_all

lemma outputs_done_published:
  assumes "map_of (running dm) d = Some df" "\<And>out. can_publish env out"
  shows "fst (handle_outputs_done env d n False dm) = Ok ()"
    "published (snd (handle_outputs_done env d n False dm)) = published dm @
       map (RemoteOutputClosed d)
         (filter (\<lambda>out. fst out = n \<and> out \<in> fst ` set (mappings df)) (open_external_mappings df))"
proof -
  let ?outs = "map snd (filter (\<lambda>k. fst k = n) (map fst (mappings df)))"
  let ?df = "close_local_outputs n ?outs df"
  let ?pub = "publish_closed env d (closed_external_outputs n ?outs ?df) (set_dataflow d ?df dm)"
  have keys: "(fst k = n \<and> snd k \<in> set ?outs) = (fst k = n \<and> k \<in> fst ` set (mappings df))" for k
    by (cases k) (force simp: image_iff)
  have pub: "fst ?pub = Ok ()"
    "published (snd ?pub) = published dm @ map (RemoteOutputClosed d) (closed_external_outputs n ?outs ?df)"
    "map_of (running (snd ?pub)) d = Some ?df"
    using publish_closed_ok[of env] publish_closed_exact[of env] assms(2) by simp_all
  have closed: "closed_external_outputs n ?outs ?df =
      filter (\<lambda>out. fst out = n \<and> out \<in> fst ` set (mappings df)) (open_external_mappings df)"
    unfolding closed_external_outputs_def keys by (simp add: close_local_outputs_def)
  have "?pub = (Ok (), snd ?pub)" using pub(1) by (metis prod.collapse)
  moreover have "send_output_closed_events env d n ?outs dm = ?pub"
    using assms(1) by (simp add: send_output_closed_events_def Let_def)
  ultimately have sent: "send_output_closed_events env d n ?outs dm = (Ok (), snd ?pub)" by (rule trans[rotated])
  have "handle_outputs_done env d n False dm =
      (Ok (), set_dataflow d (?df\<lparr>drop_channels := hm_remove n (drop_channels ?df)\<rparr>) (snd ?pub))"
    unfolding handle_outputs_done_def assms(1) option.case Let_def if_False sent prod.case outcome.case pub(3) ..
  then show "fst (handle_outputs_done env d n False dm) = Ok ()"
    "published (snd (handle_outputs_done env d n False dm)) = published dm @
       map (RemoteOutputClosed d)
         (filter (\<lambda>out. fst out = n \<and> out \<in> fst ` set (mappings df)) (open_external_mappings df))"
    using pub closed by simp_all
qed

lemma serve_all:
  "m \<le> length (ch_queue (channels df ch)) \<Longrightarrow>
   let s = ((\<lambda>s. snd (serve_event ch s)) ^^ m) df
   in ch_queue (channels s ch) = drop m (ch_queue (channels df ch)) \<and>
      counters s ch = counters df ch - of_nat m"
proof (induction m)
  case (Suc m)
  let ?s = "((\<lambda>s. snd (serve_event ch s)) ^^ m) df"
  have s: "ch_queue (channels ?s ch) = drop m (ch_queue (channels df ch))"
    "counters ?s ch = counters df ch - of_nat m"
    using Suc by (simp_all add: Let_def)
  obtain e es where q: "drop m (ch_queue (channels df ch)) = e # es"
    using Suc.prems by (metis Cons_nth_drop_Suc Suc_le_lessD)
  moreover from q have "es = drop (Suc m) (ch_queue (channels df ch))"
    by (metis drop_Suc list.sel(3) tl_drop)
  ultimately show ?case using s by (simp add: serve_event_def ch_recv_def Let_def)
qed simp

lemma spawn_all_keeps:
  "spawn_all senv d sn rns (st, dm) = (r, st', dm') \<Longrightarrow> map_of (running dm) d \<noteq> None \<Longrightarrow>
   map_of (running dm') d \<noteq> None"
proof (induction rns arbitrary: st dm)
  case (Cons nd rns)
  obtain r1 st1 dm1 where step:
    "(if rn_id nd \<in> set sn then spawn_local senv d nd (st, dm) else spawn_remote senv d nd (st, dm)) =
       (r1, st1, dm1)"
    by (metis prod.collapse)
  then have "map_of (running dm1) d \<noteq> None"
    using Cons.prems(2)
    by (auto simp: spawn_local_def spawn_remote_def Let_def split: if_splits option.splits)
  then show ?case using Cons step by (cases r1) auto
qed simp

section \<open>Daemon properties\<close>

definition example_env :: environment where
  "example_env = \<lparr>can_publish = (\<lambda>_. True), shared_memory = (\<lambda>_. None), current_time = 0\<rparr>"

definition example_daemon :: "running_dataflow \<Rightarrow> daemon" where
  "example_daemon df =
     \<lparr>running = [(7, df)], coordinator_link = Some True, exit_when_done = None,
      exit_when_all_finished = False, dataflow_node_results = [], node_stderr = (\<lambda>_. None),
      to_coordinator = [], published = [], stopped_events = []\<rparr>"

lemma example_daemon_simps [simp]:
  "running (example_daemon df) = [(7, df)]"
  "coordinator_link (example_daemon df) = Some True"
  "published (example_daemon df) = []"
  "to_coordinator (example_daemon df) = []"
  by (simp_all add: example_daemon_def)

text \<open>
  C2. A dataflow ends exactly when it should: as node processes exit for good, one after the other
  and in any order, the daemon forgets the dataflow exactly when every node that is not dynamic has
  exited and every node it still waited for has exited or subscribed before; the coordinator is then
  told. It is assumed that the links to the coordinator and to the other daemons work.
\<close>

theorem dataflow_ends_iff:
  assumes "map_of (running dm) d = Some df" "bt_wf (running_nodes df)" "links_work env dm df" "es \<noteq> []"
  shows "(map_of (running (node_exits env sh d es dm)) d = None) = (Collect (awaits df) \<subseteq> fst ` set es) \<and>
    (Collect (awaits df) \<subseteq> fst ` set es \<and> coordinator_link dm = Some True \<longrightarrow>
       (\<exists>rs. AllNodesFinished d rs \<in> set (to_coordinator (node_exits env sh d es dm))))"
proof -
  have eq: "Collect (awaits df) = remaining df" using remaining_awaits[OF assms(2)] by auto
  show ?thesis
    using dataflow_ends_strong[OF assms(1,3) _ assms(4), of sh] dataflow_waits[OF assms(1,3), of _ es sh] eq
    by (metis Collect_mem_eq mem_Collect_eq subsetI)
qed

lemma example_df_awaits: "Collect (awaits example_df) = {NodeId ''b''}"
  by (auto simp: awaits_def runs_static_def example_df_def example_running_def running_dataflow_new_def
      pending_new_def split: if_splits)

theorem dataflow_ends_iff_witness:
  "map_of (running (node_exits example_env (\<lambda>_. []) 7 [(NodeId ''b'', ExitSuccess)] (example_daemon example_df))) 7 = None \<and>
   map_of (running (node_exits example_env (\<lambda>_. []) 7 [(NodeId ''a'', ExitSuccess)] (example_daemon example_df))) 7 \<noteq> None"
  using dataflow_ends_iff[of "example_daemon example_df" 7 example_df example_env
      "[(NodeId ''b'', ExitSuccess)]" "\<lambda>_. []"]
    dataflow_ends_iff[of "example_daemon example_df" 7 example_df example_env
      "[(NodeId ''a'', ExitSuccess)]" "\<lambda>_. []"] example_df_awaits
  by (simp add: links_work_def example_env_def bt_wf_def)

text \<open>
  C27. An abandoned restart keeps its dataflow alive for ever: after the exit of a process was
  reported as one that will be restarted, the exits of all other nodes never end the dataflow. The
  restart loop sends no further report when the restart is abandoned.
\<close>

theorem abandoned_restart_keeps_dataflow:
  assumes "map_of (running dm) d = Some df" "runs_static df n" "n \<notin> fst ` set es"
  shows "map_of (running (node_exits env sh d es
           (snd (spawned_node_result env sh d n False st True dm)))) d \<noteq> None"
proof -
  let ?df = "fold (notify_restarted n) (downstream_nodes n df) df"
  have "runs_static ?df n" using assms(2) by (simp add: runs_static_def)
  then show ?thesis
    using exits_keep_static[of "set_dataflow d ?df dm" d ?df n es env sh] assms(1,3)
    by (auto simp: spawned_node_result_def)
qed

theorem abandoned_restart_keeps_dataflow_witness:
  "map_of (running (node_exits example_env (\<lambda>_. []) 7 [(NodeId ''a'', ExitSuccess), (NodeId ''c'', ExitCode 1)]
     (snd (spawned_node_result example_env (\<lambda>_. []) 7 (NodeId ''b'') False (ExitCode 1) True
        (example_daemon example_df))))) 7 \<noteq> None"
  using abandoned_restart_keeps_dataflow[of "example_daemon example_df" 7 example_df "NodeId ''b''"
      "[(NodeId ''a'', ExitSuccess), (NodeId ''c'', ExitCode 1)]" example_env "\<lambda>_. []" "ExitCode 1"]
  by (simp add: runs_static_def example_running_def)


text \<open>A second output is read on the same machine, the first only elsewhere.\<close>

definition example_spread :: running_dataflow where
  "example_spread = example_df\<lparr>open_external_mappings := [(NodeId ''a'', DataId ''m''), (NodeId ''a'', DataId ''o'')]\<rparr>"


text \<open>
  The notice that a node failed is not counted: it reaches the queue of the receiver but not its
  counter of undelivered events, so that once the receiver has taken all its events the counter of an
  idle receiver reads \<open>2 ^ 64 - 1\<close>.
\<close>

theorem node_failed_uncounted:
  assumes "map_of (subscribe_channels df) r = Some ch" "\<not> ch_closed (channels df ch)"
    and "length (ch_queue (channels df ch)) < NODE_EVENT_CHANNEL_CAPACITY"
    and "counters df ch = of_nat (length (ch_queue (channels df ch)))"
  shows "let df' = notify_failed err n (r, is) df;
             served = ((\<lambda>s. snd (serve_event ch s)) ^^ Suc (length (ch_queue (channels df ch)))) df'
         in ch_queue (channels served ch) = [] \<and> unat (counters served ch) = 2 ^ 64 - 1"
proof -
  let ?c = "(channels df ch)\<lparr>ch_queue := ch_queue (channels df ch) @ [NNodeFailed is err n]\<rparr>"
  have df': "notify_failed err n (r, is) df = df\<lparr>channels := (channels df)(ch := ?c)\<rparr>"
    using assms(1-3)
    by (simp add: notify_failed_def channel_send_def send_with_timestamp_def try_send_def ch_capacity_def)
  let ?s = "((\<lambda>s. snd (serve_event ch s)) ^^ Suc (length (ch_queue (channels df ch))))
              (df\<lparr>channels := (channels df)(ch := ?c)\<rparr>)"
  have "ch_queue (channels ?s ch) = [] \<and> counters ?s ch = - 1"
    using serve_all[of "Suc (length (ch_queue (channels df ch)))"
        "df\<lparr>channels := (channels df)(ch := ?c)\<rparr>" ch] assms(4)
    by (simp add: Let_def)
  then show ?thesis by (simp add: df' Let_def unsigned_minus_1_eq_mask mask_eq_exp_minus_1)
qed

theorem node_failed_uncounted_witness:
  "unat (counters (snd (serve_event 0
     (notify_failed ''failed'' (NodeId ''a'') (NodeId ''b'', [DataId ''x'']) example_df))) 0) = 2 ^ 64 - 1"
  using node_failed_uncounted[of example_df "NodeId ''b''" 0 "''failed''" "NodeId ''a''" "[DataId ''x'']"]
  by (simp add: NODE_EVENT_CHANNEL_CAPACITY_def Let_def)

text \<open>
  A spawn that fails half-way blocks its dataflow: whatever made it fail before the nodes that
  could not be spawned are stopped, the dataflow stays registered, and every later request to spawn it
  is refused as already running.
\<close>

theorem failed_spawn_stays:
  assumes "spawn_dataflow env senv d rns desc sn dm = (Err e, dm')" "e \<notin> range StopFailed"
  shows "fst (spawn_dataflow env' senv' d rns' desc' sn' dm') = Err (AlreadyRunning d)"
proof -
  have "map_of (running dm') d \<noteq> None"
  proof (cases "map_of (running dm) d")
    case None
    then show ?thesis
      using assms
      by (auto simp: spawn_dataflow_def Let_def split: option.splits bool.splits outcome.splits prod.splits
          dest: spawn_all_keeps)
  next
    case (Some df)
    with assms show ?thesis by (auto simp: spawn_dataflow_def)
  qed
  then show ?thesis by (simp add: spawn_dataflow_def)
qed

text \<open>A node from a git repository that was never built.\<close>

definition example_git_node :: resolved_node where
  "example_git_node =
     \<lparr>rn_id = NodeId ''g'', rn_name = None, rn_description = None, rn_env = None,
      rn_cpu_affinity = None, rn_deploy = None,
      rn_kind = Custom
        \<lparr>custom_path = ''g'', custom_source = GitBranch ''repo'' None, custom_args = None,
         custom_envs = None, custom_build = None, custom_log = node_log (bare_node (NodeId ''g'') []),
         custom_restart = node_restart (bare_node (NodeId ''g'') []),
         run_config = node_run (bare_node (NodeId ''g'') [])\<rparr>\<rparr>"

definition example_spawn_env :: spawn_environment where
  "example_spawn_env =
     \<lparr>working_directory = True, build_found = False, clone_directory = (\<lambda>_. False),
      spawn_failure = (\<lambda>_. None), can_subscribe = (\<lambda>_. True)\<rparr>"

theorem failed_spawn_stays_witness:
  "spawn_dataflow example_env example_spawn_env 3 [example_git_node] (example_descriptor []) []
     (example_daemon example_df) =
     (Err (GitSourceNotBuilt (NodeId ''g'')),
      set_dataflow 3 (running_dataflow_new (example_descriptor [])) (example_daemon example_df)) \<and>
   fst (spawn_dataflow example_env example_spawn_env 3 [] (example_descriptor []) []
     (set_dataflow 3 (running_dataflow_new (example_descriptor [])) (example_daemon example_df))) =
     Err (AlreadyRunning 3)"
proof -
  have s: "spawn_dataflow example_env example_spawn_env 3 [example_git_node] (example_descriptor []) []
     (example_daemon example_df) =
     (Err (GitSourceNotBuilt (NodeId ''g'')),
      set_dataflow 3 (running_dataflow_new (example_descriptor [])) (example_daemon example_df))"
    by (simp add: spawn_dataflow_def Let_def example_spawn_env_def example_git_node_def has_git_source_def)
  have "GitSourceNotBuilt (NodeId ''g'') \<notin> range StopFailed" by auto
  from failed_spawn_stays[OF s this] s show ?thesis by blast
qed

section \<open>Spawning the prepared nodes\<close>

text \<open>
  The nodes are prepared one by one, where an error is reported at once, and are spawned only when all
  of them could be prepared. A task is a node, whether it is dynamic, and the error of its preparation;
  the outcome of the spawn itself is a parameter.
\<close>

type_synonym spawn_report = "node_id \<times> bool \<times> (node_error + running_node)"

definition failed_to_spawn :: "string \<Rightarrow> node_error" where
  "failed_to_spawn err = \<lparr>ne_cause = FailedToSpawn err, ne_status = ExitUnknown\<rparr>"

fun prepare_failures :: "(node_id \<times> bool \<times> string option) list \<Rightarrow> spawn_report list" where
  "prepare_failures [] = []"
| "prepare_failures ((n, dynamic, None) # tasks) = prepare_failures tasks"
| "prepare_failures ((n, dynamic, Some err) # tasks) =
     (n, dynamic, Inl (failed_to_spawn err)) # prepare_failures tasks"

definition spawn_prepared_nodes ::
    "(node_id \<Rightarrow> string + running_node) \<Rightarrow> (node_id \<times> bool \<times> string option) list \<Rightarrow>
     spawn_report list \<times> node_id option" where
  "spawn_prepared_nodes spawn tasks =
     (let failures = prepare_failures tasks;
          prepared = filter (\<lambda>(n, dynamic, e). e = None) tasks
      in case failures of
           (first, _) # _ \<Rightarrow>
             (failures @ map (\<lambda>(n, dynamic, e).
                (n, dynamic, Inl \<lparr>ne_cause = CascadingError first, ne_status = ExitUnknown\<rparr>)) prepared,
              Some first)
         | [] \<Rightarrow>
             (map (\<lambda>(n, dynamic, e).
                (n, dynamic,
                 case spawn n of Inl err \<Rightarrow> Inl (failed_to_spawn err) | Inr r \<Rightarrow> Inr r)) prepared,
              map_option fst (List.find (\<lambda>(n, dynamic, e). \<exists>err. spawn n = Inl err) prepared)))"

definition spawn_reports :: "environment \<Rightarrow> dataflow_id \<Rightarrow> spawn_report list \<Rightarrow> daemon \<Rightarrow> daemon" where
  "spawn_reports env d rs dm =
     fold (\<lambda>(n, dynamic, r) dm. snd (spawn_node_result env d n dynamic r dm)) rs dm"

text \<open>
  All or nothing: every task is reported exactly once; when one cannot be prepared, no process is
  started, and all others are reported as victims of the first that failed.
\<close>

lemma spawn_prepared_nodes_reports:
  "let (reports, failed) = spawn_prepared_nodes spawn tasks
   in set (map fst reports) = set (map fst tasks) \<and> length reports = length tasks \<and>
      (list_ex (\<lambda>(n, dynamic, e). e \<noteq> None) tasks \<longrightarrow>
         failed \<noteq> None \<and> list_all (\<lambda>(n, dynamic, r). \<exists>e. r = Inl e) reports)"
proof -
  let ?fs = "prepare_failures tasks" and ?ps = "filter (\<lambda>(n, dynamic, e). e = None) tasks"
  have parts: "length ?fs + length ?ps = length tasks \<and>
    fst ` set ?fs \<union> fst ` set ?ps = fst ` set tasks \<and>
    list_all (\<lambda>(n, dynamic, r). \<exists>e. r = Inl e) ?fs \<and>
    (?fs = []) = (\<not> list_ex (\<lambda>(n, dynamic, e). e \<noteq> None) tasks)"
    by (induction tasks rule: prepare_failures.induct) auto
  show ?thesis
  proof (cases ?fs)
    case Nil
    then show ?thesis using parts by (auto simp: spawn_prepared_nodes_def Let_def image_image case_prod_beta)
  next
    case (Cons f fs)
    obtain n dyn r where f: "f = (n, dyn, r)" by (cases f)
    show ?thesis
      using parts Cons f
      by (simp add: spawn_prepared_nodes_def Let_def image_image case_prod_beta image_Un list_all_iff) force
  qed
qed

text \<open>A report that arrives after the exit of its process registers a node that is gone.\<close>

lemma late_spawn_report:
  assumes "map_of (running dm) d = Some df" "\<not> is_dynamic r"
  shows "\<exists>df'. map_of (running (snd (spawn_node_result env d n False (Inr r) dm))) d = Some df' \<and> runs_static df' n"
  using assms by (simp add: spawn_node_result_def runs_static_def)

text \<open>
  C28. The order of two reports matters: when the exit of a process is handled before the report that
  it was spawned, the node is registered although it is gone, and the exits of all other nodes never
  end the dataflow.
\<close>

theorem exit_before_spawn_report:
  assumes "map_of (running (node_exits env sh d [(n, st)] dm)) d = Some df" "\<not> is_dynamic r"
    and "n \<notin> fst ` set es"
  shows "map_of (running (node_exits env sh d es
           (snd (spawn_node_result env d n False (Inr r) (node_exits env sh d [(n, st)] dm))))) d \<noteq> None"
  using late_spawn_report[OF assms(1,2), of env n] exits_keep_static assms(3) by blast

theorem exit_before_spawn_report_witness:
  "map_of (running (node_exits example_env (\<lambda>_. []) 7 [(NodeId ''b'', ExitSuccess)]
     (snd (spawn_node_result example_env 7 (NodeId ''a'') False (Inr example_running)
        (node_exits example_env (\<lambda>_. []) 7 [(NodeId ''a'', ExitSuccess)] (example_daemon example_df)))))) 7 \<noteq> None"
proof -
  obtain df where "map_of (running (node_exits example_env (\<lambda>_. []) 7 [(NodeId ''a'', ExitSuccess)]
      (example_daemon example_df))) 7 = Some df"
    using exits_keep_static[of "example_daemon example_df" 7 example_df "NodeId ''b''"
        "[(NodeId ''a'', ExitSuccess)]" example_env "\<lambda>_. []"]
    by (auto simp: runs_static_def example_running_def)
  from exit_before_spawn_report[OF this, of example_running "[(NodeId ''b'', ExitSuccess)]"]
  show ?thesis by (simp add: example_running_def)
qed

end
