(* ===== verification/Coordinator_Store.thy ===== *)
theory Coordinator_Store
  imports Ids "HOL-Library.Product_Lexorder" "HOL-Library.Option_ord" "HOL-Library.RBT"
begin

text \<open>
  The store of the coordinator (\<^verbatim>\<open>libraries/coordinator-store\<close>): the trait
  \<^verbatim>\<open>CoordinatorStore\<close> with its two implementations, one in memory and one over the embedded
  database redb. An operation that writes returns its result and the new store.

  A store in memory is four ordered maps. Its locks are never poisoned, since nothing panics while
  one is held. The database is a parameter: a table is given by the operations of the record
  \<open>table\<close>, whose documented behaviour is the locale \<open>key_table\<close> (entries iterate in the order of
  their keys), the flag \<open>io\<close> says whether the transaction of a call succeeds, and a failed transaction
  changes nothing. The encoding of records by bincode and the textual and binary forms of a UUID are
  parameters too. Keys and values of the database are strings of bytes.
\<close>

section \<open>Records\<close>

type_synonym uuid = nat

type_synonym daemon_id = "string option \<times> uuid"

definition matches_machine_id :: "daemon_id \<Rightarrow> string \<Rightarrow> bool" where
  "matches_machine_id d m = (case fst d of None \<Rightarrow> False | Some i \<Rightarrow> i = m)"

record daemon_info =
  di_daemon_id :: daemon_id
  di_machine_id :: "string option"
  di_labels :: "(string \<times> string) list"

datatype stored_status =
    StPending | StRunning | StRecovering | StStopping | StSucceeded | StFailed string

record dataflow_record =
  dr_uuid :: uuid
  dr_name :: "string option"
  dr_descriptor_json :: string
  dr_status :: stored_status
  dr_daemon_ids :: "daemon_id list"
  dr_node_to_daemon :: "(string \<times> string) list"
  dr_uv :: bool
  dr_generation :: nat
  dr_created_at :: nat
  dr_updated_at :: nat

datatype build_status = BuildPending | BuildSucceeded | BuildFailed

record build_record =
  br_build_id :: uuid
  br_status :: build_status
  br_errors :: "string list"
  br_created_at :: nat
  br_updated_at :: nat

datatype store_error =
    ParamKeyTooLong
  | ParamValueTooLarge
  | NulInNodeId
  | NulInParamKey
  | DatabaseFailed
  | EncodeFailed
  | DecodeFailed
  | SchemaMismatch nat

definition MAX_PARAM_KEY_BYTES :: nat where
  "MAX_PARAM_KEY_BYTES = 256"

definition MAX_PARAM_VALUE_BYTES :: nat where
  "MAX_PARAM_VALUE_BYTES = 65536"

definition validate_param_limits :: "string \<Rightarrow> string \<Rightarrow> (store_error, unit) outcome" where
  "validate_param_limits key val =
     (if length key > MAX_PARAM_KEY_BYTES then Err ParamKeyTooLong
      else if length val > MAX_PARAM_VALUE_BYTES then Err ParamValueTooLarge
      else Ok ())"

section \<open>The store in memory\<close>

type_synonym param_key = "uuid \<times> node_id \<times> string"

record in_memory_store =
  mem_daemons :: "(daemon_id \<times> daemon_info) list"
  mem_dataflows :: "(uuid \<times> dataflow_record) list"
  mem_builds :: "(uuid \<times> build_record) list"
  mem_params :: "(param_key \<times> string) list"

definition in_memory_new :: in_memory_store where
  "in_memory_new = \<lparr>mem_daemons = [], mem_dataflows = [], mem_builds = [], mem_params = []\<rparr>"

definition mem_register_daemon :: "daemon_info \<Rightarrow> in_memory_store \<Rightarrow> in_memory_store" where
  "mem_register_daemon info s = s\<lparr>mem_daemons := bt_insert (di_daemon_id info) info (mem_daemons s)\<rparr>"

definition mem_unregister_daemon :: "daemon_id \<Rightarrow> in_memory_store \<Rightarrow> in_memory_store" where
  "mem_unregister_daemon i s = s\<lparr>mem_daemons := bt_remove i (mem_daemons s)\<rparr>"

definition mem_list_daemons :: "in_memory_store \<Rightarrow> daemon_info list" where
  "mem_list_daemons s = map snd (mem_daemons s)"

definition mem_get_daemon :: "daemon_id \<Rightarrow> in_memory_store \<Rightarrow> daemon_info option" where
  "mem_get_daemon i s = map_of (mem_daemons s) i"

definition mem_get_daemon_by_machine :: "string \<Rightarrow> in_memory_store \<Rightarrow> daemon_id option" where
  "mem_get_daemon_by_machine m s =
     List.find (\<lambda>i. matches_machine_id i m) (map fst (mem_daemons s))"

definition mem_put_dataflow :: "dataflow_record \<Rightarrow> in_memory_store \<Rightarrow> in_memory_store" where
  "mem_put_dataflow r s = s\<lparr>mem_dataflows := bt_insert (dr_uuid r) r (mem_dataflows s)\<rparr>"

definition mem_get_dataflow :: "uuid \<Rightarrow> in_memory_store \<Rightarrow> dataflow_record option" where
  "mem_get_dataflow u s = map_of (mem_dataflows s) u"

definition mem_list_dataflows :: "in_memory_store \<Rightarrow> dataflow_record list" where
  "mem_list_dataflows s = map snd (mem_dataflows s)"

definition mem_delete_dataflow :: "uuid \<Rightarrow> in_memory_store \<Rightarrow> in_memory_store" where
  "mem_delete_dataflow u s = s\<lparr>mem_dataflows := bt_remove u (mem_dataflows s)\<rparr>"

definition mem_put_build :: "build_record \<Rightarrow> in_memory_store \<Rightarrow> in_memory_store" where
  "mem_put_build r s = s\<lparr>mem_builds := bt_insert (br_build_id r) r (mem_builds s)\<rparr>"

definition mem_get_build :: "uuid \<Rightarrow> in_memory_store \<Rightarrow> build_record option" where
  "mem_get_build u s = map_of (mem_builds s) u"

definition mem_list_builds :: "in_memory_store \<Rightarrow> build_record list" where
  "mem_list_builds s = map snd (mem_builds s)"

definition mem_delete_build :: "uuid \<Rightarrow> in_memory_store \<Rightarrow> in_memory_store" where
  "mem_delete_build u s = s\<lparr>mem_builds := bt_remove u (mem_builds s)\<rparr>"

definition mem_put_node_param ::
    "uuid \<Rightarrow> node_id \<Rightarrow> string \<Rightarrow> string \<Rightarrow> in_memory_store \<Rightarrow>
     (store_error, unit) outcome \<times> in_memory_store" where
  "mem_put_node_param d n key val s =
     (case validate_param_limits key val of
        Ok _ \<Rightarrow> (Ok (), s\<lparr>mem_params := bt_insert (d, n, key) val (mem_params s)\<rparr>)
      | Err e \<Rightarrow> (Err e, s)
      | Panic \<Rightarrow> (Panic, s))"

definition mem_get_node_param :: "uuid \<Rightarrow> node_id \<Rightarrow> string \<Rightarrow> in_memory_store \<Rightarrow> string option" where
  "mem_get_node_param d n key s = map_of (mem_params s) (d, n, key)"

text \<open>A range scan from the least key of the node, as long as the node matches.\<close>

definition mem_list_node_params :: "uuid \<Rightarrow> node_id \<Rightarrow> in_memory_store \<Rightarrow> (string \<times> string) list" where
  "mem_list_node_params d n s =
     map (\<lambda>((df, nid, key), val). (key, val))
       (takeWhile (\<lambda>((df, nid, key), val). df = d \<and> nid = n)
          (dropWhile (\<lambda>(k, val). k < (d, n, [])) (mem_params s)))"

definition mem_delete_node_param ::
    "uuid \<Rightarrow> node_id \<Rightarrow> string \<Rightarrow> in_memory_store \<Rightarrow> in_memory_store" where
  "mem_delete_node_param d n key s = s\<lparr>mem_params := bt_remove (d, n, key) (mem_params s)\<rparr>"

section \<open>The store in the database\<close>

record 't table =
  tbl_insert :: "string \<Rightarrow> string \<Rightarrow> 't \<Rightarrow> 't"
  tbl_remove :: "string \<Rightarrow> 't \<Rightarrow> 't"
  tbl_get :: "string \<Rightarrow> 't \<Rightarrow> string option"
  tbl_range :: "string \<Rightarrow> 't \<Rightarrow> (string \<times> string) list"

record 'a codec =
  enc :: "'a \<Rightarrow> string option"
  dec :: "string \<Rightarrow> 'a option"

record uuid_format =
  as_bytes :: "uuid \<Rightarrow> string"
  uuid_text :: "uuid \<Rightarrow> string"

record 't redb_store =
  db_schema :: "nat option"
  db_daemons :: 't
  db_dataflows :: 't
  db_builds :: 't
  db_params :: 't

definition SCHEMA_VERSION :: nat where
  "SCHEMA_VERSION = 2"

definition redb_open :: "bool \<Rightarrow> 't redb_store \<Rightarrow> (store_error, 't redb_store) outcome" where
  "redb_open io f =
     (if \<not> io then Err DatabaseFailed
      else case db_schema f of
             Some v \<Rightarrow> if v \<noteq> SCHEMA_VERSION then Err (SchemaMismatch v) else Ok f
           | None \<Rightarrow> Ok (f\<lparr>db_schema := Some SCHEMA_VERSION\<rparr>))"

definition store_encode :: "'a codec \<Rightarrow> 'a \<Rightarrow> (store_error, string) outcome" where
  "store_encode c x = ok_or EncodeFailed (enc c x)"

definition store_decode :: "'a codec \<Rightarrow> string \<Rightarrow> (store_error, 'a) outcome" where
  "store_decode c b = ok_or DecodeFailed (dec c b)"

text \<open>Every operation runs in a transaction of its own.\<close>

definition transaction ::
    "bool \<Rightarrow> ('t redb_store \<Rightarrow> 't redb_store) \<Rightarrow> 't redb_store \<Rightarrow> (store_error, unit) outcome \<times> 't redb_store" where
  "transaction io f s = (if io then (Ok (), f s) else (Err DatabaseFailed, s))"

definition redb_read :: "bool \<Rightarrow> ('e, 'a) outcome \<Rightarrow> 'e \<Rightarrow> ('e, 'a) outcome" where
  "redb_read io r e = (if io then r else Err e)"

definition list_table :: "'t table \<Rightarrow> 'a codec \<Rightarrow> 't \<Rightarrow> (store_error, 'a list) outcome" where
  "list_table T c t = try_map (\<lambda>(k, b). store_decode c b) (tbl_range T [] t)"

definition get_table :: "'t table \<Rightarrow> 'a codec \<Rightarrow> string \<Rightarrow> 't \<Rightarrow> (store_error, 'a option) outcome" where
  "get_table T c key t =
     (case tbl_get T key t of
        None \<Rightarrow> Ok None
      | Some b \<Rightarrow> and_then (store_decode c b) (\<lambda>x. Ok (Some x)))"

definition redb_register_daemon ::
    "bool \<Rightarrow> 't table \<Rightarrow> daemon_id codec \<Rightarrow> daemon_info codec \<Rightarrow> daemon_info \<Rightarrow> 't redb_store \<Rightarrow>
     (store_error, unit) outcome \<times> 't redb_store" where
  "redb_register_daemon io T ic c info s =
     (case and_then (store_encode ic (di_daemon_id info)) (\<lambda>key.
           and_then (store_encode c info) (\<lambda>val. Ok (key, val))) of
        Ok (key, val) \<Rightarrow> transaction io (\<lambda>s. s\<lparr>db_daemons := tbl_insert T key val (db_daemons s)\<rparr>) s
      | Err e \<Rightarrow> (Err e, s)
      | Panic \<Rightarrow> (Panic, s))"

definition redb_unregister_daemon ::
    "bool \<Rightarrow> 't table \<Rightarrow> daemon_id codec \<Rightarrow> daemon_id \<Rightarrow> 't redb_store \<Rightarrow>
     (store_error, unit) outcome \<times> 't redb_store" where
  "redb_unregister_daemon io T ic i s =
     (case store_encode ic i of
        Ok key \<Rightarrow> transaction io (\<lambda>s. s\<lparr>db_daemons := tbl_remove T key (db_daemons s)\<rparr>) s
      | Err e \<Rightarrow> (Err e, s)
      | Panic \<Rightarrow> (Panic, s))"

definition redb_list_daemons ::
    "bool \<Rightarrow> 't table \<Rightarrow> daemon_info codec \<Rightarrow> 't redb_store \<Rightarrow> (store_error, daemon_info list) outcome" where
  "redb_list_daemons io T c s = redb_read io (list_table T c (db_daemons s)) DatabaseFailed"

definition redb_get_daemon ::
    "bool \<Rightarrow> 't table \<Rightarrow> daemon_id codec \<Rightarrow> daemon_info codec \<Rightarrow> daemon_id \<Rightarrow> 't redb_store \<Rightarrow>
     (store_error, daemon_info option) outcome" where
  "redb_get_daemon io T ic c i s =
     and_then (store_encode ic i) (\<lambda>key. redb_read io (get_table T c key (db_daemons s)) DatabaseFailed)"

definition redb_get_daemon_by_machine ::
    "bool \<Rightarrow> 't table \<Rightarrow> daemon_info codec \<Rightarrow> string \<Rightarrow> 't redb_store \<Rightarrow>
     (store_error, daemon_id option) outcome" where
  "redb_get_daemon_by_machine io T c m s =
     and_then (redb_list_daemons io T c s) (\<lambda>ds.
       Ok (map_option di_daemon_id (List.find (\<lambda>info. matches_machine_id (di_daemon_id info) m) ds)))"

definition redb_put_dataflow ::
    "bool \<Rightarrow> 't table \<Rightarrow> uuid_format \<Rightarrow> dataflow_record codec \<Rightarrow> dataflow_record \<Rightarrow> 't redb_store \<Rightarrow>
     (store_error, unit) outcome \<times> 't redb_store" where
  "redb_put_dataflow io T U c r s =
     (case store_encode c r of
        Ok val \<Rightarrow>
          transaction io (\<lambda>s. s\<lparr>db_dataflows := tbl_insert T (as_bytes U (dr_uuid r)) val (db_dataflows s)\<rparr>) s
      | Err e \<Rightarrow> (Err e, s)
      | Panic \<Rightarrow> (Panic, s))"

definition redb_get_dataflow ::
    "bool \<Rightarrow> 't table \<Rightarrow> uuid_format \<Rightarrow> dataflow_record codec \<Rightarrow> uuid \<Rightarrow> 't redb_store \<Rightarrow>
     (store_error, dataflow_record option) outcome" where
  "redb_get_dataflow io T U c u s = redb_read io (get_table T c (as_bytes U u) (db_dataflows s)) DatabaseFailed"

definition redb_list_dataflows ::
    "bool \<Rightarrow> 't table \<Rightarrow> dataflow_record codec \<Rightarrow> 't redb_store \<Rightarrow>
     (store_error, dataflow_record list) outcome" where
  "redb_list_dataflows io T c s = redb_read io (list_table T c (db_dataflows s)) DatabaseFailed"

definition redb_delete_dataflow ::
    "bool \<Rightarrow> 't table \<Rightarrow> uuid_format \<Rightarrow> uuid \<Rightarrow> 't redb_store \<Rightarrow>
     (store_error, unit) outcome \<times> 't redb_store" where
  "redb_delete_dataflow io T U u s =
     transaction io (\<lambda>s. s\<lparr>db_dataflows := tbl_remove T (as_bytes U u) (db_dataflows s)\<rparr>) s"

definition redb_put_build ::
    "bool \<Rightarrow> 't table \<Rightarrow> uuid_format \<Rightarrow> build_record codec \<Rightarrow> build_record \<Rightarrow> 't redb_store \<Rightarrow>
     (store_error, unit) outcome \<times> 't redb_store" where
  "redb_put_build io T U c r s =
     (case store_encode c r of
        Ok val \<Rightarrow>
          transaction io (\<lambda>s. s\<lparr>db_builds := tbl_insert T (as_bytes U (br_build_id r)) val (db_builds s)\<rparr>) s
      | Err e \<Rightarrow> (Err e, s)
      | Panic \<Rightarrow> (Panic, s))"

definition redb_get_build ::
    "bool \<Rightarrow> 't table \<Rightarrow> uuid_format \<Rightarrow> build_record codec \<Rightarrow> uuid \<Rightarrow> 't redb_store \<Rightarrow>
     (store_error, build_record option) outcome" where
  "redb_get_build io T U c u s = redb_read io (get_table T c (as_bytes U u) (db_builds s)) DatabaseFailed"

definition redb_list_builds ::
    "bool \<Rightarrow> 't table \<Rightarrow> build_record codec \<Rightarrow> 't redb_store \<Rightarrow> (store_error, build_record list) outcome" where
  "redb_list_builds io T c s = redb_read io (list_table T c (db_builds s)) DatabaseFailed"

definition redb_delete_build ::
    "bool \<Rightarrow> 't table \<Rightarrow> uuid_format \<Rightarrow> uuid \<Rightarrow> 't redb_store \<Rightarrow>
     (store_error, unit) outcome \<times> 't redb_store" where
  "redb_delete_build io T U u s =
     transaction io (\<lambda>s. s\<lparr>db_builds := tbl_remove T (as_bytes U u) (db_builds s)\<rparr>) s"

section \<open>Composite keys\<close>

definition KEY_SEPARATOR :: char where
  "KEY_SEPARATOR = CHR 0x00"

definition check_no_separator :: "string \<Rightarrow> store_error \<Rightarrow> (store_error, unit) outcome" where
  "check_no_separator s e = (if KEY_SEPARATOR \<in> set s then Err e else Ok ())"

definition make_param_key :: "uuid_format \<Rightarrow> uuid \<Rightarrow> node_id \<Rightarrow> string \<Rightarrow> (store_error, string) outcome" where
  "make_param_key U d n key =
     and_then (check_no_separator (node_name n) NulInNodeId) (\<lambda>_.
     and_then (check_no_separator key NulInParamKey) (\<lambda>_.
       Ok (uuid_text U d @ [KEY_SEPARATOR] @ node_name n @ [KEY_SEPARATOR] @ key)))"

definition make_param_prefix :: "uuid_format \<Rightarrow> uuid \<Rightarrow> node_id \<Rightarrow> (store_error, string) outcome" where
  "make_param_prefix U d n =
     and_then (check_no_separator (node_name n) NulInNodeId) (\<lambda>_.
       Ok (uuid_text U d @ [KEY_SEPARATOR] @ node_name n @ [KEY_SEPARATOR]))"

definition redb_put_node_param ::
    "bool \<Rightarrow> 't table \<Rightarrow> uuid_format \<Rightarrow> uuid \<Rightarrow> node_id \<Rightarrow> string \<Rightarrow> string \<Rightarrow> 't redb_store \<Rightarrow>
     (store_error, unit) outcome \<times> 't redb_store" where
  "redb_put_node_param io T U d n key val s =
     (case and_then (validate_param_limits key val) (\<lambda>_. make_param_key U d n key) of
        Ok pk \<Rightarrow> transaction io (\<lambda>s. s\<lparr>db_params := tbl_insert T pk val (db_params s)\<rparr>) s
      | Err e \<Rightarrow> (Err e, s)
      | Panic \<Rightarrow> (Panic, s))"

definition redb_get_node_param ::
    "bool \<Rightarrow> 't table \<Rightarrow> uuid_format \<Rightarrow> uuid \<Rightarrow> node_id \<Rightarrow> string \<Rightarrow> 't redb_store \<Rightarrow>
     (store_error, string option) outcome" where
  "redb_get_node_param io T U d n key s =
     and_then (make_param_key U d n key) (\<lambda>pk.
       redb_read io (Ok (tbl_get T pk (db_params s))) DatabaseFailed)"

fun scan_prefix :: "string \<Rightarrow> (string \<times> string) list \<Rightarrow> (string \<times> string) list" where
  "scan_prefix p [] = []"
| "scan_prefix p ((k, v) # es) =
     (case strip_prefix p k of None \<Rightarrow> [] | Some key \<Rightarrow> (key, v) # scan_prefix p es)"

definition redb_list_node_params ::
    "bool \<Rightarrow> 't table \<Rightarrow> uuid_format \<Rightarrow> uuid \<Rightarrow> node_id \<Rightarrow> 't redb_store \<Rightarrow>
     (store_error, (string \<times> string) list) outcome" where
  "redb_list_node_params io T U d n s =
     and_then (make_param_prefix U d n) (\<lambda>p.
       redb_read io (Ok (scan_prefix p (tbl_range T p (db_params s)))) DatabaseFailed)"

definition redb_delete_node_param ::
    "bool \<Rightarrow> 't table \<Rightarrow> uuid_format \<Rightarrow> uuid \<Rightarrow> node_id \<Rightarrow> string \<Rightarrow> 't redb_store \<Rightarrow>
     (store_error, unit) outcome \<times> 't redb_store" where
  "redb_delete_node_param io T U d n key s =
     (case make_param_key U d n key of
        Ok pk \<Rightarrow> transaction io (\<lambda>s. s\<lparr>db_params := tbl_remove T pk (db_params s)\<rparr>) s
      | Err e \<Rightarrow> (Err e, s)
      | Panic \<Rightarrow> (Panic, s))"

section \<open>What a store of parameters promises\<close>

text \<open>
  The abstract store of parameters is a map from the dataflow, the node and the key. A write within
  the limits updates it, one beyond them is refused. The locale states what an implementation
  promises for node ids and keys without NUL: every call returns, and a list of the parameters of a
  node holds them in the order of their keys.
\<close>

type_synonym params = "param_key \<Rightarrow> string option"

datatype param_op =
    PutParam uuid node_id string string
  | DeleteParam uuid node_id string

fun spec_step :: "param_op \<Rightarrow> params \<Rightarrow> params" where
  "spec_step (PutParam d n k v) m = (if is_ok (validate_param_limits k v) then m((d, n, k) \<mapsto> v) else m)"
| "spec_step (DeleteParam d n k) m = m((d, n, k) := None)"

fun spec_result :: "param_op \<Rightarrow> (store_error, unit) outcome" where
  "spec_result (PutParam d n k v) = validate_param_limits k v"
| "spec_result (DeleteParam d n k) = Ok ()"

definition nul_free :: "node_id \<Rightarrow> string \<Rightarrow> bool" where
  "nul_free n k \<longleftrightarrow> KEY_SEPARATOR \<notin> set (node_name n) \<and> KEY_SEPARATOR \<notin> set k"

fun nul_free_op :: "param_op \<Rightarrow> bool" where
  "nul_free_op (PutParam d n k v) = nul_free n k"
| "nul_free_op (DeleteParam d n k) = nul_free n k"

locale param_store =
  fixes step :: "param_op \<Rightarrow> 's \<Rightarrow> (store_error, unit) outcome \<times> 's"
    and get :: "uuid \<Rightarrow> node_id \<Rightarrow> string \<Rightarrow> 's \<Rightarrow> (store_error, string option) outcome"
    and list :: "uuid \<Rightarrow> node_id \<Rightarrow> 's \<Rightarrow> (store_error, (string \<times> string) list) outcome"
    and abs :: "'s \<Rightarrow> params"
    and invar :: "'s \<Rightarrow> bool"
  assumes invar_step: "invar s \<Longrightarrow> nul_free_op op \<Longrightarrow> invar (snd (step op s))"
    and step_result: "invar s \<Longrightarrow> nul_free_op op \<Longrightarrow> fst (step op s) = spec_result op"
    and abs_step: "invar s \<Longrightarrow> nul_free_op op \<Longrightarrow> abs (snd (step op s)) = spec_step op (abs s)"
    and get_abs: "invar s \<Longrightarrow> nul_free n k \<Longrightarrow> get d n k s = Ok (abs s (d, n, k))"
    and list_abs: "invar s \<Longrightarrow> nul_free n [] \<Longrightarrow>
      \<exists>l. list d n s = Ok l \<and> bt_wf l \<and> map_of l = (\<lambda>k. abs s (d, n, k))"
begin

lemma invar_run:
  "invar s \<Longrightarrow> list_all nul_free_op ops \<Longrightarrow> invar (fold (\<lambda>op s. snd (step op s)) ops s)"
  by (induction ops arbitrary: s) (auto simp: invar_step)

lemma abs_run:
  "invar s \<Longrightarrow> list_all nul_free_op ops \<Longrightarrow> abs (fold (\<lambda>op s. snd (step op s)) ops s) = fold spec_step ops (abs s)"
  by (induction ops arbitrary: s) (auto simp: invar_step abs_step)

lemma get_run:
  "invar s \<Longrightarrow> list_all nul_free_op ops \<Longrightarrow> nul_free n k \<Longrightarrow>
   get d n k (fold (\<lambda>op s. snd (step op s)) ops s) = Ok (fold spec_step ops (abs s) (d, n, k))"
  by (simp add: get_abs invar_run abs_run)

lemma list_run_iff:
  assumes "invar s" "list_all nul_free_op ops" "nul_free n []"
  shows "list d n (fold (\<lambda>op s. snd (step op s)) ops s) = Ok l \<longleftrightarrow>
         bt_wf l \<and> map_of l = (\<lambda>k. fold spec_step ops (abs s) (d, n, k))"
proof -
  obtain l' where "list d n (fold (\<lambda>op s. snd (step op s)) ops s) = Ok l'" "bt_wf l'"
      "map_of l' = (\<lambda>k. fold spec_step ops (abs s) (d, n, k))"
    using list_abs[OF invar_run[OF assms(1,2)] assms(3), of d] by (auto simp: abs_run[OF assms(1,2)])
  then show ?thesis using bt_ext[of l l'] by auto
qed

end

section \<open>Range scans\<close>

lemma range_scan:
  assumes "bt_wf m" "\<And>k k'. \<lbrakk>P k; start \<le> k'; k' \<le> k\<rbrakk> \<Longrightarrow> P k'" "\<And>k. P k \<Longrightarrow> start \<le> k"
  shows "takeWhile (\<lambda>e. P (fst e)) (dropWhile (\<lambda>e. fst e < start) m) = filter (\<lambda>e. P (fst e)) m"
  using assms(1)
proof (induction m)
  case (Cons e m)
  then have wf: "bt_wf m" "\<forall>x \<in> set m. fst e < fst x" by (auto simp: bt_wf_def)
  show ?case
  proof (cases "fst e < start")
    case True
    then have "\<not> P (fst e)" using assms(3) by fastforce
    with True Cons.IH[OF wf(1)] show ?thesis by simp
  next
    case False
    then have "dropWhile (\<lambda>e. fst e < start) m = m"
      using wf(2) by (cases m) auto
    moreover have "\<not> P (fst e) \<Longrightarrow> filter (\<lambda>e. P (fst e)) m = []"
      using assms(2) False wf(2) by (fastforce simp: filter_empty_conv)
    ultimately show ?thesis using Cons.IH[OF wf(1)] False by simp
  qed
qed simp

lemma prefix_between:
  fixes p :: string
  assumes "p \<le> k'" "k' \<le> p @ t"
  shows "starts_with p k'"
  using assms
proof (induction p arbitrary: k')
  case (Cons c p)
  then show ?case by (cases k') (auto simp: starts_with_iff)
qed (simp add: starts_with_def)

lemma prefix_le: "(p :: string) \<le> p @ t"
  by (induction p) auto

lemma append_le: "(p :: string) @ s < p @ t \<longleftrightarrow> s < t"
  by (induction p) auto

section \<open>The store in memory keeps the promise\<close>

fun mem_step :: "param_op \<Rightarrow> in_memory_store \<Rightarrow> (store_error, unit) outcome \<times> in_memory_store" where
  "mem_step (PutParam d n k v) s = mem_put_node_param d n k v s"
| "mem_step (DeleteParam d n k) s = (Ok (), mem_delete_node_param d n k s)"

lemma validate_param_limits_no_panic [simp]: "validate_param_limits k v \<noteq> Panic"
  by (simp add: validate_param_limits_def)

lemma list_node_params_filter:
  assumes "bt_wf (mem_params s)"
  shows "mem_list_node_params d n s =
         map (\<lambda>((df, nid, key), val). (key, val))
           (filter (\<lambda>((df, nid, key), val). df = d \<and> nid = n) (mem_params s))"
proof -
  have "takeWhile (\<lambda>e. (\<lambda>(df, nid, key). df = d \<and> nid = n) (fst e))
          (dropWhile (\<lambda>e. fst e < (d, n, [])) (mem_params s)) =
        filter (\<lambda>e. (\<lambda>(df, nid, key). df = d \<and> nid = n) (fst e)) (mem_params s)"
    by (rule range_scan[OF assms]) (auto simp: less_eq_prod_def)
  then show ?thesis by (simp add: mem_list_node_params_def case_prod_beta')
qed

lemma bt_wf_slice:
  "bt_wf m \<Longrightarrow> bt_wf (map (\<lambda>((df, nid, key), val). (key, val))
     (filter (\<lambda>((df, nid, key), val). df = d \<and> nid = n) m))"
  by (induction m) (auto simp: bt_wf_def less_prod_def')

lemma map_of_slice:
  "map_of (map (\<lambda>((df, nid, key), val). (key, val))
     (filter (\<lambda>((df, nid, key), val). df = d \<and> nid = n) m)) k = map_of m (d, n, k)"
  by (induction m) auto

interpretation mem_ps: param_store mem_step "\<lambda>d n k s. Ok (mem_get_node_param d n k s)"
  "\<lambda>d n s. Ok (mem_list_node_params d n s)" "\<lambda>s. map_of (mem_params s)" "\<lambda>s. bt_wf (mem_params s)"
proof
  fix s :: in_memory_store and op assume inv: "bt_wf (mem_params s)"
  show "bt_wf (mem_params (snd (mem_step op s)))" using inv
    by (cases op) (auto simp: mem_put_node_param_def mem_delete_node_param_def split: outcome.splits)
  show "fst (mem_step op s) = spec_result op"
    by (cases op) (auto simp: mem_put_node_param_def split: outcome.splits)
  show "map_of (mem_params (snd (mem_step op s))) = spec_step op (map_of (mem_params s))"
    by (cases op) (auto simp: mem_put_node_param_def mem_delete_node_param_def split: outcome.splits)
next
  fix s :: in_memory_store and d n assume "bt_wf (mem_params s)"
  then show "\<exists>l. Ok (mem_list_node_params d n s) = Ok l \<and> bt_wf l \<and> map_of l = (\<lambda>k. map_of (mem_params s) (d, n, k))"
    by (auto simp: list_node_params_filter bt_wf_slice map_of_slice)
qed (simp add: mem_get_node_param_def)

section \<open>The store in the database keeps the promise\<close>

locale key_table =
  fixes T :: "'t table" and entries :: "'t \<Rightarrow> (string \<times> string) list"
  assumes entries_wf: "bt_wf (entries t)"
    and entries_insert: "map_of (entries (tbl_insert T k v t)) = (map_of (entries t))(k \<mapsto> v)"
    and entries_remove: "map_of (entries (tbl_remove T k t)) = (map_of (entries t))(k := None)"
    and get_entries: "tbl_get T k t = map_of (entries t) k"
    and range_entries: "tbl_range T k t = dropWhile (\<lambda>e. fst e < k) (entries t)"

locale uuid_texts =
  fixes U :: uuid_format
  assumes uuid_text_inj: "uuid_text U d = uuid_text U d' \<Longrightarrow> d = d'"
    and uuid_text_nul: "KEY_SEPARATOR \<notin> set (uuid_text U d)"

fun redb_step ::
    "bool \<Rightarrow> 't table \<Rightarrow> uuid_format \<Rightarrow> param_op \<Rightarrow> 't redb_store \<Rightarrow>
     (store_error, unit) outcome \<times> 't redb_store" where
  "redb_step io T U (PutParam d n k v) s = redb_put_node_param io T U d n k v s"
| "redb_step io T U (DeleteParam d n k) s = redb_delete_node_param io T U d n k s"

abbreviation joined_key :: "uuid_format \<Rightarrow> uuid \<Rightarrow> node_id \<Rightarrow> string \<Rightarrow> string" where
  "joined_key U d n k \<equiv> uuid_text U d @ KEY_SEPARATOR # node_name n @ KEY_SEPARATOR # k"

lemma make_param_key_Ok [simp]: "nul_free n k \<Longrightarrow> make_param_key U d n k = Ok (joined_key U d n k)"
  by (simp add: make_param_key_def nul_free_def check_no_separator_def)

lemma make_param_prefix_Ok [simp]: "nul_free n [] \<Longrightarrow> make_param_prefix U d n = Ok (joined_key U d n [])"
  by (simp add: make_param_prefix_def nul_free_def check_no_separator_def)

lemma scan_prefix_takeWhile:
  "scan_prefix p es = map (\<lambda>(k, v). (drop (length p) k, v)) (takeWhile (\<lambda>e. starts_with p (fst e)) es)"
  by (induction p es rule: scan_prefix.induct) (auto simp: strip_prefix_def)

definition suffixes :: "string \<Rightarrow> (string \<times> 'v) list \<Rightarrow> (string \<times> 'v) list" where
  "suffixes p m = map (\<lambda>(k, v). (drop (length p) k, v)) (filter (\<lambda>e. starts_with p (fst e)) m)"

lemma scan_prefix_range:
  assumes "bt_wf m"
  shows "scan_prefix p (dropWhile (\<lambda>e. fst e < p) m) =
         suffixes p m"
proof -
  have "starts_with p k'" if "starts_with p k" "p \<le> k'" "k' \<le> k" for k k'
    using that prefix_between[of p k'] unfolding starts_with_iff[of p k] by blast
  moreover have "p \<le> k" if "starts_with p k" for k
    using that prefix_le unfolding starts_with_iff by blast
  ultimately show ?thesis
    unfolding scan_prefix_takeWhile suffixes_def by (subst range_scan[OF assms]) blast+
qed

lemma bt_wf_suffixes:
  "bt_wf m \<Longrightarrow> bt_wf (suffixes p m)"
  by (induction m) (auto simp: suffixes_def bt_wf_def starts_with_iff append_le)

lemma map_of_suffixes:
  "map_of (suffixes p m) k =
   map_of m (p @ k)"
  by (induction m) (auto simp: suffixes_def starts_with_iff, metis)

lemma separated_eq: "(c :: char) \<notin> set a \<Longrightarrow> c \<notin> set a' \<Longrightarrow> a @ c # b = a' @ c # b' \<longleftrightarrow> a = a' \<and> b = b'"
  by (metis option.inject prod.inject split_once_append)

locale redb_params = key_table T entries + uuid_texts U
  for T :: "'t table" and entries :: "'t \<Rightarrow> (string \<times> string) list" and U :: uuid_format
begin

lemma joined_key_eq:
  assumes "KEY_SEPARATOR \<notin> set (node_name n)" "KEY_SEPARATOR \<notin> set (node_name n')"
  shows "joined_key U d n k = joined_key U d' n' k' \<longleftrightarrow> d = d' \<and> n = n' \<and> k = k'"
  using assms uuid_text_inj
  by (auto simp: separated_eq[OF uuid_text_nul uuid_text_nul] separated_eq node_id.expand)

definition stored :: "'t redb_store \<Rightarrow> params" where
  "stored s = (\<lambda>(d, n, k). if nul_free n k then map_of (entries (db_params s)) (joined_key U d n k) else None)"

definition keys_ok :: "'t redb_store \<Rightarrow> bool" where
  "keys_ok s \<longleftrightarrow> (\<forall>K \<in> dom (map_of (entries (db_params s))). \<exists>d n k. nul_free n k \<and> K = joined_key U d n k)"

lemma stored_slice:
  assumes "keys_ok s" "nul_free n []"
  shows "map_of (entries (db_params s)) (joined_key U d n k) = stored s (d, n, k)"
proof (cases "map_of (entries (db_params s)) (joined_key U d n k)")
  case (Some v)
  then have "joined_key U d n k \<in> dom (map_of (entries (db_params s)))" by (rule domI)
  then obtain d' n' k' where "nul_free n' k'" "joined_key U d n k = joined_key U d' n' k'"
    using bspec[OF assms(1)[unfolded keys_ok_def]] by blast
  then have "nul_free n k" using assms(2) joined_key_eq[of n n' d k d' k'] by (simp add: nul_free_def)
  then show ?thesis by (simp add: stored_def)
qed (simp add: stored_def)

lemma stored_insert:
  "nul_free n k \<Longrightarrow>
   stored (s\<lparr>db_params := tbl_insert T (joined_key U d n k) v (db_params s)\<rparr>) = (stored s)((d, n, k) \<mapsto> v)"
  by (rule ext) (simp add: stored_def entries_insert joined_key_eq nul_free_def split: prod.split)

lemma stored_remove:
  "nul_free n k \<Longrightarrow>
   stored (s\<lparr>db_params := tbl_remove T (joined_key U d n k) (db_params s)\<rparr>) = (stored s)((d, n, k) := None)"
  by (rule ext) (simp add: stored_def entries_remove joined_key_eq nul_free_def split: prod.split)

lemma get_stored: "nul_free n k \<Longrightarrow> redb_get_node_param True T U d n k s = Ok (stored s (d, n, k))"
  by (simp add: redb_get_node_param_def redb_read_def stored_def get_entries)

lemma stored_step: "nul_free_op op \<Longrightarrow> stored (snd (redb_step True T U op s)) = spec_step op (stored s)"
  by (cases op) (auto simp: redb_put_node_param_def redb_delete_node_param_def transaction_def
      stored_insert stored_remove split: outcome.splits)

lemma keys_ok_step: "keys_ok s \<Longrightarrow> nul_free_op op \<Longrightarrow> keys_ok (snd (redb_step True T U op s))"
  by (cases op) (auto simp: keys_ok_def redb_put_node_param_def redb_delete_node_param_def transaction_def
      entries_insert entries_remove split: outcome.splits if_splits)

lemma redb_result: "nul_free_op op \<Longrightarrow> fst (redb_step True T U op s) = spec_result op"
  by (cases op) (auto simp: redb_put_node_param_def redb_delete_node_param_def transaction_def split: outcome.splits)

end

sublocale redb_params \<subseteq> redb_ps: param_store "redb_step True T U" "\<lambda>d n k s. redb_get_node_param True T U d n k s"
  "\<lambda>d n s. redb_list_node_params True T U d n s" stored keys_ok
proof
  fix s :: "'t redb_store" and d n
  assume inv: "keys_ok s" and nf: "nul_free n []"
  have "redb_list_node_params True T U d n s = Ok (suffixes (joined_key U d n []) (entries (db_params s)))"
    using nf by (simp add: redb_list_node_params_def redb_read_def range_entries scan_prefix_range entries_wf)
  then show "\<exists>l. redb_list_node_params True T U d n s = Ok l \<and> bt_wf l \<and> map_of l = (\<lambda>k. stored s (d, n, k))"
    using stored_slice[OF inv nf, of d] by (auto simp: bt_wf_suffixes entries_wf map_of_suffixes)
qed (simp_all add: redb_result keys_ok_step stored_step get_stored)

context redb_params
begin

lemma agrees_with_memory:
  assumes "entries (db_params s) = []" "list_all nul_free_op ops" "nul_free n k"
  shows "redb_get_node_param True T U d n k (fold (\<lambda>op s. snd (redb_step True T U op s)) ops s) =
           Ok (mem_get_node_param d n k (fold (\<lambda>op s. snd (mem_step op s)) ops in_memory_new)) \<and>
         redb_list_node_params True T U d n (fold (\<lambda>op s. snd (redb_step True T U op s)) ops s) =
           Ok (mem_list_node_params d n (fold (\<lambda>op s. snd (mem_step op s)) ops in_memory_new))"
proof -
  have ok: "keys_ok s" by (simp add: keys_ok_def assms(1))
  have new: "bt_wf (mem_params in_memory_new)" by (simp add: in_memory_new_def)
  have same: "stored s = map_of (mem_params in_memory_new)"
    by (auto simp: stored_def assms(1) in_memory_new_def fun_eq_iff)
  have n: "nul_free n []" using assms(3) by (simp add: nul_free_def)
  show ?thesis
    using mem_ps.get_run[OF new assms(2,3), of d] mem_ps.list_run_iff[OF new assms(2) n, of d, THEN iffD1, OF refl]
    unfolding redb_ps.get_run[OF ok assms(2,3)] redb_ps.list_run_iff[OF ok assms(2) n] same by simp
qed

end

lemma failed_transaction [simp]: "snd (redb_step False T U op s) = s"
  by (cases op) (auto simp: redb_put_node_param_def redb_delete_node_param_def transaction_def split: outcome.splits)

lemma committed_run:
  "fold (\<lambda>(io, op) s. snd (redb_step io T U op s)) ops s =
   fold (\<lambda>op s. snd (redb_step True T U op s)) (map snd (filter fst ops)) s"
  by (induction ops arbitrary: s) auto

definition rbt_table :: "(string, string) RBT.rbt table" where
  "rbt_table = \<lparr>tbl_insert = RBT.insert, tbl_remove = RBT.delete, tbl_get = (\<lambda>k t. RBT.lookup t k),
     tbl_range = (\<lambda>k t. dropWhile (\<lambda>e. fst e < k) (RBT.entries t))\<rparr>"

interpretation rbt_keys: key_table rbt_table RBT.entries
proof
  fix t :: "(string, string) RBT.rbt"
  show "bt_wf (RBT.entries t)"
    using RBT.sorted_entries[of t] RBT.distinct_entries[of t] by (simp add: bt_wf_def strict_sorted_iff)
qed (simp_all add: rbt_table_def RBT.map_of_entries RBT.lookup_insert RBT.lookup_delete restrict_map_def fun_eq_iff)

definition decimal_uuids :: uuid_format where
  "decimal_uuids = \<lparr>as_bytes = show_nat, uuid_text = show_nat\<rparr>"

lemma show_nat_inj: "show_nat d = show_nat d' \<Longrightarrow> d = d'"
  by (metis max.cobounded1 max.cobounded2 option.inject parse_uint_show_nat)

interpretation decimal: uuid_texts decimal_uuids
proof
  show "KEY_SEPARATOR \<notin> set (uuid_text decimal_uuids d)" for d
    using show_nat_digits[of KEY_SEPARATOR d]
    by (auto simp: decimal_uuids_def KEY_SEPARATOR_def is_ascii_digit_def code_of_def)
qed (auto simp: decimal_uuids_def intro: show_nat_inj)

interpretation rbt_params: redb_params rbt_table RBT.entries decimal_uuids ..

text \<open>
  C14. The database and the memory implement the same store of parameters. Take any sequence of
  writes and deletions, some of whose transactions fail, on a database whose parameter table is
  empty, and run the ones that do not fail on the store in memory. As long as no node id and no key
  holds a NUL, every lookup then gives the same value and every list of the parameters of a node has
  the same entries in the same order. The table is any that behaves like an ordered map.
\<close>
theorem param_stores_agree:
  assumes "key_table T entries" "uuid_texts U" "entries (db_params s) = []"
    and "list_all (\<lambda>(io, op). nul_free_op op) ops" "nul_free n k"
  shows "let db = fold (\<lambda>(io, op) s. snd (redb_step io T U op s)) ops s;
             mem = fold (\<lambda>op s. snd (mem_step op s)) (map snd (filter fst ops)) in_memory_new
         in redb_get_node_param True T U d n k db = Ok (mem_get_node_param d n k mem) \<and>
            redb_list_node_params True T U d n db = Ok (mem_list_node_params d n mem)"
  using redb_params.agrees_with_memory[of T entries U s "map snd (filter fst ops)" n k d] assms
  by (auto simp: redb_params_def committed_run list_all_iff Let_def)


definition sample_ops :: "(bool \<times> param_op) list" where
  "sample_ops =
    [(True, PutParam 7 (NodeId ''cam'') ''rate'' ''30''),
     (True, PutParam 7 (NodeId ''camera'') ''rate'' ''60''),
     (False, PutParam 7 (NodeId ''cam'') ''mode'' ''raw''),
     (True, PutParam 7 (NodeId ''cam'') ''gain'' ''2''),
     (True, PutParam 7 (NodeId ''cam'') ''rate'' ''15''),
     (True, DeleteParam 7 (NodeId ''camera'') ''rate'')]"

definition empty_database :: "(string, string) RBT.rbt redb_store" where
  "empty_database = \<lparr>db_schema = Some SCHEMA_VERSION, db_daemons = RBT.empty, db_dataflows = RBT.empty,
     db_builds = RBT.empty, db_params = RBT.empty\<rparr>"

lemma empty_database_params: "RBT.entries (db_params empty_database) = []"
  by (simp add: empty_database_def RBT.entries.rep_eq RBT.empty.rep_eq)

lemma sample_ops_nul_free: "list_all (\<lambda>(io, op). nul_free_op op) sample_ops" "nul_free (NodeId ''cam'') ''rate''"
  by (simp_all add: sample_ops_def nul_free_def KEY_SEPARATOR_def)

lemma sample_ops_memory:
  "mem_list_node_params 7 (NodeId ''cam'')
     (fold (\<lambda>op s. snd (mem_step op s)) (map snd (filter fst sample_ops)) in_memory_new) =
   [(''gain'', ''2''), (''rate'', ''15'')]"
  by (simp add: sample_ops_def mem_put_node_param_def mem_delete_node_param_def mem_list_node_params_def
      validate_param_limits_def MAX_PARAM_KEY_BYTES_def MAX_PARAM_VALUE_BYTES_def in_memory_new_def bt_remove_def
      less_node_id_def less_prod_def' less_char_def)

theorem param_stores_agree_witness:
  "redb_list_node_params True rbt_table decimal_uuids 7 (NodeId ''cam'')
     (fold (\<lambda>(io, op) s. snd (redb_step io rbt_table decimal_uuids op s)) sample_ops empty_database) =
   Ok [(''gain'', ''2''), (''rate'', ''15'')]"
  using param_stores_agree[OF rbt_keys.key_table_axioms decimal.uuid_texts_axioms empty_database_params
      sample_ops_nul_free, of 7]
  by (simp only: Let_def sample_ops_memory)


definition sample_record :: dataflow_record where
  "sample_record = \<lparr>dr_uuid = 7, dr_name = Some ''demo'', dr_descriptor_json = ''{}'', dr_status = StRunning,
     dr_daemon_ids = [(None, 3)], dr_node_to_daemon = [], dr_uv = False, dr_generation = 1,
     dr_created_at = 0, dr_updated_at = 0\<rparr>"

definition sample_codec :: "dataflow_record codec" where
  "sample_codec = \<lparr>enc = (\<lambda>r. if r = sample_record then Some ''r'' else None),
     dec = (\<lambda>b. if b = ''r'' then Some sample_record else None)\<rparr>"


end
