(* ===== verification/Coordinator_State.thy ===== *)
theory Coordinator_State
  imports Coordinator_Store Descriptor
begin

text \<open>
  The state of the coordinator (\<^verbatim>\<open>binaries/coordinator/src/state.rs\<close>) and of the clients that
  listen to it (\<^verbatim>\<open>log_subscriber.rs\<close>, \<^verbatim>\<open>topic_subscriber.rs\<close>): connections to
  daemons, running builds and dataflows, results that several requests wait for, and the log of
  parameter changes from which a daemon that was away catches up.

  The store is used through its trait, a record of functions (\<open>store_ops\<close>) over the type of the store.
  What a handler learns from outside during one event is the record \<open>co_env\<close>: the clocks, new
  identifiers, the text forms of serde and uuid, whether a daemon can be reached, what it answers to
  a command, the state of the channels to clients, and the spans that were recorded. A request of the command line is a number, and
  its answer an entry of a list. A parameter value is the text of its JSON form. The results of nodes
  carry the text of their error.
\<close>

section \<open>Messages\<close>

type_synonym json = string

type_synonym request = nat

datatype state_operation = OpSetParam node_id string json | OpDeleteParam node_id string

record state_entry =
  se_sequence :: nat
  se_operation :: state_operation

type_synonym topic = "node_id \<times> data_id"

record spawn_command =
  sc_build_id :: "uuid option"
  sc_dataflow_id :: uuid
  sc_local_working_dir :: "string option"
  sc_nodes :: "(node_id \<times> resolved_node) list"
  sc_descriptor :: descriptor
  sc_spawn_nodes :: "node_id list"
  sc_uv :: bool
  sc_write_events_to :: "string option"

record build_command =
  bc_build_id :: uuid
  bc_local_working_dir :: "string option"
  bc_git_sources :: "(node_id \<times> string) list"
  bc_prev_git_sources :: "(node_id \<times> string) list"
  bc_descriptor :: descriptor
  bc_nodes_on_machine :: "node_id list"
  bc_uv :: bool

datatype daemon_command =
    CmdBuild build_command
  | CmdSpawn spawn_command
  | CmdAllNodesReady uuid "node_id list"
  | CmdStopDataflow uuid "duration option" bool
  | CmdReloadDataflow uuid node_id "operator_id option"
  | CmdLogs uuid node_id "nat option"
  | CmdRestartNode uuid node_id "duration option"
  | CmdStopNode uuid node_id "duration option"
  | CmdSetParam uuid node_id string json
  | CmdDeleteParam uuid node_id string
  | CmdDestroy
  | CmdHeartbeat
  | CmdPeerDaemonDisconnected daemon_id
  | CmdAddNode uuid resolved_node bool
  | CmdRemoveNode uuid node_id "duration option"
  | CmdAddMapping uuid topic topic
  | CmdRemoveMapping uuid topic topic
  | CmdStartTopicDebugStream uuid "topic list" uuid
  | CmdStopTopicDebugStream uuid uuid
  | CmdStateCatchUp uuid "state_entry list"
  | RegisterOk daemon_id
  | RegisterErr string

text \<open>\<^verbatim>\<open>DaemonCoordinatorReply\<close>; the result of an operation is the text of its error, if any.\<close>

datatype daemon_answer =
    TriggerBuildResult "string option"
  | TriggerSpawnResult "string option"
  | ReloadResult "string option"
  | StopResult "string option"
  | DestroyResult "string option"
  | LogsResult "(string, string) outcome"
  | RestartNodeResult "string option"
  | StopNodeResult "string option"
  | SetParamResult "string option"
  | DeleteParamResult "string option"
  | StartTopicDebugStreamResult "string option"
  | StopTopicDebugStreamResult "string option"

text \<open>
  What \<^verbatim>\<open>send_and_receive\<close> gives: nothing (the channel is closed, there are too many pending
  replies, or none came in time), bytes that are no reply, or a reply.
\<close>

datatype raw_answer = NoAnswer | Garbled | Answer daemon_answer

datatype co_error =
    UnknownBuild uuid
  | UnknownDataflow uuid
  | NameInUse string
  | NoDataflowNamed string
  | AmbiguousName string
  | NoUuid
  | NoMatchingDaemon
  | NoDaemonConnection daemon_id
  | NoDaemons uuid
  | AskFailed daemon_id
  | BadReply
  | UnexpectedReply daemon_answer
  | DaemonRefused string
  | SpawnRolledBack daemon_id "daemon_id list"
  | ResolveFailed resolve_error
  | NodeUnknown node_id
  | NodeAmbiguous node_id
  | NodeExists node_id
  | OutputUnknown node_id data_id
  | DebugDisabled
  | StoreFailed store_error
  | BadDescriptor
  | ParamNotFound string
  | CorruptParam
  | ExitedBeforeSpawn "string list"
  | SpawnFailedOn string
  | HandledElsewhere
  | SendClosed
  | TooManyPending
  | ReplyDropped
  | ReplyTimeout

section \<open>Listening clients\<close>

datatype chan_state = ChanOpen | ChanFull | ChanClosed

record log_message =
  lm_build_id :: "uuid option"
  lm_dataflow_id :: "uuid option"
  lm_level :: log_level_or_stdout
  lm_message :: string

text \<open>A level filter is the least severe level that passes, or \<open>None\<close> for off.\<close>

record cli_log_subscriber =
  cls_level :: "log_level option"
  cls_sender :: "nat option"

definition level_above :: "log_level \<Rightarrow> log_level option \<Rightarrow> bool" where
  "level_above l f = (case f of None \<Rightarrow> True | Some m \<Rightarrow> level_rank l > level_rank m)"

definition cls_close :: "cli_log_subscriber \<Rightarrow> cli_log_subscriber" where
  "cls_close s = s\<lparr>cls_sender := None\<rparr>"

definition cls_is_closed :: "(nat \<Rightarrow> chan_state) \<Rightarrow> cli_log_subscriber \<Rightarrow> bool" where
  "cls_is_closed ch s = (case cls_sender s of None \<Rightarrow> True | Some c \<Rightarrow> ch c = ChanClosed)"

text \<open>One call of \<open>send_message\<close> under its timeout: the subscriber afterwards and what was sent.\<close>

definition cls_send ::
    "(nat \<Rightarrow> chan_state) \<Rightarrow> log_message \<Rightarrow> cli_log_subscriber \<Rightarrow>
     cli_log_subscriber \<times> (nat \<times> log_message) list" where
  "cls_send ch m s =
     (if (case lm_level m of Stdout \<Rightarrow> False | LogLevel l \<Rightarrow> level_above l (cls_level s)) then (s, [])
      else case cls_sender s of
             None \<Rightarrow> (s, [])
           | Some c \<Rightarrow>
               (case ch c of
                  ChanOpen \<Rightarrow> (s, [(c, m)])
                | ChanFull \<Rightarrow> (cls_close s, [])
                | ChanClosed \<Rightarrow> (s, [])))"

definition send_log_message ::
    "(nat \<Rightarrow> chan_state) \<Rightarrow> log_message \<Rightarrow> cli_log_subscriber list \<Rightarrow>
     cli_log_subscriber list \<times> (nat \<times> log_message) list" where
  "send_log_message ch m subs =
     (let rs = map (cls_send ch m) subs
      in (filter (\<lambda>s. \<not> cls_is_closed ch s) (map fst rs), concat (map snd rs)))"

record topic_subscriber =
  ts_outputs_by_daemon :: "(daemon_id \<times> topic list) list"
  ts_sender :: "nat option"
  ts_consecutive_timeouts :: nat

definition topic_subscriber_new :: "(daemon_id \<times> topic list) list \<Rightarrow> nat \<Rightarrow> topic_subscriber" where
  "topic_subscriber_new os c =
     \<lparr>ts_outputs_by_daemon = os, ts_sender = Some c, ts_consecutive_timeouts = 0\<rparr>"

definition ts_close :: "topic_subscriber \<Rightarrow> topic_subscriber" where
  "ts_close s = s\<lparr>ts_sender := None\<rparr>"

definition ts_is_closed :: "(nat \<Rightarrow> chan_state) \<Rightarrow> topic_subscriber \<Rightarrow> bool" where
  "ts_is_closed ch s = (case ts_sender s of None \<Rightarrow> True | Some c \<Rightarrow> ch c = ChanClosed)"

definition reset_timeout_streak :: "topic_subscriber \<Rightarrow> topic_subscriber" where
  "reset_timeout_streak s = s\<lparr>ts_consecutive_timeouts := 0\<rparr>"

definition record_timeout :: "topic_subscriber \<Rightarrow> nat \<times> topic_subscriber" where
  "record_timeout s =
     (let n = ts_consecutive_timeouts s + 1 in (n, s\<lparr>ts_consecutive_timeouts := n\<rparr>))"

definition MAX_TOPIC_DEBUG_PAYLOAD_BYTES :: nat where
  "MAX_TOPIC_DEBUG_PAYLOAD_BYTES = 64 * 1024 * 1024"

definition MAX_CONSECUTIVE_TOPIC_SEND_TIMEOUTS :: nat where
  "MAX_CONSECUTIVE_TOPIC_SEND_TIMEOUTS = 100"

text \<open>A frame for one subscription: the subscriber afterwards and whether the frame was sent.\<close>

definition send_frame :: "(nat \<Rightarrow> chan_state) \<Rightarrow> topic_subscriber \<Rightarrow> topic_subscriber \<times> bool" where
  "send_frame ch s =
     (case ts_sender s of
        None \<Rightarrow> (ts_close s, False)
      | Some c \<Rightarrow>
          (case ch c of
             ChanOpen \<Rightarrow> (reset_timeout_streak s, True)
           | ChanClosed \<Rightarrow> (ts_close s, False)
           | ChanFull \<Rightarrow>
               (let (n, s') = record_timeout s
                in (if n \<ge> MAX_CONSECUTIVE_TOPIC_SEND_TIMEOUTS then ts_close s' else s', False))))"

fun send_frames ::
    "(nat \<Rightarrow> chan_state) \<Rightarrow> uuid list \<Rightarrow> (uuid \<times> topic_subscriber) list \<Rightarrow>
     (uuid \<times> topic_subscriber) list \<times> uuid list" where
  "send_frames ch [] subs = (subs, [])"
| "send_frames ch (i # is) subs =
     (case map_of subs i of
        None \<Rightarrow> send_frames ch is subs
      | Some s \<Rightarrow>
          (let (s', sent) = send_frame ch s;
               (subs', rest) = send_frames ch is (bt_insert i s' subs)
           in (subs', if sent then i # rest else rest)))"

definition send_topic_frames ::
    "(nat \<Rightarrow> chan_state) \<Rightarrow> uuid list \<Rightarrow> string \<Rightarrow> (uuid \<times> topic_subscriber) list \<Rightarrow>
     (uuid \<times> topic_subscriber) list \<times> uuid list" where
  "send_topic_frames ch is payload subs =
     (if length payload > MAX_TOPIC_DEBUG_PAYLOAD_BYTES then (subs, [])
      else let (subs', sent) = send_frames ch is subs
           in (filter (\<lambda>(i, s). \<not> ts_is_closed ch s) subs', sent))"

section \<open>Spans of the coordinator\<close>

record span_record =
  sp_trace_id :: string
  sp_span_id :: nat
  sp_parent_span_id :: "nat option"
  sp_name :: string
  sp_target :: string
  sp_level :: string
  sp_start_time :: nat
  sp_duration_us :: nat
  sp_fields :: "(string \<times> string) list"

definition MAX_SPANS :: nat where
  "MAX_SPANS = 4096"

definition span_store_push :: "span_record \<Rightarrow> span_record list \<Rightarrow> span_record list" where
  "span_store_push r spans = (if length spans \<ge> MAX_SPANS then tl spans else spans) @ [r]"

record trace_summary =
  tr_trace_id :: string
  tr_root_span_name :: string
  tr_span_count :: nat
  tr_start_time :: nat
  tr_total_duration_us :: nat

section \<open>What a handler learns from outside\<close>

record co_env =
  e_now :: nat
  e_now_ms :: nat
  e_fresh :: uuid
  e_petname :: "string option"
  e_to_json :: "descriptor \<Rightarrow> string option"
  e_from_json :: "string \<Rightarrow> descriptor option"
  e_value :: "string \<Rightarrow> json option"
  e_show_daemon :: "daemon_id \<Rightarrow> string"
  e_ros2_json :: "ros2_bridge_config \<Rightarrow> string"
  e_send :: "daemon_id \<Rightarrow> bool"
  e_ask :: "daemon_id \<Rightarrow> daemon_command \<Rightarrow> raw_answer"
  e_chan :: "nat \<Rightarrow> chan_state"
  e_spans :: "span_record list option"

text \<open>\<^verbatim>\<open>dyn CoordinatorStore\<close>: the functions of the trait the coordinator calls.\<close>

record 's store_ops =
  so_register_daemon :: "daemon_info \<Rightarrow> 's \<Rightarrow> (store_error, unit) outcome \<times> 's"
  so_unregister_daemon :: "daemon_id \<Rightarrow> 's \<Rightarrow> (store_error, unit) outcome \<times> 's"
  so_list_daemons :: "'s \<Rightarrow> (store_error, daemon_info list) outcome"
  so_put_dataflow :: "dataflow_record \<Rightarrow> 's \<Rightarrow> (store_error, unit) outcome \<times> 's"
  so_get_dataflow :: "uuid \<Rightarrow> 's \<Rightarrow> (store_error, dataflow_record option) outcome"
  so_list_dataflows :: "'s \<Rightarrow> (store_error, dataflow_record list) outcome"
  so_put_node_param :: "uuid \<Rightarrow> node_id \<Rightarrow> string \<Rightarrow> string \<Rightarrow> 's \<Rightarrow> (store_error, unit) outcome \<times> 's"
  so_get_node_param :: "uuid \<Rightarrow> node_id \<Rightarrow> string \<Rightarrow> 's \<Rightarrow> (store_error, string option) outcome"
  so_list_node_params :: "uuid \<Rightarrow> node_id \<Rightarrow> 's \<Rightarrow> (store_error, (string \<times> string) list) outcome"
  so_delete_node_param :: "uuid \<Rightarrow> node_id \<Rightarrow> string \<Rightarrow> 's \<Rightarrow> (store_error, unit) outcome \<times> 's"

definition mem_ops :: "in_memory_store store_ops" where
  "mem_ops =
     \<lparr>so_register_daemon = (\<lambda>i s. (Ok (), mem_register_daemon i s)),
      so_unregister_daemon = (\<lambda>i s. (Ok (), mem_unregister_daemon i s)),
      so_list_daemons = (\<lambda>s. Ok (mem_list_daemons s)),
      so_put_dataflow = (\<lambda>r s. (Ok (), mem_put_dataflow r s)),
      so_get_dataflow = (\<lambda>u s. Ok (mem_get_dataflow u s)),
      so_list_dataflows = (\<lambda>s. Ok (mem_list_dataflows s)),
      so_put_node_param = mem_put_node_param,
      so_get_node_param = (\<lambda>d n k s. Ok (mem_get_node_param d n k s)),
      so_list_node_params = (\<lambda>d n s. Ok (mem_list_node_params d n s)),
      so_delete_node_param = (\<lambda>d n k s. (Ok (), mem_delete_node_param d n k s))\<rparr>"

definition redb_ops ::
    "bool \<Rightarrow> 't table \<Rightarrow> uuid_format \<Rightarrow> daemon_id codec \<Rightarrow> daemon_info codec \<Rightarrow> dataflow_record codec \<Rightarrow>
     't redb_store store_ops" where
  "redb_ops io T U ic dc rc =
     \<lparr>so_register_daemon = redb_register_daemon io T ic dc,
      so_unregister_daemon = redb_unregister_daemon io T ic,
      so_list_daemons = redb_list_daemons io T dc,
      so_put_dataflow = redb_put_dataflow io T U rc,
      so_get_dataflow = redb_get_dataflow io T U rc,
      so_list_dataflows = redb_list_dataflows io T rc,
      so_put_node_param = redb_put_node_param io T U,
      so_get_node_param = redb_get_node_param io T U,
      so_list_node_params = redb_list_node_params io T U,
      so_delete_node_param = redb_delete_node_param io T U\<rparr>"

section \<open>Connections\<close>

record daemon_connection =
  dc_last_heartbeat :: nat
  dc_labels :: "(string \<times> string) list"
  dc_ft_stats :: "nat option"

type_synonym connections = "(daemon_id \<times> daemon_connection) list"

definition daemon_connection_new :: "nat \<Rightarrow> (string \<times> string) list \<Rightarrow> daemon_connection" where
  "daemon_connection_new now ls = \<lparr>dc_last_heartbeat = now, dc_labels = ls, dc_ft_stats = None\<rparr>"

definition conn_add :: "daemon_id \<Rightarrow> daemon_connection \<Rightarrow> connections \<Rightarrow> connections" where
  "conn_add i c cs = bt_insert i c cs"

definition get_matching_daemon_id :: "string \<Rightarrow> connections \<Rightarrow> daemon_id option" where
  "get_matching_daemon_id m cs = List.find (\<lambda>i. matches_machine_id i m) (map fst cs)"

definition unnamed :: "connections \<Rightarrow> daemon_id list" where
  "unnamed cs = filter (\<lambda>i. fst i = None) (map fst cs)"

definition first_of :: "'a list \<Rightarrow> 'a option" where
  "first_of xs = (case xs of [] \<Rightarrow> None | x # _ \<Rightarrow> Some x)"

definition get_matching_daemon_by_labels :: "(string \<times> string) list \<Rightarrow> connections \<Rightarrow> daemon_id option" where
  "get_matching_daemon_by_labels req cs =
     map_option fst (List.find (\<lambda>(i, c). list_all (\<lambda>(k, v). map_of (dc_labels c) k = Some v) req) cs)"

definition MAX_PENDING_REPLIES :: nat where
  "MAX_PENDING_REPLIES = 256"

datatype reply_event = Replied string | ReplyChannelDropped | ReplyTimedOut

text \<open>
  One request on a connection whose pending replies are \<open>pending\<close>: whether the channel takes it and
  what happens to the reply. A reply takes its entry out of the map, as does the timeout.
\<close>

definition send_and_receive ::
    "uuid \<Rightarrow> bool \<Rightarrow> reply_event \<Rightarrow> uuid list \<Rightarrow> (co_error, string) outcome \<times> uuid list" where
  "send_and_receive i sent reply pending =
     (if length pending \<ge> MAX_PENDING_REPLIES then (Err TooManyPending, pending)
      else let p = List.insert i pending
           in if \<not> sent then (Err SendClosed, p)
              else case reply of
                     Replied r \<Rightarrow> (Ok r, removeAll i p)
                   | ReplyChannelDropped \<Rightarrow> (Err ReplyDropped, removeAll i p)
                   | ReplyTimedOut \<Rightarrow> (Err ReplyTimeout, removeAll i p))"

text \<open>\<^verbatim>\<open>resolve_daemon\<close>: the machine first, then labels, then any unnamed daemon.\<close>

definition resolve_daemon :: "connections \<Rightarrow> deploy option \<Rightarrow> (co_error, daemon_id) outcome" where
  "resolve_daemon cs dep =
     ok_or NoMatchingDaemon
       (case dep of
          None \<Rightarrow> first_of (unnamed cs)
        | Some d \<Rightarrow>
            (case machine d of
               Some m \<Rightarrow> get_matching_daemon_id m cs
             | None \<Rightarrow>
                 if labels d \<noteq> [] then get_matching_daemon_by_labels (labels d) cs
                 else first_of (unnamed cs)))"

section \<open>Results that requests wait for\<close>

record dataflow_list_entry =
  dl_uuid :: uuid
  dl_name :: "string option"
  dl_status :: "bool option"

type_synonym node_results = "(node_id \<times> string option) list"

text \<open>
  \<^verbatim>\<open>ControlRequestReply\<close>. The status in a list is \<open>None\<close> for running and otherwise whether
  the dataflow finished without error.
\<close>

datatype control_reply =
    DataflowBuildTriggered uuid
  | DataflowBuildFinished uuid "string list option"
  | DataflowStartTriggered uuid
  | DataflowSpawned uuid
  | DataflowReloaded uuid
  | DataflowStopped uuid node_results
  | DataflowRestarted uuid uuid
  | DataflowList "dataflow_list_entry list"
  | DataflowInfo uuid "string option" descriptor
  | DestroyOk
  | DaemonConnected bool
  | ConnectedDaemons "(daemon_id \<times> nat \<times> nat option) list"
  | LogBytes string
  | CliAndDefaultDaemonIps bool
  | NodeInfoList "(uuid \<times> string option \<times> node_id \<times> daemon_id \<times> nat option \<times> nat option) list"
  | NodeRestarted uuid node_id
  | NodeStopped uuid node_id
  | NodeAdded uuid node_id
  | NodeRemoved uuid node_id
  | MappingAdded uuid topic topic
  | MappingRemoved uuid topic topic
  | ParamList "(string \<times> json) list"
  | ParamValue string json
  | ParamSet
  | ParamDeleted
  | TraceList "trace_summary list"
  | TraceSpans "span_record list"
  | ErrorReply string

type_synonym control_result = "(co_error, control_reply) outcome"

datatype cached_result = PendingResult "request list" | Cached control_result

definition cached_default :: cached_result where
  "cached_default = PendingResult []"

text \<open>Both return the answers that are sent at once.\<close>

fun cached_register :: "request \<Rightarrow> cached_result \<Rightarrow> (request \<times> control_result) list \<times> cached_result" where
  "cached_register r (PendingResult rs) = ([], PendingResult (rs @ [r]))"
| "cached_register r (Cached res) = ([(r, res)], Cached res)"

fun cached_set_result :: "control_result \<Rightarrow> cached_result \<Rightarrow> (request \<times> control_result) list \<times> cached_result" where
  "cached_set_result res (PendingResult rs) = (map (\<lambda>r. (r, res)) rs, Cached res)"
| "cached_set_result res (Cached res') = ([], Cached res')"

section \<open>Builds and dataflows\<close>

record running_build =
  rb_errors :: "string list"
  rb_build_result :: cached_result
  rb_buffered_log_messages :: "log_message list"
  rb_log_subscribers :: "cli_log_subscriber list"
  rb_pending_build_results :: "daemon_id list"

record co_dataflow =
  cd_name :: "string option"
  cd_uuid :: uuid
  cd_descriptor :: descriptor
  cd_daemons :: "daemon_id list"
  cd_pending_daemons :: "daemon_id list"
  cd_exited_before_subscribe :: "node_id list"
  cd_nodes :: "(node_id \<times> resolved_node) list"
  cd_node_to_daemon :: "(node_id \<times> daemon_id) list"
  cd_node_metrics :: "(node_id \<times> nat) list"
  cd_network_metrics :: "nat option"
  cd_spawn_result :: cached_result
  cd_stop_reply_senders :: "request list"
  cd_buffered_log_messages :: "log_message list"
  cd_log_subscribers :: "cli_log_subscriber list"
  cd_topic_subscribers :: "(uuid \<times> topic_subscriber) list"
  cd_pending_spawn_results :: "daemon_id list"
  cd_created_at :: nat
  cd_store_generation :: nat
  cd_last_recovery_attempt :: "(daemon_id \<times> nat) list"
  cd_last_replay_attempt :: "(daemon_id \<times> nat) list"
  cd_uv :: bool
  cd_state_log_sequence :: nat
  cd_state_log :: "state_entry list"
  cd_daemon_ack_sequence :: "(daemon_id \<times> nat) list"

record archived_dataflow =
  ad_name :: "string option"
  ad_nodes :: "(node_id \<times> resolved_node) list"

definition archived_of :: "co_dataflow \<Rightarrow> archived_dataflow" where
  "archived_of df = \<lparr>ad_name = cd_name df, ad_nodes = cd_nodes df\<rparr>"

section \<open>Records of the store\<close>

definition MAX_ERROR_BYTES :: nat where
  "MAX_ERROR_BYTES = 4096"

definition truncate_str :: "nat \<Rightarrow> string \<Rightarrow> string" where
  "truncate_str mx s = (if length s \<le> mx then s else take (floor_boundary mx s) s)"

fun truncate_status :: "stored_status \<Rightarrow> stored_status" where
  "truncate_status (StFailed e) = StFailed (truncate_str MAX_ERROR_BYTES e)"
| "truncate_status st = st"

definition make_record ::
    "co_env \<Rightarrow> stored_status \<Rightarrow> co_dataflow \<Rightarrow> (co_error, dataflow_record) outcome \<times> co_dataflow" where
  "make_record env st df =
     (let df' = df\<lparr>cd_store_generation := cd_store_generation df + 1\<rparr>
      in (case e_to_json env (cd_descriptor df) of
            None \<Rightarrow> Err BadDescriptor
          | Some json \<Rightarrow> Ok
              \<lparr>dr_uuid = cd_uuid df, dr_name = cd_name df, dr_descriptor_json = json,
               dr_status = truncate_status st, dr_daemon_ids = cd_daemons df,
               dr_node_to_daemon =
                 bt_collect (map (\<lambda>(n, d). (node_name n, e_show_daemon env d)) (cd_node_to_daemon df)),
               dr_uv = cd_uv df, dr_generation = cd_store_generation df', dr_created_at = cd_created_at df,
               dr_updated_at = e_now_ms env\<rparr>, df'))"

text \<open>\<^verbatim>\<open>make_record(..).and_then(|r| store.put_dataflow(&r))\<close>; a failure is only logged.\<close>

definition persist ::
    "co_env \<Rightarrow> 's store_ops \<Rightarrow> stored_status \<Rightarrow> co_dataflow \<Rightarrow> 's \<Rightarrow> co_dataflow \<times> 's" where
  "persist env ops st df s =
     (case make_record env st df of
        (Ok r, df') \<Rightarrow> (df', snd (so_put_dataflow ops r s))
      | (_, df') \<Rightarrow> (df', s))"

datatype param_target = TargetRunning daemon_id | PersistedOnly

definition resolve_param_target ::
    "co_env \<Rightarrow> 's store_ops \<Rightarrow> (uuid \<times> co_dataflow) list \<Rightarrow> 's \<Rightarrow> uuid \<Rightarrow> node_id \<Rightarrow>
     (co_error, param_target) outcome" where
  "resolve_param_target env ops running s d n =
     (case map_of running d of
        Some df \<Rightarrow> and_then (ok_or (NodeUnknown n) (map_of (cd_node_to_daemon df) n)) (\<lambda>i. Ok (TargetRunning i))
      | None \<Rightarrow>
          (case so_get_dataflow ops d s of
             Ok None \<Rightarrow> Err (UnknownDataflow d)
           | Ok (Some r) \<Rightarrow>
               (case e_from_json env (dr_descriptor_json r) of
                  None \<Rightarrow> Err BadDescriptor
                | Some desc \<Rightarrow>
                    if list_ex (\<lambda>x. id_of x = n) (nodes desc) then Ok PersistedOnly else Err (NodeUnknown n))
           | Err e \<Rightarrow> Err (StoreFailed e)
           | Panic \<Rightarrow> Panic))"

section \<open>The log of state changes\<close>

definition MAX_STATE_LOG_ENTRIES :: nat where
  "MAX_STATE_LOG_ENTRIES = 10000"

definition append_state_log :: "state_operation \<Rightarrow> co_dataflow \<Rightarrow> co_dataflow" where
  "append_state_log op df =
     (let seq = cd_state_log_sequence df + 1;
          log = cd_state_log df @ [\<lparr>se_sequence = seq, se_operation = op\<rparr>]
      in df\<lparr>cd_state_log_sequence := seq,
           cd_state_log :=
             (if length log > MAX_STATE_LOG_ENTRIES then drop (length log - MAX_STATE_LOG_ENTRIES) log
              else log)\<rparr>)"

definition min_ack :: "co_dataflow \<Rightarrow> nat" where
  "min_ack df =
     (case map snd (cd_daemon_ack_sequence df) of [] \<Rightarrow> 0 | a # as \<Rightarrow> fold min as a)"

definition prune_state_log :: "co_dataflow \<Rightarrow> co_dataflow" where
  "prune_state_log df = df\<lparr>cd_state_log := filter (\<lambda>e. se_sequence e > min_ack df) (cd_state_log df)\<rparr>"

definition state_log_delta :: "nat \<Rightarrow> co_dataflow \<Rightarrow> state_entry list option" where
  "state_log_delta last_ack df =
     (case cd_state_log df of
        [] \<Rightarrow> Some []
      | e # _ \<Rightarrow>
          if saturating_add last_ack 1 < se_sequence e then None
          else Some (filter (\<lambda>e. se_sequence e > last_ack) (cd_state_log df)))"

definition ack_of :: "daemon_id \<Rightarrow> co_dataflow \<Rightarrow> nat" where
  "ack_of d df = (case map_of (cd_daemon_ack_sequence df) d of None \<Rightarrow> 0 | Some a \<Rightarrow> a)"

text \<open>\<^verbatim>\<open>Event::DaemonStateCatchUpAck\<close> for a running dataflow.\<close>

definition state_catch_up_ack :: "daemon_id \<Rightarrow> nat \<Rightarrow> co_dataflow \<Rightarrow> co_dataflow" where
  "state_catch_up_ack d a df =
     (if d \<notin> set (cd_daemons df) then df
      else prune_state_log (df\<lparr>cd_daemon_ack_sequence :=
             bt_insert d (max (min a (cd_state_log_sequence df)) (ack_of d df)) (cd_daemon_ack_sequence df)\<rparr>))"

text \<open>After a full replay that succeeded.\<close>

definition ack_full_replay :: "daemon_id \<Rightarrow> co_dataflow \<Rightarrow> co_dataflow" where
  "ack_full_replay d df =
     df\<lparr>cd_daemon_ack_sequence := bt_insert d (cd_state_log_sequence df) (cd_daemon_ack_sequence df)\<rparr>"

section \<open>Catching up\<close>

text \<open>
  The changes of the log, with the list of all operations that were ever appended. A daemon may leave
  the dataflow at any time; the entry of its acknowledgement stays.
\<close>

inductive logged :: "co_dataflow \<Rightarrow> state_operation list \<Rightarrow> bool" where
  logged_start: "\<lbrakk>cd_state_log df = []; cd_state_log_sequence df = 0;
      cd_daemon_ack_sequence df = map (\<lambda>d. (d, 0)) (cd_daemons df)\<rbrakk> \<Longrightarrow> logged df []"
| logged_append: "logged df h \<Longrightarrow> logged (append_state_log op df) (h @ [op])"
| logged_ack: "logged df h \<Longrightarrow> logged (state_catch_up_ack d a df) h"
| logged_replay: "logged df h \<Longrightarrow> d \<in> set (cd_daemons df) \<Longrightarrow> logged (ack_full_replay d df) h"
| logged_leave: "logged df h \<Longrightarrow> logged (df\<lparr>cd_daemons := filter P (cd_daemons df)\<rparr>) h"

definition entries_from :: "nat \<Rightarrow> state_operation list \<Rightarrow> state_entry list" where
  "entries_from lo h = map (\<lambda>i. \<lparr>se_sequence = i + 1, se_operation = h ! i\<rparr>) [lo ..< length h]"

definition log_from :: "nat \<Rightarrow> state_operation list \<Rightarrow> co_dataflow \<Rightarrow> bool" where
  "log_from lo h df \<longleftrightarrow>
     lo \<le> length h \<and> cd_state_log_sequence df = length h \<and> cd_state_log df = entries_from lo h \<and>
     length h \<le> lo + MAX_STATE_LOG_ENTRIES \<and>
     (\<forall>a \<in> snd ` set (cd_daemon_ack_sequence df).
        a \<le> length h \<and> (lo \<le> a \<or> lo + MAX_STATE_LOG_ENTRIES \<le> length h)) \<and>
     set (cd_daemons df) \<subseteq> fst ` set (cd_daemon_ack_sequence df)"

lemma entries_from_append:
  "lo \<le> length h \<Longrightarrow>
   entries_from lo (h @ [op]) = entries_from lo h @ [\<lparr>se_sequence = length h + 1, se_operation = op\<rparr>]"
  by (auto simp: entries_from_def nth_append)

lemma drop_entries_from: "drop k (entries_from lo h) = entries_from (lo + k) h"
  by (simp add: entries_from_def drop_map)

lemma filter_entries_from: "filter (\<lambda>e. se_sequence e > a) (entries_from lo h) = entries_from (max lo a) h"
proof -
  have "filter (\<lambda>i. a \<le> i) [lo ..< n] = [max lo a ..< n]" for n
    by (induction n) (auto simp: max_def)
  then show ?thesis by (simp add: entries_from_def filter_map comp_def less_Suc_eq_le)
qed

lemma length_entries_from [simp]: "length (entries_from lo h) = length h - lo"
  by (simp add: entries_from_def)

lemma min_ack_Min: "cd_daemon_ack_sequence df \<noteq> [] \<Longrightarrow> min_ack df = Min (snd ` set (cd_daemon_ack_sequence df))"
  by (cases "cd_daemon_ack_sequence df") (auto simp: min_ack_def Min.set_eq_fold[symmetric])

lemma min_ack_le: "a \<in> snd ` set (cd_daemon_ack_sequence df) \<Longrightarrow> min_ack df \<le> a"
  using min_ack_Min[of df] by (cases "cd_daemon_ack_sequence df = []") auto

lemma min_ack_mem: "cd_daemon_ack_sequence df \<noteq> [] \<Longrightarrow> min_ack df \<in> snd ` set (cd_daemon_ack_sequence df)"
  using min_ack_Min[of df] Min_in[of "snd ` set (cd_daemon_ack_sequence df)"] by simp

lemma bt_insert_mem: "p \<in> set (bt_insert k v m) \<Longrightarrow> p = (k, v) \<or> p \<in> set m"
  by (induction k v m rule: bt_insert.induct) (auto split: if_splits)

lemma append_state_log_entries:
  assumes "log_from lo h df"
  shows "cd_state_log (append_state_log op df) =
         entries_from (if lo + MAX_STATE_LOG_ENTRIES = length h then lo + 1 else lo) (h @ [op])"
proof -
  have "cd_state_log df @ [\<lparr>se_sequence = cd_state_log_sequence df + 1, se_operation = op\<rparr>] = entries_from lo (h @ [op])"
    using assms by (simp add: log_from_def entries_from_append)
  moreover have "length (h @ [op]) - lo - MAX_STATE_LOG_ENTRIES = (if lo + MAX_STATE_LOG_ENTRIES = length h then 1 else 0)"
    using assms by (auto simp: log_from_def)
  moreover have "length (cd_state_log df) = length h - lo" using assms by (simp add: log_from_def)
  ultimately show ?thesis using assms by (auto simp: append_state_log_def Let_def drop_entries_from log_from_def)
qed

lemma log_from_append:
  assumes "log_from lo h df"
  shows "\<exists>lo'. log_from lo' (h @ [op]) (append_state_log op df)"
proof -
  have "log_from (if lo + MAX_STATE_LOG_ENTRIES = length h then lo + 1 else lo) (h @ [op]) (append_state_log op df)"
    using assms append_state_log_entries[OF assms, of op]
    by (auto simp: log_from_def append_state_log_def Let_def MAX_STATE_LOG_ENTRIES_def)
  then show ?thesis by blast
qed

lemma log_from_prune:
  assumes "log_from lo h df"
  shows "\<exists>lo'. log_from lo' h (prune_state_log df)"
proof -
  have "min_ack df \<le> length h"
    using assms min_ack_mem[of df] by (cases "cd_daemon_ack_sequence df = []") (auto simp: log_from_def min_ack_def)
  then have "log_from (max lo (min_ack df)) h (prune_state_log df)"
    using assms min_ack_le[of _ df] by (auto simp: log_from_def prune_state_log_def filter_entries_from max_def)
  then show ?thesis by blast
qed

lemma log_from_ack:
  assumes "log_from lo h df" "d \<in> set (cd_daemons df)" "ack_of d df \<le> a" "a \<le> length h"
  shows "log_from lo h (df\<lparr>cd_daemon_ack_sequence := bt_insert d a (cd_daemon_ack_sequence df)\<rparr>)"
proof -
  have "d \<in> fst ` set (cd_daemon_ack_sequence df)" using assms(1,2) by (auto simp: log_from_def)
  then have "(d, ack_of d df) \<in> set (cd_daemon_ack_sequence df)"
    by (auto simp: ack_of_def split: option.splits dest: map_of_SomeD simp: map_of_eq_None_iff)
  then have "lo \<le> a \<or> lo + MAX_STATE_LOG_ENTRIES \<le> length h"
    using assms(1,3) by (force simp: log_from_def)
  then show ?thesis
    using assms by (auto simp: log_from_def bt_insert_keys dest!: bt_insert_mem)
qed

lemma logged_log: "logged df h \<Longrightarrow> \<exists>lo. log_from lo h df"
proof (induction rule: logged.induct)
  case (logged_start df)
  then have "log_from 0 [] df" by (force simp: log_from_def entries_from_def)
  then show ?case by blast
next
  case (logged_ack df h d a)
  then obtain lo where lo: "log_from lo h df" by blast
  show ?case
  proof (cases "d \<in> set (cd_daemons df)")
    case True
    let ?a = "max (min a (cd_state_log_sequence df)) (ack_of d df)"
    have "ack_of d df \<le> length h"
      using lo by (auto simp: log_from_def ack_of_def split: option.splits dest!: map_of_SomeD)
    then have "?a \<le> length h" using lo by (auto simp: log_from_def)
    then show ?thesis
      using log_from_prune[OF log_from_ack[OF lo True]] True by (simp add: state_catch_up_ack_def)
  qed (use lo in \<open>auto simp: state_catch_up_ack_def\<close>)
next
  case (logged_replay df h d)
  then obtain lo where lo: "log_from lo h df" by blast
  have "ack_of d df \<le> length h"
    using lo by (auto simp: log_from_def ack_of_def split: option.splits dest!: map_of_SomeD)
  then show ?case
    using log_from_ack[OF lo logged_replay.hyps(2), of "length h"] lo
    by (auto simp: ack_full_replay_def log_from_def)
next
  case (logged_leave df h P)
  then show ?case by (auto simp: log_from_def)
qed (auto intro: log_from_append)

text \<open>
  C21. A daemon that was away gets exactly what it missed. Whatever sequence of parameter changes,
  acknowledgements, full replays and departures led to the state, the entries computed for a daemon
  of the dataflow are all operations after the one it acknowledged last, in order and numbered
  without a gap; only when more than ten thousand operations are missing is there no such list, and
  the coordinator falls back to a full replay. Sequence numbers fit their 64 bits.
\<close>
theorem catch_up_complete:
  assumes "logged df h" "d \<in> set (cd_daemons df)" "length h \<le> u64_max"
  shows "state_log_delta (ack_of d df) df =
         (if ack_of d df + MAX_STATE_LOG_ENTRIES < length h then None
          else Some (entries_from (ack_of d df) h))"
proof -
  obtain lo where lo: "log_from lo h df" using logged_log[OF assms(1)] by blast
  let ?a = "ack_of d df"
  have "d \<in> fst ` set (cd_daemon_ack_sequence df)" using lo assms(2) by (auto simp: log_from_def)
  then have "?a \<in> snd ` set (cd_daemon_ack_sequence df)"
    by (force simp: ack_of_def split: option.splits dest: map_of_SomeD simp: map_of_eq_None_iff)
  then have a: "?a \<le> length h" "lo \<le> ?a \<or> lo + MAX_STATE_LOG_ENTRIES = length h"
    using lo by (fastforce simp: log_from_def)+
  show ?thesis
  proof (cases "lo = length h")
    case True
    then show ?thesis using lo a by (auto simp: state_log_delta_def log_from_def entries_from_def MAX_STATE_LOG_ENTRIES_def)
  next
    case False
    then have "cd_state_log df = \<lparr>se_sequence = lo + 1, se_operation = h ! lo\<rparr> # entries_from (lo + 1) h"
      using lo by (simp add: log_from_def entries_from_def upt_conv_Cons)
    moreover have "saturating_add ?a 1 < lo + 1 \<longleftrightarrow> ?a < lo"
      using a(1) assms(3) False lo by (auto simp: saturating_add_def log_from_def)
    ultimately show ?thesis
      using a lo by (auto simp: state_log_delta_def log_from_def filter_entries_from max_def
          simp flip: entries_from_def split: list.splits)
  qed
qed

definition sample_dataflow :: co_dataflow where
  "sample_dataflow =
     \<lparr>cd_name = Some ''demo'', cd_uuid = 7, cd_descriptor = example_descriptor [],
      cd_daemons = [(None, 1), (None, 2)], cd_pending_daemons = [(None, 1), (None, 2)],
      cd_exited_before_subscribe = [], cd_nodes = [],
      cd_node_to_daemon = [(NodeId ''a'', (None, 1)), (NodeId ''b'', (None, 2))],
      cd_node_metrics = [], cd_network_metrics = None, cd_spawn_result = cached_default,
      cd_stop_reply_senders = [], cd_buffered_log_messages = [], cd_log_subscribers = [],
      cd_topic_subscribers = [], cd_pending_spawn_results = [(None, 1), (None, 2)], cd_created_at = 0,
      cd_store_generation = 0, cd_last_recovery_attempt = [], cd_last_replay_attempt = [], cd_uv = False,
      cd_state_log_sequence = 0, cd_state_log = [],
      cd_daemon_ack_sequence = [((None, 1), 0), ((None, 2), 0)]\<rparr>"

theorem catch_up_complete_witness:
  "let df = append_state_log (OpDeleteParam (NodeId ''a'') ''gain'')
              (state_catch_up_ack (None, 1) 1
                 (append_state_log (OpSetParam (NodeId ''a'') ''gain'' ''2'') sample_dataflow))
   in state_log_delta (ack_of (None, 1) df) df =
        Some [\<lparr>se_sequence = 2, se_operation = OpDeleteParam (NodeId ''a'') ''gain''\<rparr>]"
proof -
  let ?ops = "[OpSetParam (NodeId ''a'') ''gain'' ''2'', OpDeleteParam (NodeId ''a'') ''gain'']"
  let ?df = "append_state_log (OpDeleteParam (NodeId ''a'') ''gain'')
       (state_catch_up_ack (None, 1) 1 (append_state_log (OpSetParam (NodeId ''a'') ''gain'' ''2'') sample_dataflow))"
  have "logged sample_dataflow []" by (rule logged_start) (simp_all add: sample_dataflow_def)
  from logged_append[OF logged_ack[OF logged_append[OF this, of "?ops ! 0"], of "(None, 1)" 1], of "?ops ! 1"]
  have l: "logged ?df ?ops" by simp
  have d: "(None, 1) \<in> set (cd_daemons ?df)" and a: "ack_of (None, 1) ?df = 1"
    by (simp_all add: sample_dataflow_def append_state_log_def state_catch_up_ack_def prune_state_log_def ack_of_def
        MAX_STATE_LOG_ENTRIES_def Let_def)
  show ?thesis
    using catch_up_complete[OF l d] unfolding Let_def a
    by (simp add: MAX_STATE_LOG_ENTRIES_def entries_from_def upt_conv_Cons)
qed

end
