(* ===== verification/Coordinator_Handlers.thy ===== *)
theory Coordinator_Handlers
  imports Coordinator_State
begin

text \<open>
  The operations of the coordinator on several daemons
  (\<^verbatim>\<open>binaries/coordinator/src/handlers.rs\<close>, \<^verbatim>\<open>run/mod.rs\<close>, and the functions
  behind the event loop in \<^verbatim>\<open>lib.rs\<close>): spawning with a rollback, stopping, reloading, builds,
  streams of topic data, and the replay of persisted parameters.

  A handler takes the state of the coordinator and returns its result with the new state, also when
  it fails half-way. The commands that were handed to connections are a list, in order.
\<close>

section \<open>State\<close>

record 's coordinator =
  co_running_builds :: "(uuid \<times> running_build) list"
  co_finished_builds :: "(uuid \<times> cached_result) list"
  co_running :: "(uuid \<times> co_dataflow) list"
  co_results :: "(uuid \<times> (daemon_id \<times> node_results) list) list"
  co_archived :: "(uuid \<times> archived_dataflow) list"
  co_connections :: connections
  co_store :: 's
  co_sent :: "(daemon_id \<times> daemon_command) list"
  co_answers :: "(request \<times> control_result) list"
  co_log_lines :: "(nat \<times> log_message) list"
  co_frames :: "uuid list"
  co_replays :: "(uuid \<times> daemon_id \<times> node_id list) list"
  co_aborted :: bool

definition emit :: "daemon_id \<Rightarrow> daemon_command \<Rightarrow> 's coordinator \<Rightarrow> 's coordinator" where
  "emit d cmd co = co\<lparr>co_sent := co_sent co @ [(d, cmd)]\<rparr>"

definition set_running :: "uuid \<Rightarrow> co_dataflow \<Rightarrow> 's coordinator \<Rightarrow> 's coordinator" where
  "set_running u df co = co\<lparr>co_running := hm_insert u df (co_running co)\<rparr>"

text \<open>A command that is sent without waiting for a reply.\<close>

definition co_send :: "co_env \<Rightarrow> daemon_id \<Rightarrow> daemon_command \<Rightarrow> 's coordinator \<Rightarrow> bool \<times> 's coordinator" where
  "co_send env d cmd co = (if e_send env d then (True, emit d cmd co) else (False, co))"

text \<open>
  The reply to a command, decoded and matched against the variant that belongs to it. The selector
  gives the result of that variant and \<open>None\<close> for any other.
\<close>

type_synonym selector = "daemon_answer \<Rightarrow> string option option"

definition checked :: "selector \<Rightarrow> daemon_id \<Rightarrow> raw_answer \<Rightarrow> (co_error, unit) outcome" where
  "checked sel d ans =
     (case ans of
        NoAnswer \<Rightarrow> Err (AskFailed d)
      | Garbled \<Rightarrow> Err BadReply
      | Answer a \<Rightarrow>
          (case sel a of
             None \<Rightarrow> Err (UnexpectedReply a)
           | Some None \<Rightarrow> Ok ()
           | Some (Some e) \<Rightarrow> Err (DaemonRefused e)))"

definition command ::
    "co_env \<Rightarrow> selector \<Rightarrow> daemon_command \<Rightarrow> daemon_id \<Rightarrow> 's coordinator \<Rightarrow>
     (co_error, unit) outcome \<times> 's coordinator" where
  "command env sel cmd d co =
     (if map_of (co_connections co) d = None then (Err (NoDaemonConnection d), co)
      else (checked sel d (e_ask env d cmd), emit d cmd co))"

fun command_all ::
    "co_env \<Rightarrow> selector \<Rightarrow> daemon_command \<Rightarrow> daemon_id list \<Rightarrow> 's coordinator \<Rightarrow>
     (co_error, unit) outcome \<times> 's coordinator" where
  "command_all env sel cmd [] co = (Ok (), co)"
| "command_all env sel cmd (d # ds) co =
     (case command env sel cmd d co of
        (Ok _, co1) \<Rightarrow> command_all env sel cmd ds co1
      | r \<Rightarrow> r)"

fun stop_result :: selector where
  "stop_result (StopResult r) = Some r"
| "stop_result _ = None"

fun reload_result :: selector where
  "reload_result (ReloadResult r) = Some r"
| "reload_result _ = None"

fun restart_node_result :: selector where
  "restart_node_result (RestartNodeResult r) = Some r"
| "restart_node_result _ = None"

fun stop_node_result :: selector where
  "stop_node_result (StopNodeResult r) = Some r"
| "stop_node_result _ = None"

fun trigger_build_result :: selector where
  "trigger_build_result (TriggerBuildResult r) = Some r"
| "trigger_build_result _ = None"

fun trigger_spawn_result :: selector where
  "trigger_spawn_result (TriggerSpawnResult r) = Some r"
| "trigger_spawn_result _ = None"

fun destroy_result :: selector where
  "destroy_result (DestroyResult r) = Some r"
| "destroy_result _ = None"

fun set_param_result :: selector where
  "set_param_result (SetParamResult r) = Some r"
| "set_param_result _ = None"

fun delete_param_result :: selector where
  "delete_param_result (DeleteParamResult r) = Some r"
| "delete_param_result _ = None"

fun start_stream_result :: selector where
  "start_stream_result (StartTopicDebugStreamResult r) = Some r"
| "start_stream_result _ = None"

fun stop_stream_result :: selector where
  "stop_stream_result (StopTopicDebugStreamResult r) = Some r"
| "stop_stream_result _ = None"

section \<open>Names and results\<close>

definition resolve_name ::
    "string \<Rightarrow> (uuid \<times> co_dataflow) list \<Rightarrow> (uuid \<times> archived_dataflow) list \<Rightarrow> (co_error, uuid) outcome" where
  "resolve_name nm running archived =
     (let us = map fst (filter (\<lambda>(u, df). cd_name df = Some nm) running);
          as = map fst (filter (\<lambda>(u, ad). ad_name ad = Some nm) archived)
      in case us of
           [] \<Rightarrow> (case as of [] \<Rightarrow> Err (NoDataflowNamed nm) | [u] \<Rightarrow> Ok u | _ \<Rightarrow> Err (AmbiguousName nm))
         | [u] \<Rightarrow> Ok u
         | _ \<Rightarrow> Err (AmbiguousName nm))"

definition dataflow_result :: "(daemon_id \<times> node_results) list \<Rightarrow> node_results" where
  "dataflow_result results = fold (\<lambda>(d, r) m. bt_extend r m) results []"

section \<open>Stopping, reloading, single nodes\<close>

definition co_stop_dataflow ::
    "co_env \<Rightarrow> uuid \<Rightarrow> duration option \<Rightarrow> bool \<Rightarrow> 's coordinator \<Rightarrow>
     (co_error, co_dataflow) outcome \<times> 's coordinator" where
  "co_stop_dataflow env u grace force co =
     (case map_of (co_running co) u of
        None \<Rightarrow> (Err (UnknownDataflow u), co)
      | Some df \<Rightarrow>
          (case command_all env stop_result (CmdStopDataflow u grace force) (cd_daemons df) co of
             (Ok _, co1) \<Rightarrow> (Ok df, co1)
           | (Err e, co1) \<Rightarrow> (Err e, co1)
           | (Panic, co1) \<Rightarrow> (Panic, co1)))"

definition reload_dataflow ::
    "co_env \<Rightarrow> uuid \<Rightarrow> node_id \<Rightarrow> operator_id option \<Rightarrow> 's coordinator \<Rightarrow>
     (co_error, unit) outcome \<times> 's coordinator" where
  "reload_dataflow env u n op co =
     (case map_of (co_running co) u of
        None \<Rightarrow> (Err (UnknownDataflow u), co)
      | Some df \<Rightarrow> command_all env reload_result (CmdReloadDataflow u n op) (cd_daemons df) co)"

definition dispatch_node_command ::
    "co_env \<Rightarrow> selector \<Rightarrow> uuid \<Rightarrow> node_id \<Rightarrow> daemon_command \<Rightarrow> 's coordinator \<Rightarrow>
     (co_error, unit) outcome \<times> 's coordinator" where
  "dispatch_node_command env sel u n cmd co =
     (case map_of (co_running co) u of
        None \<Rightarrow> (Err (UnknownDataflow u), co)
      | Some df \<Rightarrow>
          (case map_of (cd_node_to_daemon df) n of
             None \<Rightarrow> (Err (NodeUnknown n), co)
           | Some d \<Rightarrow> command env sel cmd d co))"

definition co_restart_node ::
    "co_env \<Rightarrow> uuid \<Rightarrow> node_id \<Rightarrow> duration option \<Rightarrow> 's coordinator \<Rightarrow>
     (co_error, unit) outcome \<times> 's coordinator" where
  "co_restart_node env u n g co =
     dispatch_node_command env restart_node_result u n (CmdRestartNode u n g) co"

definition co_stop_node ::
    "co_env \<Rightarrow> uuid \<Rightarrow> node_id \<Rightarrow> duration option \<Rightarrow> 's coordinator \<Rightarrow>
     (co_error, unit) outcome \<times> 's coordinator" where
  "co_stop_node env u n g co = dispatch_node_command env stop_node_result u n (CmdStopNode u n g) co"

definition retrieve_logs ::
    "co_env \<Rightarrow> uuid \<Rightarrow> node_id \<Rightarrow> nat option \<Rightarrow> 's coordinator \<Rightarrow>
     (co_error, string) outcome \<times> 's coordinator" where
  "retrieve_logs env u n tail co =
     (case (case map_of (co_archived co) u of
              Some ad \<Rightarrow> Some (ad_nodes ad)
            | None \<Rightarrow> map_option cd_nodes (map_of (co_running co) u)) of
        None \<Rightarrow> (Err (UnknownDataflow u), co)
      | Some ns \<Rightarrow>
          (case map (\<lambda>(i, r). Option.bind (rn_deploy r) machine) (filter (\<lambda>(i, r). rn_id r = n) ns) of
             [] \<Rightarrow> (Err (NodeUnknown n), co)
           | [m] \<Rightarrow>
               (case (case m of
                        None \<Rightarrow> unnamed (co_connections co)
                      | Some mid \<Rightarrow>
                          (case get_matching_daemon_id mid (co_connections co) of None \<Rightarrow> [] | Some d \<Rightarrow> [d])) of
                  [d] \<Rightarrow>
                    (let cmd = CmdLogs u n tail
                     in (case e_ask env d cmd of
                           NoAnswer \<Rightarrow> Err (AskFailed d)
                         | Garbled \<Rightarrow> Err BadReply
                         | Answer (LogsResult (Ok bytes)) \<Rightarrow> Ok bytes
                         | Answer (LogsResult (Err e)) \<Rightarrow> Err (DaemonRefused e)
                         | Answer a \<Rightarrow> Err (UnexpectedReply a), emit d cmd co))
                | _ \<Rightarrow> (Err NoMatchingDaemon, co))
           | _ \<Rightarrow> (Err (NodeAmbiguous n), co)))"

section \<open>Spawning\<close>

text \<open>The nodes by the daemon that shall run them.\<close>

definition group_by_daemon ::
    "connections \<Rightarrow> (node_id \<times> resolved_node) list \<Rightarrow>
     (co_error, (daemon_id \<times> resolved_node list) list) outcome" where
  "group_by_daemon cs ns =
     try_fold (\<lambda>(i, n) m. and_then (resolve_daemon cs (rn_deploy n)) (\<lambda>d.
       Ok (bt_entry d [] (\<lambda>l. l @ [n]) m))) ns []"

text \<open>
  The rollback sends a forced stop to each daemon that was started, whatever the others answer, and
  returns the daemons where it failed.
\<close>

fun rollback_spawned_daemons ::
    "co_env \<Rightarrow> uuid \<Rightarrow> daemon_id list \<Rightarrow> 's coordinator \<Rightarrow> daemon_id list \<times> 's coordinator" where
  "rollback_spawned_daemons env u [] co = ([], co)"
| "rollback_spawned_daemons env u (d # ds) co =
     (let (r, co1) = command env stop_result (CmdStopDataflow u None True) d co;
          (failed, co2) = rollback_spawned_daemons env u ds co1
      in (if is_ok r then failed else d # failed, co2))"

record spawned_dataflow =
  sd_uuid :: uuid
  sd_daemons :: "daemon_id list"
  sd_nodes :: "(node_id \<times> resolved_node) list"
  sd_node_to_daemon :: "(node_id \<times> daemon_id) list"

fun spawn_each ::
    "co_env \<Rightarrow> (node_id list \<Rightarrow> spawn_command) \<Rightarrow> uuid \<Rightarrow> (daemon_id \<times> resolved_node list) list \<Rightarrow>
     daemon_id list \<Rightarrow> (node_id \<times> daemon_id) list \<Rightarrow> 's coordinator \<Rightarrow>
     (co_error, daemon_id list \<times> (node_id \<times> daemon_id) list) outcome \<times> 's coordinator" where
  "spawn_each env mk u [] daemons n2d co = (Ok (daemons, n2d), co)"
| "spawn_each env mk u ((d, ns) # gs) daemons n2d co =
     (if map_of (co_connections co) d = None then (Err (NoDaemonConnection d), co)
      else case command env trigger_spawn_result (CmdSpawn (mk (bs_collect (map rn_id ns)))) d co of
             (Ok _, co1) \<Rightarrow>
               spawn_each env mk u gs (bs_insert d daemons)
                 (fold (\<lambda>n m. bt_insert (rn_id n) d m) ns n2d) co1
           | (_, co1) \<Rightarrow>
               (let (failed, co2) = rollback_spawned_daemons env u daemons co1
                in (Err (SpawnRolledBack d failed), co2)))"

definition co_spawn_dataflow ::
    "co_env \<Rightarrow> uuid option \<Rightarrow> descriptor \<Rightarrow> string option \<Rightarrow> bool \<Rightarrow> string option \<Rightarrow> 's coordinator \<Rightarrow>
     (co_error, spawned_dataflow) outcome \<times> 's coordinator" where
  "co_spawn_dataflow env build desc wd uv events co =
     (case resolve_aliases_and_set_defaults (e_ros2_json env) desc of
        Err e \<Rightarrow> (Err (ResolveFailed e), co)
      | Panic \<Rightarrow> (Panic, co)
      | Ok ns \<Rightarrow>
          (let u = e_fresh env;
               mk = (\<lambda>sn. \<lparr>sc_build_id = build, sc_dataflow_id = u, sc_local_working_dir = wd, sc_nodes = ns,
                      sc_descriptor = desc, sc_spawn_nodes = sn, sc_uv = uv, sc_write_events_to = events\<rparr>)
           in case group_by_daemon (co_connections co) ns of
                Err e \<Rightarrow> (Err e, co)
              | Panic \<Rightarrow> (Panic, co)
              | Ok gs \<Rightarrow>
                  (case spawn_each env mk u gs [] [] co of
                     (Ok (ds, n2d), co1) \<Rightarrow>
                       (Ok \<lparr>sd_uuid = u, sd_daemons = ds, sd_nodes = ns, sd_node_to_daemon = n2d\<rparr>, co1)
                   | (Err e, co1) \<Rightarrow> (Err e, co1)
                   | (Panic, co1) \<Rightarrow> (Panic, co1))))"

definition dataflow_of_spawned ::
    "co_env \<Rightarrow> descriptor \<Rightarrow> string option \<Rightarrow> bool \<Rightarrow> spawned_dataflow \<Rightarrow> co_dataflow" where
  "dataflow_of_spawned env desc nm uv sd =
     \<lparr>cd_name = nm, cd_uuid = sd_uuid sd, cd_descriptor = desc, cd_daemons = sd_daemons sd,
      cd_pending_daemons = (if length (sd_daemons sd) > 1 then sd_daemons sd else []),
      cd_exited_before_subscribe = [], cd_nodes = sd_nodes sd, cd_node_to_daemon = sd_node_to_daemon sd,
      cd_node_metrics = [], cd_network_metrics = None, cd_spawn_result = cached_default,
      cd_stop_reply_senders = [], cd_buffered_log_messages = [], cd_log_subscribers = [],
      cd_topic_subscribers = [], cd_pending_spawn_results = sd_daemons sd, cd_created_at = e_now_ms env,
      cd_store_generation = 0, cd_last_recovery_attempt = [], cd_last_replay_attempt = [], cd_uv = uv,
      cd_state_log_sequence = 0, cd_state_log = [],
      cd_daemon_ack_sequence = map (\<lambda>d. (d, 0)) (sd_daemons sd)\<rparr>"

definition co_start_dataflow ::
    "co_env \<Rightarrow> uuid option \<Rightarrow> descriptor \<Rightarrow> string option \<Rightarrow> string option \<Rightarrow> bool \<Rightarrow> string option \<Rightarrow>
     's coordinator \<Rightarrow> (co_error, co_dataflow) outcome \<times> 's coordinator" where
  "co_start_dataflow env build desc wd nm uv events co =
     (case co_spawn_dataflow env build desc wd uv events co of
        (Ok sd, co1) \<Rightarrow> (Ok (dataflow_of_spawned env desc nm uv sd), co1)
      | (Err e, co1) \<Rightarrow> (Err e, co1)
      | (Panic, co1) \<Rightarrow> (Panic, co1))"

text \<open>
  A restart asks all daemons to stop, starts the dataflow again under a new identifier, and only then
  forgets the old one.
\<close>

definition restart_dataflow ::
    "co_env \<Rightarrow> 's store_ops \<Rightarrow> uuid \<Rightarrow> duration option \<Rightarrow> bool \<Rightarrow> 's coordinator \<Rightarrow>
     control_result \<times> 's coordinator" where
  "restart_dataflow env ops u grace force co =
     (case co_stop_dataflow env u grace force co of
        (Err e, co1) \<Rightarrow> (Err e, co1)
      | (Panic, co1) \<Rightarrow> (Panic, co1)
      | (Ok df, co1) \<Rightarrow>
          (let (df', s) = persist env ops StStopping df (co_store co1);
               co2 = set_running u df' (co1\<lparr>co_store := s\<rparr>)
           in case co_start_dataflow env None (cd_descriptor df) None (cd_name df) (cd_uv df) None co2 of
                (Err e, co3) \<Rightarrow> (Err e, co3)
              | (Panic, co3) \<Rightarrow> (Panic, co3)
              | (Ok new, co3) \<Rightarrow>
                  (let co4 = co3\<lparr>co_running := hm_remove u (co_running co3)\<rparr>;
                       (new', s') = persist env ops StPending new (co_store co4)
                   in (Ok (DataflowRestarted u (cd_uuid new)),
                       set_running (cd_uuid new) new' (co4\<lparr>co_store := s'\<rparr>)))))"

section \<open>Building\<close>

definition group_ids_by_daemon ::
    "connections \<Rightarrow> (node_id \<times> resolved_node) list \<Rightarrow> (co_error, (daemon_id \<times> node_id list) list) outcome" where
  "group_ids_by_daemon cs ns =
     try_fold (\<lambda>(i, n) m. and_then (resolve_daemon cs (rn_deploy n)) (\<lambda>d.
       Ok (bt_entry d [] (\<lambda>l. l @ [i]) m))) ns []"

definition sources_of :: "node_id list \<Rightarrow> (node_id \<times> string) list \<Rightarrow> (node_id \<times> string) list" where
  "sources_of ids srcs =
     bt_collect (concat (map (\<lambda>i. case map_of srcs i of None \<Rightarrow> [] | Some g \<Rightarrow> [(i, g)]) ids))"

fun build_each ::
    "co_env \<Rightarrow> (node_id list \<Rightarrow> build_command) \<Rightarrow> (daemon_id \<times> node_id list) list \<Rightarrow> daemon_id list \<Rightarrow>
     's coordinator \<Rightarrow> (co_error, daemon_id list) outcome \<times> 's coordinator" where
  "build_each env mk [] daemons co = (Ok daemons, co)"
| "build_each env mk ((d, ids) # gs) daemons co =
     (case command env trigger_build_result (CmdBuild (mk ids)) d co of
        (Ok _, co1) \<Rightarrow> build_each env mk gs (bs_insert d daemons) co1
      | (Err e, co1) \<Rightarrow> (Err e, co1)
      | (Panic, co1) \<Rightarrow> (Panic, co1))"

definition build_dataflow ::
    "co_env \<Rightarrow> uuid \<Rightarrow> descriptor \<Rightarrow> (node_id \<times> string) list \<Rightarrow> (node_id \<times> string) list \<Rightarrow> string option \<Rightarrow>
     bool \<Rightarrow> 's coordinator \<Rightarrow> (co_error, running_build) outcome \<times> 's coordinator" where
  "build_dataflow env b desc srcs prev wd uv co =
     (case resolve_aliases_and_set_defaults (e_ros2_json env) desc of
        Err e \<Rightarrow> (Err (ResolveFailed e), co)
      | Panic \<Rightarrow> (Panic, co)
      | Ok ns \<Rightarrow>
          (case group_ids_by_daemon (co_connections co) ns of
             Err e \<Rightarrow> (Err e, co)
           | Panic \<Rightarrow> (Panic, co)
           | Ok gs \<Rightarrow>
               (let mk = (\<lambda>ids. \<lparr>bc_build_id = b, bc_local_working_dir = wd,
                      bc_git_sources = sources_of ids srcs, bc_prev_git_sources = sources_of ids prev,
                      bc_descriptor = desc, bc_nodes_on_machine = bs_collect ids, bc_uv = uv\<rparr>)
                in case build_each env mk gs [] co of
                     (Ok ds, co1) \<Rightarrow>
                       (Ok \<lparr>rb_errors = [], rb_build_result = cached_default, rb_buffered_log_messages = [],
                          rb_log_subscribers = [], rb_pending_build_results = ds\<rparr>, co1)
                   | (Err e, co1) \<Rightarrow> (Err e, co1)
                   | (Panic, co1) \<Rightarrow> (Panic, co1))))"

section \<open>Destroying\<close>

text \<open>The commands go out to all daemons; the first error in the order of the daemons is the result.\<close>

fun first_error :: "(co_error, unit) outcome list \<Rightarrow> (co_error, unit) outcome" where
  "first_error [] = Ok ()"
| "first_error (r # rs) = (if is_ok r then first_error rs else r)"

definition destroy_daemons :: "co_env \<Rightarrow> 's coordinator \<Rightarrow> (co_error, unit) outcome \<times> 's coordinator" where
  "destroy_daemons env co =
     (let ds = map fst (co_connections co)
      in (first_error (map (\<lambda>d. checked destroy_result d (e_ask env d CmdDestroy)) ds),
          co\<lparr>co_connections := [], co_sent := co_sent co @ map (\<lambda>d. (d, CmdDestroy)) ds\<rparr>))"

fun persist_all :: "co_env \<Rightarrow> 's store_ops \<Rightarrow> stored_status \<Rightarrow> uuid list \<Rightarrow> 's coordinator \<Rightarrow> 's coordinator" where
  "persist_all env ops st [] co = co"
| "persist_all env ops st (u # us) co =
     (case map_of (co_running co) u of
        None \<Rightarrow> persist_all env ops st us co
      | Some df \<Rightarrow>
          (let (df', s) = persist env ops st df (co_store co)
           in persist_all env ops st us (set_running u df' (co\<lparr>co_store := s\<rparr>))))"

fun stop_each :: "co_env \<Rightarrow> uuid list \<Rightarrow> 's coordinator \<Rightarrow> (co_error, unit) outcome \<times> 's coordinator" where
  "stop_each env [] co = (Ok (), co)"
| "stop_each env (u # us) co =
     (case co_stop_dataflow env u None False co of
        (Ok _, co1) \<Rightarrow> stop_each env us co1
      | (Err e, co1) \<Rightarrow> (Err e, co1)
      | (Panic, co1) \<Rightarrow> (Panic, co1))"

definition handle_destroy ::
    "co_env \<Rightarrow> 's store_ops \<Rightarrow> 's coordinator \<Rightarrow> (co_error, unit) outcome \<times> 's coordinator" where
  "handle_destroy env ops co =
     (let co1 = persist_all env ops StStopping (map fst (co_running co)) (co\<lparr>co_aborted := True\<rparr>)
      in case stop_each env (map fst (co_running co1)) co1 of
           (Ok _, co2) \<Rightarrow> destroy_daemons env co2
         | r \<Rightarrow> r)"

section \<open>Streams of topic data\<close>

definition topic_outputs_by_daemon ::
    "uuid \<Rightarrow> topic list \<Rightarrow> 's coordinator \<Rightarrow> (co_error, (daemon_id \<times> topic list) list) outcome" where
  "topic_outputs_by_daemon u tps co =
     (case map_of (co_running co) u of
        None \<Rightarrow> Err (UnknownDataflow u)
      | Some df \<Rightarrow>
          try_fold (\<lambda>(n, o') m.
            if \<not> list_ex (\<lambda>x. id_of x = n \<and> o' \<in> set (outputs (node_run x))) (nodes (cd_descriptor df))
            then Err (OutputUnknown n o')
            else and_then (ok_or (NodeUnknown n) (map_of (cd_node_to_daemon df) n)) (\<lambda>d.
              Ok (bt_entry d [] (\<lambda>l. l @ [(n, o')]) m))) tps [])"

definition topic_debug_enabled :: "uuid \<Rightarrow> 's coordinator \<Rightarrow> (co_error, bool) outcome" where
  "topic_debug_enabled u co =
     (case map_of (co_running co) u of
        None \<Rightarrow> Err (UnknownDataflow u)
      | Some df \<Rightarrow> Ok (enable_debug_inspection (cd_descriptor df)))"

definition update_topics ::
    "uuid \<Rightarrow> ((uuid \<times> topic_subscriber) list \<Rightarrow> (uuid \<times> topic_subscriber) list) \<Rightarrow> 's coordinator \<Rightarrow> 's coordinator" where
  "update_topics u f co =
     (case map_of (co_running co) u of
        None \<Rightarrow> co
      | Some df \<Rightarrow> set_running u (df\<lparr>cd_topic_subscribers := f (cd_topic_subscribers df)\<rparr>) co)"

text \<open>
  The rollback stops the stream on the daemons that started it. A daemon without connection is
  skipped, an error of a daemon is only logged, but a failure to reach one ends the rollback.
\<close>

fun rollback_streams ::
    "co_env \<Rightarrow> uuid \<Rightarrow> uuid \<Rightarrow> daemon_id list \<Rightarrow> 's coordinator \<Rightarrow> (co_error, unit) outcome \<times> 's coordinator" where
  "rollback_streams env u sub [] co = (Ok (), co)"
| "rollback_streams env u sub (d # ds) co =
     (if map_of (co_connections co) d = None then rollback_streams env u sub ds co
      else let cmd = CmdStopTopicDebugStream u sub; co1 = emit d cmd co
           in case e_ask env d cmd of
                NoAnswer \<Rightarrow> (Err (AskFailed d), co1)
              | Garbled \<Rightarrow> (Err BadReply, co1)
              | Answer _ \<Rightarrow> rollback_streams env u sub ds co1)"

definition rollback_topic_debug_stream ::
    "co_env \<Rightarrow> uuid \<Rightarrow> uuid \<Rightarrow> daemon_id list \<Rightarrow> 's coordinator \<Rightarrow> (co_error, unit) outcome \<times> 's coordinator" where
  "rollback_topic_debug_stream env u sub started co =
     (case map_of (co_running co) u of
        None \<Rightarrow> (Ok (), co)
      | Some df \<Rightarrow>
          if map_of (cd_topic_subscribers df) sub = None then (Ok (), co)
          else rollback_streams env u sub started (update_topics u (bt_remove sub) co))"

definition co_start_topic_debug_stream ::
    "co_env \<Rightarrow> uuid \<Rightarrow> topic list \<Rightarrow> nat \<Rightarrow> 's coordinator \<Rightarrow> (co_error, uuid) outcome \<times> 's coordinator" where
  "co_start_topic_debug_stream env u tps sender co =
     (case topic_outputs_by_daemon u tps co of
        Err e \<Rightarrow> (Err e, co)
      | Panic \<Rightarrow> (Panic, co)
      | Ok outs \<Rightarrow>
          (case topic_debug_enabled u co of
             Ok True \<Rightarrow>
               (let sub = e_fresh env;
                    co1 = update_topics u (bt_insert sub (topic_subscriber_new outs sender)) co
                in case List.find (\<lambda>d. map_of (co_connections co) d = None) (map fst outs) of
                     Some d \<Rightarrow> (Err (NoDaemonConnection d), co1)
                   | None \<Rightarrow>
                       (let cmd = (\<lambda>os. CmdStartTopicDebugStream u os sub);
                            co2 = co1\<lparr>co_sent := co_sent co1 @ map (\<lambda>(d, os). (d, cmd os)) outs\<rparr>;
                            rs = map (\<lambda>(d, os). (d, checked start_stream_result d (e_ask env d (cmd os)))) outs;
                            started = map fst (filter (\<lambda>(d, r). is_ok r) rs)
                        in case first_error (map snd rs) of
                             Ok _ \<Rightarrow> (Ok sub, co2)
                           | Err e \<Rightarrow>
                               (case rollback_topic_debug_stream env u sub started co2 of
                                  (Ok _, co3) \<Rightarrow> (Err e, co3)
                                | (Err e', co3) \<Rightarrow> (Err e', co3)
                                | (Panic, co3) \<Rightarrow> (Panic, co3))
                           | Panic \<Rightarrow> (Panic, co2)))
           | Ok False \<Rightarrow> (Err DebugDisabled, co)
           | Err e \<Rightarrow> (Err e, co)
           | Panic \<Rightarrow> (Panic, co)))"

definition co_stop_topic_debug_stream ::
    "co_env \<Rightarrow> uuid \<Rightarrow> 's coordinator \<Rightarrow> (co_error, unit) outcome \<times> 's coordinator" where
  "co_stop_topic_debug_stream env sub co =
     (case List.find (\<lambda>(u, df). map_of (cd_topic_subscribers df) sub \<noteq> None) (co_running co) of
        None \<Rightarrow> (Ok (), co)
      | Some (u, df) \<Rightarrow>
          (let outs = ts_outputs_by_daemon (the (map_of (cd_topic_subscribers df) sub));
               ds = filter (\<lambda>d. map_of (co_connections co) d \<noteq> None) (map fst outs);
               cmd = CmdStopTopicDebugStream u sub;
               co1 = update_topics u (bt_remove sub) co
           in (first_error (map (\<lambda>d. checked stop_stream_result d (e_ask env d cmd)) ds),
               co1\<lparr>co_sent := co_sent co1 @ map (\<lambda>d. (d, cmd)) ds\<rparr>)))"

definition close_topic_subscribers_on_finish :: "co_dataflow \<Rightarrow> co_dataflow" where
  "close_topic_subscribers_on_finish df =
     df\<lparr>cd_topic_subscribers := map (\<lambda>(i, s). (i, ts_close s)) (cd_topic_subscribers df)\<rparr>"

definition restore_topic_debug_streams_for_daemon ::
    "daemon_id \<Rightarrow> uuid list \<Rightarrow> 's coordinator \<Rightarrow> 's coordinator" where
  "restore_topic_debug_streams_for_daemon d reported co =
     (if map_of (co_connections co) d = None then co
      else co\<lparr>co_sent := co_sent co @ concat (map (\<lambda>(u, df).
             if u \<notin> set reported then []
             else concat (map (\<lambda>(sub, s).
               case map_of (ts_outputs_by_daemon s) d of
                 None \<Rightarrow> []
               | Some os \<Rightarrow> [(d, CmdStartTopicDebugStream u os sub)]) (cd_topic_subscribers df))) (co_running co))\<rparr>)"

section \<open>Replay of persisted parameters\<close>

definition collect_param_replay_items ::
    "'s store_ops \<Rightarrow> uuid \<Rightarrow> node_id list \<Rightarrow> 's \<Rightarrow> (node_id \<times> string \<times> string) list" where
  "collect_param_replay_items ops u ns s =
     concat (map (\<lambda>n. case so_list_node_params ops u n s of
                        Ok ps \<Rightarrow> map (\<lambda>(k, b). (n, k, b)) ps
                      | _ \<Rightarrow> []) ns)"

definition build_set_param_message_from_raw_json ::
    "co_env \<Rightarrow> uuid \<Rightarrow> node_id \<Rightarrow> string \<Rightarrow> string \<Rightarrow> daemon_command option" where
  "build_set_param_message_from_raw_json env u n k b = map_option (CmdSetParam u n k) (e_value env b)"

record param_replay_summary =
  rs_attempted :: nat
  rs_failed :: nat

text \<open>One item: whether it was applied, and the command that was sent.\<close>

definition replay_item ::
    "co_env \<Rightarrow> uuid \<Rightarrow> daemon_id \<Rightarrow> node_id \<times> string \<times> string \<Rightarrow> bool \<times> daemon_command list" where
  "replay_item env u d item =
     (case item of (n, k, b) \<Rightarrow>
        (case build_set_param_message_from_raw_json env u n k b of
           None \<Rightarrow> (False, [])
         | Some cmd \<Rightarrow> (is_ok (checked set_param_result d (e_ask env d cmd)), [cmd])))"

definition replay_persisted_params_for_daemon ::
    "co_env \<Rightarrow> 's store_ops \<Rightarrow> uuid \<Rightarrow> daemon_id \<Rightarrow> node_id list \<Rightarrow> 's coordinator \<Rightarrow>
     param_replay_summary \<times> 's coordinator" where
  "replay_persisted_params_for_daemon env ops u d ns co =
     (let rs = map (replay_item env u d) (collect_param_replay_items ops u ns (co_store co))
      in (\<lparr>rs_attempted = length rs, rs_failed = length (filter (\<lambda>r. \<not> fst r) rs)\<rparr>,
          co\<lparr>co_sent := co_sent co @ map (\<lambda>cmd. (d, cmd)) (concat (map snd rs))\<rparr>))"

definition nodes_on_daemon :: "daemon_id \<Rightarrow> co_dataflow \<Rightarrow> node_id list" where
  "nodes_on_daemon d df = map fst (filter (\<lambda>(n, d'). d' = d) (cd_node_to_daemon df))"

text \<open>The replays run as tasks of their own; here they are only put on the list of tasks.\<close>

definition schedule_param_replay_for_ready_dataflow ::
    "uuid \<Rightarrow> co_dataflow \<Rightarrow> 's coordinator \<Rightarrow> 's coordinator" where
  "schedule_param_replay_for_ready_dataflow u df co =
     co\<lparr>co_replays := co_replays co @ map (\<lambda>d. (u, d, nodes_on_daemon d df))
          (filter (\<lambda>d. map_of (co_connections co) d \<noteq> None) (cd_daemons df))\<rparr>"

definition FALLBACK_REPLAY_BACKOFF :: nat where
  "FALLBACK_REPLAY_BACKOFF = 5000000000"

definition handle_pruned_state_catchup_fallback ::
    "co_env \<Rightarrow> 's store_ops \<Rightarrow> uuid \<Rightarrow> daemon_id \<Rightarrow> co_dataflow \<Rightarrow> 's coordinator \<Rightarrow> co_dataflow \<times> 's coordinator" where
  "handle_pruned_state_catchup_fallback env ops u d df co =
     (if (case map_of (cd_last_replay_attempt df) d of
            None \<Rightarrow> False
          | Some t \<Rightarrow> e_now env - t < FALLBACK_REPLAY_BACKOFF) then (df, co)
      else if map_of (co_connections co) d = None then (df, co)
      else let df1 = df\<lparr>cd_last_replay_attempt := bt_insert d (e_now env) (cd_last_replay_attempt df)\<rparr>;
               (summary, co1) = replay_persisted_params_for_daemon env ops u d (nodes_on_daemon d df) co
           in (if rs_failed summary = 0 then ack_full_replay d df1 else df1, co1))"

section \<open>Which daemon a node runs on\<close>

lemma first_of_mem: "first_of xs = Some x \<Longrightarrow> x \<in> set xs"
  by (cases xs) (auto simp: first_of_def)

lemma resolve_daemon_connected:
  assumes "resolve_daemon cs dep = Ok d"
  shows "d \<in> fst ` set cs"
proof -
  have 1: "first_of (unnamed cs) = Some d \<Longrightarrow> ?thesis"
    by (auto dest!: first_of_mem simp: unnamed_def)
  have 2: "get_matching_daemon_id m cs = Some d \<Longrightarrow> ?thesis" for m
    by (auto simp: get_matching_daemon_id_def dest!: find_SomeD)
  have 3: "get_matching_daemon_by_labels ls cs = Some d \<Longrightarrow> ?thesis" for ls
    by (auto simp: get_matching_daemon_by_labels_def dest!: find_SomeD) force
  show ?thesis
    using assms 1 2 3 by (auto simp: resolve_daemon_def ok_or_def split: option.splits if_splits)
qed

lemma group_by_daemon_fold:
  assumes "try_fold (\<lambda>(i, n) m. and_then (resolve_daemon cs (rn_deploy n)) (\<lambda>d.
      Ok (bt_entry d [] (\<lambda>l. l @ [n]) m))) ns m0 = Ok gs" "bt_wf m0"
  shows "bt_wf gs \<and> fst ` set gs \<subseteq> fst ` set m0 \<union> fst ` set cs \<and>
    map_of gs d = (case filter (\<lambda>n. resolve_daemon cs (rn_deploy n) = Ok d) (map snd ns) of
      [] \<Rightarrow> map_of m0 d
    | xs \<Rightarrow> Some ((case map_of m0 d of None \<Rightarrow> [] | Some l \<Rightarrow> l) @ xs)) \<and>
    (\<forall>(i, n) \<in> set ns. is_ok (resolve_daemon cs (rn_deploy n)))"
  using assms
proof (induction ns arbitrary: m0)
  case (Cons p ns)
  obtain i n where p: "p = (i, n)" by (cases p)
  then obtain d' where d': "resolve_daemon cs (rn_deploy n) = Ok d'" and
    rest: "try_fold (\<lambda>(i, n) m. and_then (resolve_daemon cs (rn_deploy n)) (\<lambda>d.
      Ok (bt_entry d [] (\<lambda>l. l @ [n]) m))) ns (bt_entry d' [] (\<lambda>l. l @ [n]) m0) = Ok gs"
    using Cons.prems by auto
  have keys: "fst ` set (bt_entry d' [] (\<lambda>l. l @ [n]) m0) = insert d' (fst ` set m0)"
    by (simp add: bt_entry_def bt_insert_keys)
  show ?case
    using Cons.IH[OF rest] Cons.prems(2) resolve_daemon_connected[OF d'] d' p keys
    by (auto split: list.splits option.splits)
qed auto

lemma group_by_daemon_Ok:
  assumes "group_by_daemon cs ns = Ok gs"
  shows "bt_wf gs" "fst ` set gs \<subseteq> fst ` set cs"
    "\<And>d xs. (d, xs) \<in> set gs \<longleftrightarrow> xs = filter (\<lambda>n. resolve_daemon cs (rn_deploy n) = Ok d) (map snd ns) \<and> xs \<noteq> []"
    "\<And>i n. (i, n) \<in> set ns \<Longrightarrow> \<exists>d. resolve_daemon cs (rn_deploy n) = Ok d"
proof -
  note f = group_by_daemon_fold[OF assms[unfolded group_by_daemon_def] bt_wf_Nil]
  show wf: "bt_wf gs" "fst ` set gs \<subseteq> fst ` set cs" using f[of undefined] by auto
  show "(d, xs) \<in> set gs \<longleftrightarrow> xs = filter (\<lambda>n. resolve_daemon cs (rn_deploy n) = Ok d) (map snd ns) \<and> xs \<noteq> []" for d xs
    using f[of d] bt_collect_sorted_id[OF wf(1), of d xs] by (auto split: list.splits)
  show "\<exists>d. resolve_daemon cs (rn_deploy n) = Ok d" if "(i, n) \<in> set ns" for i n
    using f[of undefined] that by (auto simp: is_ok_iff)
qed

section \<open>Spawning, in closed form\<close>

lemma connected_iff: "map_of cs d \<noteq> None \<longleftrightarrow> d \<in> fst ` set cs"
  by (simp add: map_of_eq_None_iff)

definition stop_fails :: "co_env \<Rightarrow> uuid \<Rightarrow> daemon_id \<Rightarrow> bool" where
  "stop_fails env u d \<longleftrightarrow> \<not> is_ok (checked stop_result d (e_ask env d (CmdStopDataflow u None True)))"

lemma rollback_closed:
  "set ds \<subseteq> fst ` set (co_connections co) \<Longrightarrow>
   rollback_spawned_daemons env u ds co =
     (filter (stop_fails env u) ds,
      co\<lparr>co_sent := co_sent co @ map (\<lambda>d. (d, CmdStopDataflow u None True)) ds\<rparr>)"
proof (induction ds arbitrary: co)
  case (Cons d ds)
  then obtain c where "map_of (co_connections co) d = Some c"
    using connected_iff[of "co_connections co" d] by auto
  with Cons show ?case by (simp add: command_def emit_def stop_fails_def)
qed simp

definition spawn_of :: "(node_id list \<Rightarrow> spawn_command) \<Rightarrow> daemon_id \<times> resolved_node list \<Rightarrow> daemon_id \<times> daemon_command" where
  "spawn_of mk g = (fst g, CmdSpawn (mk (bs_collect (map rn_id (snd g)))))"

definition spawn_accepted :: "co_env \<Rightarrow> (node_id list \<Rightarrow> spawn_command) \<Rightarrow> daemon_id \<times> resolved_node list \<Rightarrow> bool" where
  "spawn_accepted env mk g \<longleftrightarrow>
     is_ok (checked trigger_spawn_result (fst g) (e_ask env (fst g) (snd (spawn_of mk g))))"

lemma checked_no_Panic [simp]: "checked sel d a \<noteq> Panic"
  by (auto simp: checked_def split: raw_answer.splits option.splits)

lemma spawn_each_closed:
  assumes "fst ` set gs \<subseteq> fst ` set (co_connections co)" "set ds \<subseteq> fst ` set (co_connections co)"
  shows "spawn_each env mk u gs ds n2d co =
    (let ok = takeWhile (spawn_accepted env mk) gs; ds' = fold bs_insert (map fst ok) ds
     in case dropWhile (spawn_accepted env mk) gs of
          [] \<Rightarrow> (Ok (ds', fold (\<lambda>(d, ns) m. fold (\<lambda>n m. bt_insert (rn_id n) d m) ns m) gs n2d),
                co\<lparr>co_sent := co_sent co @ map (spawn_of mk) gs\<rparr>)
        | g # _ \<Rightarrow> (Err (SpawnRolledBack (fst g) (filter (stop_fails env u) ds')),
                co\<lparr>co_sent := co_sent co @ map (spawn_of mk) (ok @ [g]) @
                     map (\<lambda>d. (d, CmdStopDataflow u None True)) ds'\<rparr>))"
  using assms
proof (induction gs arbitrary: ds n2d co)
  case (Cons g gs)
  obtain d ns where g: "g = (d, ns)" by (cases g)
  obtain c where con: "map_of (co_connections co) d = Some c"
    using Cons.prems(1) g connected_iff[of "co_connections co" d] by auto
  let ?cmd = "CmdSpawn (mk (bs_collect (map rn_id ns)))"
  have step: "command env trigger_spawn_result ?cmd d co = (checked trigger_spawn_result d (e_ask env d ?cmd), emit d ?cmd co)"
    using con by (simp add: command_def)
  show ?case
  proof (cases "spawn_accepted env mk g")
    case True
    then obtain x where "checked trigger_spawn_result d (e_ask env d ?cmd) = Ok x"
      by (auto simp: spawn_accepted_def spawn_of_def g is_ok_iff)
    moreover have "set (bs_insert d ds) \<subseteq> fst ` set (co_connections (emit d ?cmd co))"
      "fst ` set gs \<subseteq> fst ` set (co_connections (emit d ?cmd co))"
      using Cons.prems g by (auto simp: emit_def)
    ultimately show ?thesis
      using Cons.IH True con step
      by (cases "dropWhile (spawn_accepted env mk) gs") (simp_all add: g emit_def Let_def spawn_of_def del: dropWhile_eq_Nil_conv)
  next
    case False
    then have "\<not> is_ok (checked trigger_spawn_result d (e_ask env d ?cmd))"
      by (simp add: spawn_accepted_def spawn_of_def g)
    moreover have "set ds \<subseteq> fst ` set (co_connections (emit d ?cmd co))"
      using Cons.prems by (simp add: emit_def)
    ultimately show ?thesis
      using False con step rollback_closed[of ds "emit d ?cmd co" env u]
      by (cases "checked trigger_spawn_result d (e_ask env d ?cmd)")
        (auto simp: g spawn_of_def emit_def)
  qed
qed simp

lemma spawn_dataflow_no_Panic:
  assumes "resolve_aliases_and_set_defaults (e_ros2_json env) desc = Ok ns"
  shows "group_by_daemon cs ns \<noteq> Panic"
proof -
  have "try_fold (\<lambda>(i, n) m. and_then (resolve_daemon cs (rn_deploy n)) (\<lambda>d.
      Ok (bt_entry d [] (\<lambda>l. l @ [n]) m))) ns m \<noteq> Panic" for m
    by (induction ns arbitrary: m) (auto simp: resolve_daemon_def ok_or_def split: option.splits)
  then show ?thesis by (simp add: group_by_daemon_def)
qed

lemma fold_bs_insert_sorted: "bs_wf (ds :: 'a :: linorder list) \<Longrightarrow> fold bs_insert ds [] = ds"
  by (rule strict_sorted_equal) auto

lemma assign_nodes:
  assumes "\<forall>(d', ns) \<in> set gs. i \<in> rn_id ` set ns \<longrightarrow> d' = d"
  shows "map_of (fold (\<lambda>(d, ns) m. fold (\<lambda>n m. bt_insert (rn_id n) d m) ns m) gs m0) i =
    (if \<exists>(d', ns) \<in> set gs. i \<in> rn_id ` set ns then Some d else map_of m0 i)"
proof -
  have inner: "map_of (fold (\<lambda>n. bt_insert (rn_id n) d) ns m) i =
      (if i \<in> rn_id ` set ns then Some d else map_of m i)" for ns d m i
    by (induction ns arbitrary: m) auto
  show ?thesis using assms
    by (induction gs arbitrary: m0) (auto simp: inner)
qed

lemma resolved_ids:
  assumes "resolve_aliases_and_set_defaults json desc = Ok ns"
  shows "bt_wf ns" "(i, n) \<in> set ns \<Longrightarrow> rn_id n = i"
proof -
  note r = resolve_last_node_wins[OF assms]
  then show "bt_wf ns" by blast
  assume "(i, n) \<in> set ns"
  then have "map_of ns i = Some n" using bt_collect_sorted_id[of ns i n] r by blast
  then obtain x where "find (\<lambda>n. id_of n = i) (rev (nodes desc)) = Some x"
    "resolve_node json (desc_env desc) (single_operator_nodes (nodes desc)) x = Ok n"
    using r by blast
  then show "rn_id n = i" using find_SomeD[of "\<lambda>n. id_of n = i" "rev (nodes desc)" x]
    by (auto simp: resolve_node_def)
qed

lemma group_member:
  assumes ns: "resolve_aliases_and_set_defaults json desc = Ok ns" and gs: "group_by_daemon cs ns = Ok gs"
    and mem: "(d, xs) \<in> set gs" "i \<in> rn_id ` set xs"
  shows "\<exists>n. map_of ns i = Some n \<and> resolve_daemon cs (rn_deploy n) = Ok d"
proof -
  obtain n where n: "n \<in> set xs" "i = rn_id n" using mem(2) by blast
  have "xs = filter (\<lambda>n. resolve_daemon cs (rn_deploy n) = Ok d) (map snd ns)"
    using group_by_daemon_Ok(3)[OF gs, of d xs] mem(1) by blast
  then have d: "resolve_daemon cs (rn_deploy n) = Ok d" "n \<in> snd ` set ns" using n(1) by auto
  then obtain j where j: "(j, n) \<in> set ns" by force
  then have "j = i" using resolved_ids(2)[OF ns j] n(2) by simp
  then show ?thesis using j d(1) bt_collect_sorted_id[OF resolved_ids(1)[OF ns], of i n] by blast
qed

lemma group_unique:
  assumes ns: "resolve_aliases_and_set_defaults json desc = Ok ns" and gs: "group_by_daemon cs ns = Ok gs"
    and "(d, xs) \<in> set gs" "i \<in> rn_id ` set xs" "(d', ys) \<in> set gs" "i \<in> rn_id ` set ys"
  shows "d = d'"
proof -
  obtain n where n: "map_of ns i = Some n" "resolve_daemon cs (rn_deploy n) = Ok d"
    using group_member[OF ns gs assms(3,4)] by blast
  obtain n' where n': "map_of ns i = Some n'" "resolve_daemon cs (rn_deploy n') = Ok d'"
    using group_member[OF ns gs assms(5,6)] by blast
  have "n = n'" using n(1) n'(1) by simp
  then have "Ok d = (Ok d' :: (co_error, daemon_id) outcome)" using n(2) n'(2) by simp
  then show ?thesis by simp
qed

lemma assigned_iff:
  assumes ns: "resolve_aliases_and_set_defaults json desc = Ok ns" and gs: "group_by_daemon cs ns = Ok gs"
  shows "map_of (fold (\<lambda>(d, ns) m. fold (\<lambda>n m. bt_insert (rn_id n) d m) ns m) gs []) i = Some d \<longleftrightarrow>
         (\<exists>xs. (d, xs) \<in> set gs \<and> i \<in> rn_id ` set xs)"
proof (cases "\<exists>d' xs. (d', xs) \<in> set gs \<and> i \<in> rn_id ` set xs")
  case True
  then obtain d' xs where d': "(d', xs) \<in> set gs" "i \<in> rn_id ` set xs" by blast
  have all: "\<forall>(e, ys) \<in> set gs. i \<in> rn_id ` set ys \<longrightarrow> e = d'"
    using group_unique[OF ns gs _ _ d'] by (intro ballI) (auto simp only: split: prod.splits)
  have ex: "\<exists>(e, ys) \<in> set gs. i \<in> rn_id ` set ys" using d' by blast
  show ?thesis
    using group_unique[OF ns gs d'] d' unfolding assign_nodes[OF all] if_P[OF ex] by blast
next
  case False
  then have all: "\<forall>(e, ys) \<in> set gs. i \<in> rn_id ` set ys \<longrightarrow> e = d" by blast
  have ex: "\<not> (\<exists>(e, ys) \<in> set gs. i \<in> rn_id ` set ys)" using False by blast
  show ?thesis using False unfolding assign_nodes[OF all] if_not_P[OF ex] map_of.simps by blast
qed

lemma assigned_resolved:
  assumes ns: "resolve_aliases_and_set_defaults json desc = Ok ns" and gs: "group_by_daemon cs ns = Ok gs"
    and i: "(i, n) \<in> set ns"
  shows "\<exists>d. resolve_daemon cs (rn_deploy n) = Ok d \<and>
    map_of (fold (\<lambda>(d, ns) m. fold (\<lambda>n m. bt_insert (rn_id n) d m) ns m) gs []) i = Some d"
proof -
  obtain d where d: "resolve_daemon cs (rn_deploy n) = Ok d" using group_by_daemon_Ok(4)[OF gs i] by blast
  let ?xs = "filter (\<lambda>n. resolve_daemon cs (rn_deploy n) = Ok d) (map snd ns)"
  have n: "n \<in> set ?xs" using i d by force
  then have "?xs \<noteq> []" by (metis empty_iff empty_set)
  then have "(d, ?xs) \<in> set gs" using group_by_daemon_Ok(3)[OF gs, of d ?xs] by blast
  moreover have "i \<in> rn_id ` set ?xs" using n resolved_ids(2)[OF ns i] by (metis imageI)
  ultimately show ?thesis using d assigned_iff[OF ns gs] by blast
qed

lemma assigned_set:
  assumes ns: "resolve_aliases_and_set_defaults json desc = Ok ns" and gs: "group_by_daemon cs ns = Ok gs"
    and d: "(d, xs) \<in> set gs"
  shows "set (bs_collect (map rn_id xs)) =
    {i. map_of (fold (\<lambda>(d, ns) m. fold (\<lambda>n m. bt_insert (rn_id n) d m) ns m) gs []) i = Some d}"
proof -
  have "ys = xs" if "(d, ys) \<in> set gs" for ys
    using group_by_daemon_Ok(3)[OF gs, of d ys] group_by_daemon_Ok(3)[OF gs, of d xs] that d by argo
  then have "(\<exists>ys. (d, ys) \<in> set gs \<and> i \<in> rn_id ` set ys) \<longleftrightarrow> i \<in> rn_id ` set xs" for i using d by metis
  then show ?thesis unfolding assigned_iff[OF ns gs] by (simp add: Collect_mem_eq)
qed

lemma started_sorted:
  assumes "bt_wf (gs :: (daemon_id \<times> 'v) list)"
  shows "fold bs_insert (map fst (takeWhile P gs)) [] = map fst (takeWhile P gs)"
proof -
  have "bs_wf (map fst (takeWhile P gs) @ map fst (dropWhile P gs))"
    using assms by (simp add: bt_wf_def flip: map_append)
  then show ?thesis using fold_bs_insert_sorted unfolding sorted_wrt_append by blast
qed

lemma spawn_commands:
  "map fst (map (spawn_of mk) ys) = map fst ys \<and> (\<forall>cmd \<in> snd ` set (map (spawn_of mk) ys). \<exists>sc. cmd = CmdSpawn sc)"
  by (auto simp: spawn_of_def)

lemma spawn_command_nodes:
  assumes "resolve_aliases_and_set_defaults f desc = Ok ns" "group_by_daemon cs ns = Ok gs"
    and mk: "\<And>sn. sc_dataflow_id (mk sn) = u \<and> sc_spawn_nodes (mk sn) = sn"
    and cmd: "(d, cmd) \<in> set (map (spawn_of mk) gs)"
  shows "\<exists>sc. cmd = CmdSpawn sc \<and> sc_dataflow_id sc = u \<and>
    set (sc_spawn_nodes sc) = {i. map_of (fold (\<lambda>(d, ns) m. fold (\<lambda>n m. bt_insert (rn_id n) d m) ns m) gs []) i = Some d}"
proof -
  obtain xs where xs: "(d, xs) \<in> set gs" "cmd = CmdSpawn (mk (bs_collect (map rn_id xs)))"
    using cmd by (auto simp: spawn_of_def)
  then show ?thesis using assigned_set[OF assms(1,2) xs(1)] mk by simp
qed

text \<open>
  C10. A dataflow is started on all its daemons or on none. When the spawn succeeds, every node runs on
  the daemon its deployment selects, and each daemon got one command that lists exactly its nodes.
  When a daemon refuses or cannot be reached, every daemon that had accepted before it gets a forced
  stop, in order and whatever the others answer, and the error names the daemons where this failed.
  Any other error comes before the first command.
\<close>
theorem spawn_all_or_rollback:
  assumes ns: "resolve_aliases_and_set_defaults (e_ros2_json env) desc = Ok ns"
    and run: "co_spawn_dataflow env build desc wd uv events co = (r, co')"
  shows "case r of
      Ok sd \<Rightarrow>
        (\<forall>i n. (i, n) \<in> set ns \<longrightarrow> (\<exists>d. resolve_daemon (co_connections co) (rn_deploy n) = Ok d \<and>
           map_of (sd_node_to_daemon sd) i = Some d)) \<and>
        (\<exists>cmds. co' = co\<lparr>co_sent := co_sent co @ cmds\<rparr> \<and> map fst cmds = sd_daemons sd \<and>
           (\<forall>d cmd. (d, cmd) \<in> set cmds \<longrightarrow> (\<exists>sc. cmd = CmdSpawn sc \<and> sc_dataflow_id sc = sd_uuid sd \<and>
              set (sc_spawn_nodes sc) = {i. map_of (sd_node_to_daemon sd) i = Some d})))
    | Err e \<Rightarrow>
        co' = co \<or>
        (\<exists>d started cmds. e = SpawnRolledBack d (filter (stop_fails env (e_fresh env)) started) \<and>
           map fst cmds = started @ [d] \<and> (\<forall>cmd \<in> snd ` set cmds. \<exists>sc. cmd = CmdSpawn sc) \<and>
           co' = co\<lparr>co_sent := co_sent co @ cmds @
                      map (\<lambda>d. (d, CmdStopDataflow (e_fresh env) None True)) started\<rparr>)
    | Panic \<Rightarrow> False"
proof (cases "group_by_daemon (co_connections co) ns")
  case (Ok gs)
  define mk where "mk = (\<lambda>sn. \<lparr>sc_build_id = build, sc_dataflow_id = e_fresh env, sc_local_working_dir = wd,
    sc_nodes = ns, sc_descriptor = desc, sc_spawn_nodes = sn, sc_uv = uv, sc_write_events_to = events\<rparr>)"
  define acc where "acc = spawn_accepted env mk"
  note g = group_by_daemon_Ok[OF Ok]
  note closed = spawn_each_closed[OF g(2), of "[]" env mk "e_fresh env" "[]", unfolded started_sorted[OF g(1)],
    folded acc_def, simplified Let_def list.set empty_subsetI simp_thms]
  show ?thesis
  proof (cases "dropWhile acc gs")
    case Nil
    have r: "r = Ok \<lparr>sd_uuid = e_fresh env, sd_daemons = map fst gs, sd_nodes = ns,
        sd_node_to_daemon = fold (\<lambda>(d, ns) m. fold (\<lambda>n m. bt_insert (rn_id n) d m) ns m) gs []\<rparr>"
      "co' = co\<lparr>co_sent := co_sent co @ map (spawn_of mk) gs\<rparr>"
      using run closed started_sorted[OF g(1), of acc] takeWhile_dropWhile_id[of acc gs, unfolded Nil append_Nil2]
      by (auto simp: co_spawn_dataflow_def ns Ok Let_def Nil simp del: dropWhile_eq_Nil_conv simp flip: mk_def)
    have "sc_dataflow_id (mk sn) = e_fresh env \<and> sc_spawn_nodes (mk sn) = sn" for sn by (simp add: mk_def)
    note cmds = spawn_command_nodes[OF ns Ok this]
    show ?thesis unfolding r outcome.case spawned_dataflow.simps
      using assigned_resolved[OF ns Ok] cmds spawn_commands[of mk gs]
      by (intro conjI allI impI exI[of _ "map (spawn_of mk) gs"]) (assumption | rule refl | erule conjunct1 | blast)+
  next
    case (Cons x xs)
    have r: "r = Err (SpawnRolledBack (fst x) (filter (stop_fails env (e_fresh env)) (map fst (takeWhile acc gs))))"
      "co' = co\<lparr>co_sent := co_sent co @ map (spawn_of mk) (takeWhile acc gs @ [x]) @
                  map (\<lambda>d. (d, CmdStopDataflow (e_fresh env) None True)) (map fst (takeWhile acc gs))\<rparr>"
      using run closed started_sorted[OF g(1), of acc] by (auto simp: co_spawn_dataflow_def ns Ok Let_def Cons simp flip: mk_def)
    from spawn_commands[of mk "takeWhile acc gs @ [x]"] show ?thesis unfolding r outcome.case
      by (intro disjI2 exI[of _ "fst x"] exI[of _ "map fst (takeWhile acc gs)"]
            exI[of _ "map (spawn_of mk) (takeWhile acc gs @ [x])"]) simp
  qed
next
  case (Err e)
  then show ?thesis using run by (auto simp: co_spawn_dataflow_def ns Let_def)
qed (use spawn_dataflow_no_Panic[OF ns] in auto)

definition sample_env :: co_env where
  "sample_env =
     \<lparr>e_now = 0, e_now_ms = 0, e_fresh = 9, e_petname = None, e_to_json = (\<lambda>_. None), e_from_json = (\<lambda>_. None),
      e_value = (\<lambda>_. None), e_show_daemon = (\<lambda>_. []), e_ros2_json = (\<lambda>_. []), e_send = (\<lambda>_. True),
      e_ask = (\<lambda>d cmd. case cmd of
        CmdSpawn _ \<Rightarrow> Answer (TriggerSpawnResult (if snd d = 2 then Some ''busy'' else None))
      | _ \<Rightarrow> Answer (StopResult None)),
      e_chan = (\<lambda>_. ChanOpen), e_spans = None\<rparr>"

definition sample_coordinator :: "'s \<Rightarrow> 's coordinator" where
  "sample_coordinator s =
     \<lparr>co_running_builds = [], co_finished_builds = [], co_running = [], co_results = [], co_archived = [],
      co_connections = [((None, 1), daemon_connection_new 0 []), ((Some ''gpu'', 2), daemon_connection_new 0 [])],
      co_store = s, co_sent = [], co_answers = [], co_log_lines = [], co_frames = [], co_replays = [],
      co_aborted = False\<rparr>"

definition two_machines :: descriptor where
  "two_machines = example_descriptor
     [example_node ''a'' ''camera'' empty_run,
      (example_node ''b'' ''detect'' empty_run)\<lparr>deploy_of :=
        Some \<lparr>machine = Some ''gpu'', working_dir = None, labels = [], distribute = DistributeLocal\<rparr>\<rparr>]"

text \<open>
  The second daemon refuses the nodes that need the machine \<open>gpu\<close>, and the first one is told to stop.
\<close>

theorem spawn_all_or_rollback_witness:
  "fst (co_spawn_dataflow sample_env None two_machines None False None (sample_coordinator ())) =
     Err (SpawnRolledBack (Some ''gpu'', 2) []) \<and>
   (\<exists>d started cmds.
      map fst cmds = started @ [d] \<and>
      snd (co_spawn_dataflow sample_env None two_machines None False None (sample_coordinator ())) =
        (sample_coordinator ())\<lparr>co_sent := cmds @ map (\<lambda>d. (d, CmdStopDataflow 9 None True)) started\<rparr>)"
proof -
  let ?r = "co_spawn_dataflow sample_env None two_machines None False None (sample_coordinator ())"
  note defs = resolve_aliases_and_set_defaults_def two_machines_def example_descriptor_def example_node_def
    resolve_node_def resolve_kind_def kind_of_def standard_source_def alias_run_def alias_inputs_def empty_run_def
  obtain ns where ns: "resolve_aliases_and_set_defaults (e_ros2_json sample_env) two_machines = Ok ns"
    by (simp add: defs)
  have r: "fst ?r = Err (SpawnRolledBack (Some ''gpu'', 2) [])"
    by code_simp
  have n: "length (co_sent (snd ?r)) = 3" by code_simp
  have c: "e_fresh sample_env = 9" "co_sent (sample_coordinator ()) = []"
    by (simp_all add: sample_env_def sample_coordinator_def)
  obtain co' where e: "?r = (Err (SpawnRolledBack (Some ''gpu'', 2) []), co')" using r by (cases ?r) simp
  have "co' \<noteq> sample_coordinator ()" using n c(2) unfolding e by auto
  then show ?thesis using spawn_all_or_rollback[OF ns e] unfolding e outcome.case c append_Nil fst_conv snd_conv
    by blast
qed

end
