(* ===== verification/Coordinator_Requests.thy ===== *)
theory Coordinator_Requests
  imports Coordinator_Handlers
begin

text \<open>
  The requests of the command line, as the main loop of the coordinator handles them
  (\<^verbatim>\<open>binaries/coordinator/src/lib.rs\<close>, the arm \<^verbatim>\<open>ControlEvent::IncomingRequest\<close>).

  A request is answered at once, or it is kept with a build or a dataflow until the result is there.
  \<open>handle_request\<close> returns how the main loop goes on: an error ends it, and so does a panic.
\<close>

section \<open>Requests\<close>

datatype control_request =
    ReqBuild descriptor "(node_id \<times> string) list" "(node_id \<times> string) list" "string option" bool
  | ReqWaitForBuild uuid
  | ReqStart "uuid option" descriptor "string option" "string option" bool "string option"
  | ReqWaitForSpawn uuid
  | ReqReload uuid node_id "operator_id option"
  | ReqCheck uuid
  | ReqStop uuid "duration option" bool
  | ReqStopByName string "duration option" bool
  | ReqRestart uuid "duration option" bool
  | ReqRestartByName string "duration option" bool
  | ReqLogs "uuid option" "string option" string "nat option"
  | ReqDestroy
  | ReqList
  | ReqInfo uuid
  | ReqDaemonConnected
  | ReqConnectedMachines
  | ReqLogSubscribe uuid "log_level option"
  | ReqBuildLogSubscribe uuid "log_level option"
  | ReqCliAndDefaultDaemonOnSameMachine
  | ReqGetNodeInfo
  | ReqTopicSubscribe uuid "topic list"
  | ReqTopicUnsubscribe uuid
  | ReqGetTraces
  | ReqGetTraceSpans string
  | ReqRestartNode uuid node_id "duration option"
  | ReqStopNode uuid node_id "duration option"
  | ReqTopicPublish uuid node_id data_id string
  | ReqGetParams uuid node_id
  | ReqGetParam uuid node_id string
  | ReqSetParam uuid node_id string json
  | ReqDeleteParam uuid node_id string
  | ReqAddNode uuid node
  | ReqRemoveNode uuid node_id "duration option"
  | ReqAddMapping uuid topic topic
  | ReqRemoveMapping uuid topic topic
  | ReqHello string

definition answer :: "request \<Rightarrow> control_result \<Rightarrow> 's coordinator \<Rightarrow> 's coordinator" where
  "answer r res co = co\<lparr>co_answers := co_answers co @ [(r, res)]\<rparr>"

text \<open>The result of an operation becomes the answer. A panic ends the main loop before the answer.\<close>

definition respond ::
    "request \<Rightarrow> ('a \<Rightarrow> control_reply) \<Rightarrow> (co_error, 'a) outcome \<times> 's coordinator \<Rightarrow>
     (co_error, unit) outcome \<times> 's coordinator" where
  "respond r f x =
     (case x of
        (Ok a, co) \<Rightarrow> (Ok (), answer r (Ok (f a)) co)
      | (Err e, co) \<Rightarrow> (Ok (), answer r (Err e) co)
      | (Panic, co) \<Rightarrow> (Panic, co))"

section \<open>Builds\<close>

definition build_request ::
    "co_env \<Rightarrow> descriptor \<Rightarrow> (node_id \<times> string) list \<Rightarrow> (node_id \<times> string) list \<Rightarrow> string option \<Rightarrow> bool \<Rightarrow>
     's coordinator \<Rightarrow> control_result \<times> 's coordinator" where
  "build_request env desc srcs prev wd uv co =
     (let b = e_fresh env
      in case build_dataflow env b desc srcs prev wd uv co of
           (Ok build, co1) \<Rightarrow>
             (Ok (DataflowBuildTriggered b), co1\<lparr>co_running_builds := hm_insert b build (co_running_builds co1)\<rparr>)
         | (Err e, co1) \<Rightarrow> (Err e, co1)
         | (Panic, co1) \<Rightarrow> (Panic, co1))"

definition wait_for_build :: "request \<Rightarrow> uuid \<Rightarrow> 's coordinator \<Rightarrow> 's coordinator" where
  "wait_for_build r b co =
     (case map_of (co_running_builds co) b of
        Some build \<Rightarrow>
          (let (now, res) = cached_register r (rb_build_result build)
           in co\<lparr>co_running_builds := hm_insert b (build\<lparr>rb_build_result := res\<rparr>) (co_running_builds co),
                co_answers := co_answers co @ now\<rparr>)
      | None \<Rightarrow>
          (case map_of (co_finished_builds co) b of
             Some cached \<Rightarrow>
               (let (now, res) = cached_register r cached
                in co\<lparr>co_finished_builds := hm_insert b res (co_finished_builds co),
                     co_answers := co_answers co @ now\<rparr>)
           | None \<Rightarrow> answer r (Err (UnknownBuild b)) co))"

section \<open>Dataflows\<close>

definition start_request ::
    "co_env \<Rightarrow> 's store_ops \<Rightarrow> uuid option \<Rightarrow> descriptor \<Rightarrow> string option \<Rightarrow> string option \<Rightarrow> bool \<Rightarrow>
     string option \<Rightarrow> 's coordinator \<Rightarrow> control_result \<times> 's coordinator" where
  "start_request env ops build desc nm wd uv events co =
     (let nm' = (case nm of None \<Rightarrow> e_petname env | Some _ \<Rightarrow> nm)
      in if nm' \<noteq> None \<and> list_ex (\<lambda>(u, df). cd_name df = nm') (co_running co)
         then (Err (NameInUse (the nm')), co)
         else case co_start_dataflow env build desc wd nm' uv events co of
                (Ok df, co1) \<Rightarrow>
                  (let (df', s) = persist env ops StPending df (co_store co1)
                   in (Ok (DataflowStartTriggered (cd_uuid df)),
                       set_running (cd_uuid df) df' (co1\<lparr>co_store := s\<rparr>)))
              | (Err e, co1) \<Rightarrow> (Err e, co1)
              | (Panic, co1) \<Rightarrow> (Panic, co1))"

definition wait_for_spawn :: "request \<Rightarrow> uuid \<Rightarrow> 's coordinator \<Rightarrow> 's coordinator" where
  "wait_for_spawn r u co =
     (case map_of (co_running co) u of
        Some df \<Rightarrow>
          (let (now, res) = cached_register r (cd_spawn_result df)
           in (set_running u (df\<lparr>cd_spawn_result := res\<rparr>) co)\<lparr>co_answers := co_answers co @ now\<rparr>)
      | None \<Rightarrow> answer r (Err (UnknownDataflow u)) co)"

definition finished_result :: "uuid \<Rightarrow> 's coordinator \<Rightarrow> node_results" where
  "finished_result u co = (case map_of (co_results co) u of None \<Rightarrow> [] | Some rs \<Rightarrow> dataflow_result rs)"

definition check_request :: "uuid \<Rightarrow> 's coordinator \<Rightarrow> control_reply" where
  "check_request u co =
     (case map_of (co_running co) u of
        Some _ \<Rightarrow> DataflowSpawned u
      | None \<Rightarrow> DataflowStopped u (finished_result u co))"

text \<open>
  A dataflow with any result is reported as stopped at once. Otherwise all daemons are asked to stop
  it, and the request waits until the last one has finished.
\<close>

definition stop_request ::
    "co_env \<Rightarrow> 's store_ops \<Rightarrow> request \<Rightarrow> uuid \<Rightarrow> duration option \<Rightarrow> bool \<Rightarrow> 's coordinator \<Rightarrow>
     (co_error, unit) outcome \<times> 's coordinator" where
  "stop_request env ops r u grace force co =
     (case map_of (co_results co) u of
        Some rs \<Rightarrow> (Ok (), answer r (Ok (DataflowStopped u (dataflow_result rs))) co)
      | None \<Rightarrow>
          (case co_stop_dataflow env u grace force co of
             (Ok df, co1) \<Rightarrow>
               (let (df', s) = persist env ops StStopping df (co_store co1)
                in (Ok (), set_running u (df'\<lparr>cd_stop_reply_senders := cd_stop_reply_senders df' @ [r]\<rparr>)
                             (co1\<lparr>co_store := s\<rparr>)))
           | (Err e, co1) \<Rightarrow> (Ok (), answer r (Err e) co1)
           | (Panic, co1) \<Rightarrow> (Panic, co1)))"

definition logs_request ::
    "co_env \<Rightarrow> uuid option \<Rightarrow> string option \<Rightarrow> string \<Rightarrow> nat option \<Rightarrow> 's coordinator \<Rightarrow>
     (co_error, string) outcome \<times> 's coordinator" where
  "logs_request env u nm n tail co =
     (case (case u of
              Some i \<Rightarrow> Ok i
            | None \<Rightarrow> (case nm of
                None \<Rightarrow> Err NoUuid
              | Some x \<Rightarrow> resolve_name x (co_running co) (co_archived co))) of
        Err e \<Rightarrow> (Err e, co)
      | Panic \<Rightarrow> (Panic, co)
      | Ok i \<Rightarrow>
          (case node_id_from n of
             Ok nid \<Rightarrow> retrieve_logs env i nid tail co
           | Err e \<Rightarrow> (Err e, co)
           | Panic \<Rightarrow> (Panic, co)))"

definition info_request :: "uuid \<Rightarrow> 's coordinator \<Rightarrow> control_result" where
  "info_request u co =
     (case map_of (co_running co) u of
        Some df \<Rightarrow> Ok (DataflowInfo (cd_uuid df) (cd_name df) (cd_descriptor df))
      | None \<Rightarrow> Err (UnknownDataflow u))"

definition daemon_result_ok :: "node_results \<Rightarrow> bool" where
  "daemon_result_ok rs = list_all (\<lambda>(n, e). e = None) rs"

definition list_request :: "'s coordinator \<Rightarrow> control_reply" where
  "list_request co =
     DataflowList
       (map (\<lambda>df. \<lparr>dl_uuid = cd_uuid df, dl_name = cd_name df, dl_status = None\<rparr>)
          (sort_key (\<lambda>df. (cd_name df, cd_uuid df)) (map snd (co_running co))) @
        map (\<lambda>(u, rs). \<lparr>dl_uuid = u, dl_name = Option.bind (map_of (co_archived co) u) ad_name,
               dl_status = Some (list_all (\<lambda>(d, r). daemon_result_ok r) rs)\<rparr>) (co_results co))"

definition connected_machines :: "co_env \<Rightarrow> 's coordinator \<Rightarrow> control_reply" where
  "connected_machines env co =
     ConnectedDaemons (map (\<lambda>(d, c). (d, (e_now env - dc_last_heartbeat c) div 1000000, dc_ft_stats c))
       (co_connections co))"

definition get_node_info :: "'s coordinator \<Rightarrow> control_reply" where
  "get_node_info co =
     NodeInfoList (concat (map (\<lambda>(u, df). concat (map (\<lambda>n.
       case map_of (cd_node_to_daemon df) n of
         None \<Rightarrow> []
       | Some d \<Rightarrow> [(cd_uuid df, cd_name df, n, d, map_of (cd_node_metrics df) n, cd_network_metrics df)])
       (map fst (cd_nodes df)))) (co_running co)))"

text \<open>
  Spans are grouped by trace, in the order in which the traces appear (the program groups them in a
  hash map), and the newest trace comes first.
\<close>

definition summarize :: "string \<times> span_record list \<Rightarrow> trace_summary" where
  "summarize g =
     (case g of (t, spans) \<Rightarrow>
        let root = (case List.find (\<lambda>s. sp_parent_span_id s = None) spans of Some s \<Rightarrow> s | None \<Rightarrow> hd spans)
        in \<lparr>tr_trace_id = t, tr_root_span_name = sp_name root, tr_span_count = length spans,
            tr_start_time = (case map sp_start_time spans of [] \<Rightarrow> 0 | x # xs \<Rightarrow> fold min xs x),
            tr_total_duration_us = sp_duration_us root\<rparr>)"

definition handle_get_traces :: "span_record list option \<Rightarrow> control_reply" where
  "handle_get_traces store =
     (case store of
        None \<Rightarrow> TraceList []
      | Some spans \<Rightarrow>
          TraceList (sort_key (\<lambda>t. - int (tr_start_time t))
            (map summarize (fold (\<lambda>s. hm_entry (sp_trace_id s) [] (\<lambda>l. l @ [s])) spans []))))"

definition handle_get_trace_spans :: "string \<Rightarrow> span_record list option \<Rightarrow> control_reply" where
  "handle_get_trace_spans t store =
     TraceSpans (case store of None \<Rightarrow> [] | Some spans \<Rightarrow> filter (\<lambda>s. sp_trace_id s = t) spans)"

definition trace_spans_request :: "co_env \<Rightarrow> string \<Rightarrow> control_reply" where
  "trace_spans_request env t =
     (if length t \<le> 36 \<and> list_all (\<lambda>c. code_of c < 128) t then handle_get_trace_spans t (e_spans env)
      else ErrorReply ''invalid trace_id format'')"

section \<open>Parameters\<close>

text \<open>Values that are no JSON are left out of the list.\<close>

definition get_params ::
    "co_env \<Rightarrow> 's store_ops \<Rightarrow> uuid \<Rightarrow> node_id \<Rightarrow> 's coordinator \<Rightarrow> control_result" where
  "get_params env ops u n co =
     (case resolve_param_target env ops (co_running co) (co_store co) u n of
        Err e \<Rightarrow> Err e
      | Panic \<Rightarrow> Panic
      | Ok _ \<Rightarrow>
          (case so_list_node_params ops u n (co_store co) of
             Ok ps \<Rightarrow> Ok (ParamList (concat (map (\<lambda>(k, b). case e_value env b of None \<Rightarrow> [] | Some v \<Rightarrow> [(k, v)]) ps)))
           | Err e \<Rightarrow> Err (StoreFailed e)
           | Panic \<Rightarrow> Panic))"

definition get_param ::
    "co_env \<Rightarrow> 's store_ops \<Rightarrow> uuid \<Rightarrow> node_id \<Rightarrow> string \<Rightarrow> 's coordinator \<Rightarrow> control_result" where
  "get_param env ops u n k co =
     (case resolve_param_target env ops (co_running co) (co_store co) u n of
        Err e \<Rightarrow> Err e
      | Panic \<Rightarrow> Panic
      | Ok _ \<Rightarrow>
          (case so_get_node_param ops u n k (co_store co) of
             Ok (Some b) \<Rightarrow> (case e_value env b of Some v \<Rightarrow> Ok (ParamValue k v) | None \<Rightarrow> Err CorruptParam)
           | Ok None \<Rightarrow> Err (ParamNotFound k)
           | Err e \<Rightarrow> Err (StoreFailed e)
           | Panic \<Rightarrow> Panic))"

text \<open>
  A change goes to the store first. For a running dataflow it is then appended to the log of state
  changes and forwarded to the daemon of the node; a failure to forward it is the answer, but the
  change stays.
\<close>

definition forward_param ::
    "co_env \<Rightarrow> selector \<Rightarrow> uuid \<Rightarrow> daemon_command \<Rightarrow> state_operation \<Rightarrow> param_target \<Rightarrow> 's coordinator \<Rightarrow>
     (co_error, unit) outcome \<times> 's coordinator" where
  "forward_param env sel u cmd op target co =
     (case target of
        PersistedOnly \<Rightarrow> (Ok (), co)
      | TargetRunning d \<Rightarrow>
          (case map_of (co_running co) u of
             None \<Rightarrow> (Err (UnknownDataflow u), co)
           | Some df \<Rightarrow> command env sel cmd d (set_running u (append_state_log op df) co)))"

definition set_param ::
    "co_env \<Rightarrow> 's store_ops \<Rightarrow> uuid \<Rightarrow> node_id \<Rightarrow> string \<Rightarrow> json \<Rightarrow> 's coordinator \<Rightarrow>
     (co_error, unit) outcome \<times> 's coordinator" where
  "set_param env ops u n k v co =
     (case resolve_param_target env ops (co_running co) (co_store co) u n of
        Err e \<Rightarrow> (Err e, co)
      | Panic \<Rightarrow> (Panic, co)
      | Ok target \<Rightarrow>
          (case so_put_node_param ops u n k v (co_store co) of
             (Ok _, s) \<Rightarrow>
               forward_param env set_param_result u (CmdSetParam u n k v) (OpSetParam n k v) target (co\<lparr>co_store := s\<rparr>)
           | (Err e, s) \<Rightarrow> (Err (StoreFailed e), co\<lparr>co_store := s\<rparr>)
           | (Panic, s) \<Rightarrow> (Panic, co\<lparr>co_store := s\<rparr>)))"

definition delete_param ::
    "co_env \<Rightarrow> 's store_ops \<Rightarrow> uuid \<Rightarrow> node_id \<Rightarrow> string \<Rightarrow> 's coordinator \<Rightarrow>
     (co_error, unit) outcome \<times> 's coordinator" where
  "delete_param env ops u n k co =
     (case resolve_param_target env ops (co_running co) (co_store co) u n of
        Err e \<Rightarrow> (Err e, co)
      | Panic \<Rightarrow> (Panic, co)
      | Ok target \<Rightarrow>
          (case so_delete_node_param ops u n k (co_store co) of
             (Ok _, s) \<Rightarrow>
               forward_param env delete_param_result u (CmdDeleteParam u n k) (OpDeleteParam n k) target (co\<lparr>co_store := s\<rparr>)
           | (Err e, s) \<Rightarrow> (Err (StoreFailed e), co\<lparr>co_store := s\<rparr>)
           | (Panic, s) \<Rightarrow> (Panic, co\<lparr>co_store := s\<rparr>)))"

section \<open>Changes of a running dataflow\<close>

text \<open>
  The command goes to one daemon; any reply counts as success, whatever it says, and no reply as an
  error.
\<close>

definition dispatch_any ::
    "co_env \<Rightarrow> daemon_command \<Rightarrow> daemon_id \<Rightarrow> 's coordinator \<Rightarrow> (co_error, unit) outcome \<times> 's coordinator" where
  "dispatch_any env cmd d co =
     (if map_of (co_connections co) d = None then (Err (NoDaemonConnection d), co)
      else (if e_ask env d cmd = NoAnswer then Err (AskFailed d) else Ok (), emit d cmd co))"

definition single_node_descriptor :: "node \<Rightarrow> descriptor" where
  "single_node_descriptor n =
     \<lparr>nodes = [n], desc_deploy = None, enable_debug_inspection = False, health_check_interval = None,
      strict_types = None, type_rules = [], desc_env = None\<rparr>"

text \<open>The outer error ends the main loop.\<close>

definition co_add_node_request ::
    "co_env \<Rightarrow> request \<Rightarrow> uuid \<Rightarrow> node \<Rightarrow> 's coordinator \<Rightarrow> (co_error, unit) outcome \<times> 's coordinator" where
  "co_add_node_request env r u nd co =
     (case map_of (co_running co) u of
        None \<Rightarrow> (Ok (), answer r (Err (UnknownDataflow u)) co)
      | Some df \<Rightarrow>
          if map_of (cd_node_to_daemon df) (id_of nd) \<noteq> None
          then (Ok (), answer r (Err (NodeExists (id_of nd))) co)
          else (case resolve_aliases_and_set_defaults (e_ros2_json env) (single_node_descriptor nd) of
                  Err e \<Rightarrow> (Ok (), answer r (Err (ResolveFailed e)) co)
                | Panic \<Rightarrow> (Panic, co)
                | Ok [] \<Rightarrow> (Err BadDescriptor, co)
                | Ok ((n, rn) # _) \<Rightarrow>
                    (case first_of (cd_daemons df) of
                       None \<Rightarrow> (Ok (), answer r (Err (NoDaemons u)) co)
                     | Some d \<Rightarrow>
                         (case dispatch_any env (CmdAddNode u rn (cd_uv df)) d co of
                            (Ok _, co1) \<Rightarrow>
                              (Ok (), answer r (Ok (NodeAdded u n)) (set_running u
                                 (df\<lparr>cd_node_to_daemon := bt_insert n d (cd_node_to_daemon df),
                                     cd_descriptor := (cd_descriptor df)\<lparr>nodes := nodes (cd_descriptor df) @ [nd]\<rparr>,
                                     cd_nodes := bt_insert n rn (cd_nodes df)\<rparr>) co1))
                          | (Err e, co1) \<Rightarrow> (Ok (), answer r (Err e) co1)
                          | (Panic, co1) \<Rightarrow> (Panic, co1)))))"

definition remove_node_request ::
    "co_env \<Rightarrow> uuid \<Rightarrow> node_id \<Rightarrow> duration option \<Rightarrow> 's coordinator \<Rightarrow> (co_error, unit) outcome \<times> 's coordinator" where
  "remove_node_request env u n grace co =
     (case map_of (co_running co) u of
        None \<Rightarrow> (Err (UnknownDataflow u), co)
      | Some df \<Rightarrow>
          (case map_of (cd_node_to_daemon df) n of
             None \<Rightarrow> (Err (NodeUnknown n), co)
           | Some d \<Rightarrow>
               (case dispatch_any env (CmdRemoveNode u n grace) d co of
                  (Ok _, co1) \<Rightarrow>
                    (Ok (), set_running u
                       (df\<lparr>cd_node_to_daemon := bt_remove n (cd_node_to_daemon df),
                           cd_descriptor := (cd_descriptor df)\<lparr>nodes :=
                             filter (\<lambda>x. id_of x \<noteq> n) (nodes (cd_descriptor df))\<rparr>,
                           cd_nodes := bt_remove n (cd_nodes df)\<rparr>) co1)
                | (Err e, co1) \<Rightarrow> (Err e, co1)
                | (Panic, co1) \<Rightarrow> (Panic, co1))))"

text \<open>Both changes of a mapping go to the daemon of the target node.\<close>

definition mapping_request ::
    "co_env \<Rightarrow> daemon_command \<Rightarrow> uuid \<Rightarrow> topic \<Rightarrow> 's coordinator \<Rightarrow> (co_error, unit) outcome \<times> 's coordinator" where
  "mapping_request env cmd u target co =
     (case map_of (co_running co) u of
        None \<Rightarrow> (Err (UnknownDataflow u), co)
      | Some df \<Rightarrow>
          (case map_of (cd_node_to_daemon df) (fst target) of
             None \<Rightarrow> (Err (NodeUnknown (fst target)), co)
           | Some d \<Rightarrow> dispatch_any env cmd d co))"

section \<open>All requests\<close>

definition by_name ::
    "request \<Rightarrow> string \<Rightarrow> (uuid \<Rightarrow> 's coordinator \<Rightarrow> (co_error, unit) outcome \<times> 's coordinator) \<Rightarrow> 's coordinator \<Rightarrow>
     (co_error, unit) outcome \<times> 's coordinator" where
  "by_name r nm f co =
     (case resolve_name nm (co_running co) (co_archived co) of
        Ok u \<Rightarrow> f u co
      | Err e \<Rightarrow> (Ok (), answer r (Err e) co)
      | Panic \<Rightarrow> (Panic, co))"

fun handle_request ::
    "co_env \<Rightarrow> 's store_ops \<Rightarrow> request \<Rightarrow> control_request \<Rightarrow> 's coordinator \<Rightarrow>
     (co_error, unit) outcome \<times> 's coordinator" where
  "handle_request env ops r (ReqBuild desc srcs prev wd uv) co =
     respond r (\<lambda>x. x) (build_request env desc srcs prev wd uv co)"
| "handle_request env ops r (ReqWaitForBuild b) co = (Ok (), wait_for_build r b co)"
| "handle_request env ops r (ReqStart b desc nm wd uv events) co =
     respond r (\<lambda>x. x) (start_request env ops b desc nm wd uv events co)"
| "handle_request env ops r (ReqWaitForSpawn u) co = (Ok (), wait_for_spawn r u co)"
| "handle_request env ops r (ReqReload u n op) co = respond r (\<lambda>_. DataflowReloaded u) (reload_dataflow env u n op co)"
| "handle_request env ops r (ReqCheck u) co = (Ok (), answer r (Ok (check_request u co)) co)"
| "handle_request env ops r (ReqStop u g f) co = stop_request env ops r u g f co"
| "handle_request env ops r (ReqStopByName nm g f) co = by_name r nm (\<lambda>u. stop_request env ops r u g f) co"
| "handle_request env ops r (ReqRestart u g f) co = respond r (\<lambda>x. x) (restart_dataflow env ops u g f co)"
| "handle_request env ops r (ReqRestartByName nm g f) co =
     by_name r nm (\<lambda>u co. respond r (\<lambda>x. x) (restart_dataflow env ops u g f co)) co"
| "handle_request env ops r (ReqLogs u nm n k) co = respond r LogBytes (logs_request env u nm n k co)"
| "handle_request env ops r ReqDestroy co = respond r (\<lambda>_. DestroyOk) (handle_destroy env ops co)"
| "handle_request env ops r ReqList co = (Ok (), answer r (Ok (list_request co)) co)"
| "handle_request env ops r (ReqInfo u) co = (Ok (), answer r (info_request u co) co)"
| "handle_request env ops r ReqDaemonConnected co = (Ok (), answer r (Ok (DaemonConnected (co_connections co \<noteq> []))) co)"
| "handle_request env ops r ReqConnectedMachines co = (Ok (), answer r (Ok (connected_machines env co)) co)"
| "handle_request env ops r ReqCliAndDefaultDaemonOnSameMachine co =
     (Ok (), answer r (Ok (CliAndDefaultDaemonIps (unnamed (co_connections co) \<noteq> []))) co)"
| "handle_request env ops r ReqGetNodeInfo co = (Ok (), answer r (Ok (get_node_info co)) co)"
| "handle_request env ops r ReqGetTraces co = (Ok (), answer r (Ok (handle_get_traces (e_spans env))) co)"
| "handle_request env ops r (ReqGetTraceSpans t) co = (Ok (), answer r (Ok (trace_spans_request env t)) co)"
| "handle_request env ops r (ReqRestartNode u n g) co = respond r (\<lambda>_. NodeRestarted u n) (co_restart_node env u n g co)"
| "handle_request env ops r (ReqStopNode u n g) co = respond r (\<lambda>_. NodeStopped u n) (co_stop_node env u n g co)"
| "handle_request env ops r (ReqGetParams u n) co = respond r (\<lambda>x. x) (get_params env ops u n co, co)"
| "handle_request env ops r (ReqGetParam u n k) co = respond r (\<lambda>x. x) (get_param env ops u n k co, co)"
| "handle_request env ops r (ReqSetParam u n k v) co = respond r (\<lambda>_. ParamSet) (set_param env ops u n k v co)"
| "handle_request env ops r (ReqDeleteParam u n k) co = respond r (\<lambda>_. ParamDeleted) (delete_param env ops u n k co)"
| "handle_request env ops r (ReqAddNode u nd) co = co_add_node_request env r u nd co"
| "handle_request env ops r (ReqRemoveNode u n g) co = respond r (\<lambda>_. NodeRemoved u n) (remove_node_request env u n g co)"
| "handle_request env ops r (ReqAddMapping u s t) co =
     respond r (\<lambda>_. MappingAdded u s t) (mapping_request env (CmdAddMapping u s t) u t co)"
| "handle_request env ops r (ReqRemoveMapping u s t) co =
     respond r (\<lambda>_. MappingRemoved u s t) (mapping_request env (CmdRemoveMapping u s t) u t co)"
| "handle_request env ops r _ co = (Ok (), answer r (Err HandledElsewhere) co)"

end
