(* ===== verification/Coordinator.thy ===== *)
theory Coordinator
  imports Coordinator_Requests
begin

text \<open>
  The main loop of the coordinator (\<^verbatim>\<open>start_inner\<close> in \<^verbatim>\<open>binaries/coordinator/src/lib.rs\<close>):
  what it does with the state of its predecessor, and one definition per event. \<open>handle_event\<close> is the
  body of the loop and \<open>event_loop\<close> the loop, over a list of events, each with what the coordinator
  learns from outside while it handles it.
\<close>

section \<open>Events\<close>

text \<open>
  A registration carries the error of the version check, if any, and whether the reply can be sent on
  the new connection. The result of a build or a spawn is the text of its error, if any.
\<close>

datatype co_event =
    EvRegister "string option" "string option" "(string \<times> string) list" bool
  | EvReadyOnDaemon uuid daemon_id "node_id list"
  | EvFinishedOnDaemon uuid daemon_id node_results
  | EvRequest request control_request
  | EvControlError
  | EvLogSubscribe uuid "log_level option" nat
  | EvBuildLogSubscribe uuid "log_level option" nat
  | EvTopicSubscribe uuid "topic list" nat
  | EvTopicCheck uuid "topic list"
  | EvTopicUnsubscribe uuid
  | EvHeartbeatInterval
  | EvCtrlC
  | EvDaemonHeartbeat daemon_id "nat option"
  | EvLog log_message
  | EvTopicDebugData uuid "uuid list" string
  | EvDaemonExit daemon_id
  | EvNodeMetrics uuid "(node_id \<times> nat) list" "nat option"
  | EvBuildResult uuid daemon_id "string option"
  | EvSpawnResult uuid daemon_id "string option"
  | EvStatusReport daemon_id "(uuid \<times> node_id list) list"
  | EvCatchUpAck daemon_id uuid nat

text \<open>What the connection that sent an event gets back from the main loop.\<close>

datatype side_reply =
    NoReply
  | Found bool
  | Subscribed "(co_error, uuid) outcome"
  | Unsubscribed
  | Assigned "daemon_id option"

section \<open>Start\<close>

fun is_live :: "stored_status \<Rightarrow> bool" where
  "is_live StSucceeded = False"
| "is_live (StFailed _) = False"
| "is_live _ = True"

definition clear_daemons :: "'s store_ops \<Rightarrow> 's \<Rightarrow> 's" where
  "clear_daemons ops s =
     (case so_list_daemons ops s of
        Ok ds \<Rightarrow> fold (\<lambda>i s. snd (so_unregister_daemon ops (di_daemon_id i) s)) ds s
      | _ \<Rightarrow> s)"

text \<open>\<open>put_status\<close> is the change of a record that all transitions in the store share.\<close>

definition put_status :: "co_env \<Rightarrow> 's store_ops \<Rightarrow> stored_status \<Rightarrow> dataflow_record \<Rightarrow> 's \<Rightarrow> 's" where
  "put_status env ops st r s =
     snd (so_put_dataflow ops
       (r\<lparr>dr_status := st, dr_generation := dr_generation r + 1, dr_updated_at := e_now_ms env\<rparr>) s)"

definition mark_recovering :: "co_env \<Rightarrow> 's store_ops \<Rightarrow> 's \<Rightarrow> 's" where
  "mark_recovering env ops s =
     (case so_list_dataflows ops s of
        Ok rs \<Rightarrow> fold (\<lambda>r s. if is_live (dr_status r) then put_status env ops StRecovering r s else s) rs s
      | _ \<Rightarrow> s)"

definition coordinator_start :: "co_env \<Rightarrow> 's store_ops \<Rightarrow> 's \<Rightarrow> 's coordinator" where
  "coordinator_start env ops s =
     \<lparr>co_running_builds = [], co_finished_builds = [], co_running = [], co_results = [], co_archived = [],
      co_connections = [], co_store = mark_recovering env ops (clear_daemons ops s), co_sent = [],
      co_answers = [], co_log_lines = [], co_frames = [], co_replays = [], co_aborted = False\<rparr>"

section \<open>Daemons\<close>

definition register_daemon ::
    "co_env \<Rightarrow> 's store_ops \<Rightarrow> string option \<Rightarrow> string option \<Rightarrow> (string \<times> string) list \<Rightarrow> bool \<Rightarrow>
     's coordinator \<Rightarrow> daemon_id option \<times> 's coordinator" where
  "register_daemon env ops mid version_error ls sent co =
     (let d = (case (case mid of
                       Some m \<Rightarrow> get_matching_daemon_id m (co_connections co)
                     | None \<Rightarrow> first_of (unnamed (co_connections co))) of
                 Some i \<Rightarrow> i
               | None \<Rightarrow> (mid, e_fresh env));
          reply = (case version_error of None \<Rightarrow> RegisterOk d | Some e \<Rightarrow> RegisterErr e);
          co1 = (if sent then emit d reply co else co)
      in if version_error = None \<and> sent
         then (Some d, co1\<lparr>co_connections := conn_add d (daemon_connection_new (e_now env) ls) (co_connections co1),
                 co_store := snd (so_register_daemon ops
                   \<lparr>di_daemon_id = d, di_machine_id = fst d, di_labels = ls\<rparr> (co_store co1))\<rparr>)
         else (None, co1))"

definition daemon_exit :: "'s store_ops \<Rightarrow> daemon_id \<Rightarrow> 's coordinator \<Rightarrow> 's coordinator" where
  "daemon_exit ops d co =
     co\<lparr>co_connections := bt_remove d (co_connections co),
        co_store := snd (so_unregister_daemon ops d (co_store co))\<rparr>"

definition daemon_heartbeat :: "co_env \<Rightarrow> daemon_id \<Rightarrow> nat option \<Rightarrow> 's coordinator \<Rightarrow> 's coordinator" where
  "daemon_heartbeat env d stats co =
     (case map_of (co_connections co) d of
        None \<Rightarrow> co
      | Some c \<Rightarrow>
          co\<lparr>co_connections := bt_insert d
               (c\<lparr>dc_last_heartbeat := e_now env,
                  dc_ft_stats := (case stats of None \<Rightarrow> dc_ft_stats c | Some _ \<Rightarrow> stats)\<rparr>) (co_connections co)\<rparr>)"

text \<open>The watchdog: who gets a heartbeat, who has been silent for 30 seconds or cannot be reached.\<close>

definition silent :: "co_env \<Rightarrow> daemon_connection \<Rightarrow> bool" where
  "silent env c \<longleftrightarrow> e_now env - dc_last_heartbeat c > 30000000000"

definition watchdog_failures :: "co_env \<Rightarrow> connections \<Rightarrow> daemon_id list" where
  "watchdog_failures env cs = map fst (filter (\<lambda>(d, c). silent env c \<or> \<not> e_send env d) cs)"

definition forget_daemons :: "daemon_id list \<Rightarrow> co_dataflow \<Rightarrow> co_dataflow" where
  "forget_daemons ds df =
     df\<lparr>cd_daemons := filter (\<lambda>d. d \<notin> set ds) (cd_daemons df),
        cd_pending_daemons := filter (\<lambda>d. d \<notin> set ds) (cd_pending_daemons df),
        cd_pending_spawn_results := filter (\<lambda>d. d \<notin> set ds) (cd_pending_spawn_results df)\<rparr>"

definition disconnect_daemons :: "co_env \<Rightarrow> 's store_ops \<Rightarrow> daemon_id list \<Rightarrow> 's coordinator \<Rightarrow> 's coordinator" where
  "disconnect_daemons env ops ds co =
     (let left = fold bt_remove ds (co_connections co)
      in co\<lparr>co_connections := left,
            co_store := fold (\<lambda>d s. snd (so_unregister_daemon ops d s)) ds (co_store co),
            co_running := map (\<lambda>(u, df). (u, forget_daemons ds df)) (co_running co),
            co_sent := co_sent co @ concat (map (\<lambda>gone.
              map (\<lambda>d. (d, CmdPeerDaemonDisconnected gone)) (filter (e_send env) (map fst left))) ds)\<rparr>)"

definition RECOVERY_TIMEOUT_SECS :: nat where
  "RECOVERY_TIMEOUT_SECS = 60"

definition expire_recovering :: "co_env \<Rightarrow> 's store_ops \<Rightarrow> 's \<Rightarrow> 's" where
  "expire_recovering env ops s =
     (case so_list_dataflows ops s of
        Ok rs \<Rightarrow>
          fold (\<lambda>r s. if dr_status r = StRecovering \<and> e_now_ms env - dr_updated_at r > RECOVERY_TIMEOUT_SECS * 1000
                      then put_status env ops (StFailed ''recovery timeout (60s): no daemon reconnected'') r s
                      else s) rs s
      | _ \<Rightarrow> s)"

definition heartbeat_interval :: "co_env \<Rightarrow> 's store_ops \<Rightarrow> 's coordinator \<Rightarrow> 's coordinator" where
  "heartbeat_interval env ops co =
     (let ds = watchdog_failures env (co_connections co);
          beats = map (\<lambda>(d, c). (d, CmdHeartbeat)) (filter (\<lambda>(d, c). d \<notin> set ds) (co_connections co));
          co1 = co\<lparr>co_sent := co_sent co @ beats\<rparr>;
          co2 = (if ds = [] then co1 else disconnect_daemons env ops ds co1)
      in co2\<lparr>co_store := expire_recovering env ops (co_store co2)\<rparr>)"

section \<open>Dataflows\<close>

text \<open>A connection that is gone is skipped, but one that cannot be written to ends the main loop.\<close>

fun send_all_ready ::
    "co_env \<Rightarrow> daemon_command \<Rightarrow> daemon_id list \<Rightarrow> 's coordinator \<Rightarrow> (co_error, unit) outcome \<times> 's coordinator" where
  "send_all_ready env cmd [] co = (Ok (), co)"
| "send_all_ready env cmd (d # ds) co =
     (if map_of (co_connections co) d = None then send_all_ready env cmd ds co
      else case co_send env d cmd co of
             (True, co1) \<Rightarrow> send_all_ready env cmd ds co1
           | (False, co1) \<Rightarrow> (Err (AskFailed d), co1))"

definition ready_on_daemon ::
    "co_env \<Rightarrow> uuid \<Rightarrow> daemon_id \<Rightarrow> node_id list \<Rightarrow> 's coordinator \<Rightarrow> (co_error, unit) outcome \<times> 's coordinator" where
  "ready_on_daemon env u d exited co =
     (case map_of (co_running co) u of
        None \<Rightarrow> (Ok (), co)
      | Some df \<Rightarrow>
          (let df1 = df\<lparr>cd_pending_daemons := bs_remove d (cd_pending_daemons df),
                        cd_exited_before_subscribe := cd_exited_before_subscribe df @ exited\<rparr>;
               co1 = set_running u df1 co
           in if cd_pending_daemons df1 \<noteq> [] then (Ok (), co1)
              else case send_all_ready env (CmdAllNodesReady u (cd_exited_before_subscribe df1)) (cd_daemons df1) co1 of
                     (Ok _, co2) \<Rightarrow> (Ok (), schedule_param_replay_for_ready_dataflow u df1 co2)
                   | r \<Rightarrow> r))"

definition MAX_ARCHIVED_DATAFLOWS :: nat where
  "MAX_ARCHIVED_DATAFLOWS = 200"

text \<open>The oldest entries are dropped when there are too many.\<close>

definition keep_newest :: "nat \<Rightarrow> 'a list \<Rightarrow> 'a list" where
  "keep_newest n xs = drop (length xs - n) xs"

definition archive ::
    "uuid \<Rightarrow> co_dataflow \<Rightarrow> (uuid \<times> archived_dataflow) list \<Rightarrow> (uuid \<times> archived_dataflow) list" where
  "archive u df as =
     keep_newest MAX_ARCHIVED_DATAFLOWS (if map_of as u = None then as @ [(u, archived_of df)] else as)"

definition node_errors :: "(daemon_id \<times> node_results) list \<Rightarrow> string list" where
  "node_errors rs =
     concat (map (\<lambda>(d, r). concat (map (\<lambda>(n, e).
       case e of None \<Rightarrow> [] | Some x \<Rightarrow> [node_name n @ '': '' @ x]) r)) rs)"

fun join_str :: "string \<Rightarrow> string list \<Rightarrow> string" where
  "join_str sep [] = []"
| "join_str sep [x] = x"
| "join_str sep (x # y # zs) = x @ sep @ join_str sep (y # zs)"

definition final_status :: "(daemon_id \<times> node_results) list \<Rightarrow> stored_status" where
  "final_status rs = (if node_errors rs = [] then StSucceeded else StFailed (join_str ''; '' (node_errors rs)))"

definition finished_message :: "uuid \<Rightarrow> log_message" where
  "finished_message u =
     \<lparr>lm_build_id = None, lm_dataflow_id = Some u, lm_level = LogLevel LevelInfo, lm_message = ''dataflow finished''\<rparr>"

text \<open>
  The end of a dataflow: it moves to the archive, its listeners are told and closed, the final status
  is stored, and whoever waits for the stop or still waits for the spawn gets an answer.
\<close>

definition co_finish_dataflow ::
    "co_env \<Rightarrow> 's store_ops \<Rightarrow> uuid \<Rightarrow> co_dataflow \<Rightarrow> 's coordinator \<Rightarrow> 's coordinator" where
  "co_finish_dataflow env ops u df co =
     (let rs = (case map_of (co_results co) u of None \<Rightarrow> [] | Some r \<Rightarrow> r);
          df1 = close_topic_subscribers_on_finish df;
          (subs, lines) = send_log_message (e_chan env) (finished_message (cd_uuid df)) (cd_log_subscribers df1);
          (df2, s) = persist env ops (final_status rs) (df1\<lparr>cd_log_subscribers := subs\<rparr>) (co_store co);
          stopped = map (\<lambda>r. (r, Ok (DataflowStopped u (finished_result u co)))) (cd_stop_reply_senders df2);
          waiting = fst (cached_set_result (Err (ExitedBeforeSpawn (node_errors rs))) (cd_spawn_result df2))
      in co\<lparr>co_archived := archive u df (co_archived co),
            co_running := hm_remove u (co_running co),
            co_log_lines := co_log_lines co @ lines,
            co_store := s,
            co_answers := co_answers co @ stopped @ waiting\<rparr>)"

definition finished_on_daemon ::
    "co_env \<Rightarrow> 's store_ops \<Rightarrow> uuid \<Rightarrow> daemon_id \<Rightarrow> node_results \<Rightarrow> 's coordinator \<Rightarrow> 's coordinator" where
  "finished_on_daemon env ops u d result co =
     (case map_of (co_running co) u of
        None \<Rightarrow> co
      | Some df \<Rightarrow>
          (let df1 = df\<lparr>cd_daemons := bs_remove d (cd_daemons df)\<rparr>;
               co1 = co\<lparr>co_results := hm_entry u [] (bt_insert d result) (co_results co)\<rparr>
           in if cd_daemons df1 = [] then co_finish_dataflow env ops u df1 co1 else set_running u df1 co1))"

definition spawn_result ::
    "co_env \<Rightarrow> 's store_ops \<Rightarrow> uuid \<Rightarrow> daemon_id \<Rightarrow> string option \<Rightarrow> 's coordinator \<Rightarrow> 's coordinator" where
  "spawn_result env ops u d result co =
     (case map_of (co_running co) u of
        None \<Rightarrow> co
      | Some df \<Rightarrow>
          (let df1 = df\<lparr>cd_pending_spawn_results := bs_remove d (cd_pending_spawn_results df)\<rparr>
           in case result of
                None \<Rightarrow>
                  if cd_pending_spawn_results df1 \<noteq> [] then set_running u df1 co
                  else (let (now, res) = cached_set_result (Ok (DataflowSpawned u)) (cd_spawn_result df1);
                            (df2, s) = persist env ops StRunning (df1\<lparr>cd_spawn_result := res\<rparr>) (co_store co)
                        in set_running u df2 (co\<lparr>co_store := s, co_answers := co_answers co @ now\<rparr>))
              | Some e \<Rightarrow>
                  (let (df2, s) = persist env ops (StFailed (''spawn failed: '' @ e)) df1 (co_store co);
                       (now, res) = cached_set_result (Err (SpawnFailedOn e)) (cd_spawn_result df2)
                   in set_running u (df2\<lparr>cd_spawn_result := res\<rparr>)
                        (co\<lparr>co_store := s, co_answers := co_answers co @ now\<rparr>))))"

definition MAX_FINISHED_BUILDS :: nat where
  "MAX_FINISHED_BUILDS = 100"

definition build_result :: "uuid \<Rightarrow> daemon_id \<Rightarrow> string option \<Rightarrow> 's coordinator \<Rightarrow> 's coordinator" where
  "build_result b d result co =
     (case map_of (co_running_builds co) b of
        None \<Rightarrow> co
      | Some build \<Rightarrow>
          (let build1 = build\<lparr>rb_pending_build_results := bs_remove d (rb_pending_build_results build),
                 rb_errors := rb_errors build @ (case result of None \<Rightarrow> [] | Some e \<Rightarrow> [e])\<rparr>
           in if rb_pending_build_results build1 \<noteq> []
              then co\<lparr>co_running_builds := hm_insert b build1 (co_running_builds co)\<rparr>
              else (let (now, res) = cached_set_result
                          (Ok (DataflowBuildFinished b (if rb_errors build1 = [] then None else Some (rb_errors build1))))
                          (rb_build_result build1)
                    in co\<lparr>co_running_builds := hm_remove b (co_running_builds co),
                          co_finished_builds := keep_newest MAX_FINISHED_BUILDS (hm_insert b res (co_finished_builds co)),
                          co_answers := co_answers co @ now\<rparr>)))"

definition node_metrics_event ::
    "uuid \<Rightarrow> (node_id \<times> nat) list \<Rightarrow> nat option \<Rightarrow> 's coordinator \<Rightarrow> 's coordinator" where
  "node_metrics_event u ms net co =
     (case map_of (co_running co) u of
        None \<Rightarrow> co
      | Some df \<Rightarrow>
          set_running u
            (df\<lparr>cd_node_metrics := bt_extend ms (cd_node_metrics df),
                cd_network_metrics := (case net of None \<Rightarrow> cd_network_metrics df | Some _ \<Rightarrow> net)\<rparr>) co)"

section \<open>Logs and topics\<close>

definition MAX_BUFFERED_LOG_MESSAGES :: nat where
  "MAX_BUFFERED_LOG_MESSAGES = 10000"

text \<open>Without subscribers messages are kept for the first one; when the buffer is full, new ones are lost.\<close>

definition buffer_or_send ::
    "(nat \<Rightarrow> chan_state) \<Rightarrow> log_message \<Rightarrow> cli_log_subscriber list \<Rightarrow> log_message list \<Rightarrow>
     cli_log_subscriber list \<times> log_message list \<times> (nat \<times> log_message) list" where
  "buffer_or_send ch m subs buf =
     (if subs = [] then (subs, if length buf < MAX_BUFFERED_LOG_MESSAGES then buf @ [m] else buf, [])
      else let (subs', lines) = send_log_message ch m subs in (subs', buf, lines))"

definition log_event :: "co_env \<Rightarrow> log_message \<Rightarrow> 's coordinator \<Rightarrow> 's coordinator" where
  "log_event env m co =
     (case lm_dataflow_id m of
        Some u \<Rightarrow>
          (case map_of (co_running co) u of
             None \<Rightarrow> co
           | Some df \<Rightarrow>
               (let (subs, buf, lines) = buffer_or_send (e_chan env) m (cd_log_subscribers df) (cd_buffered_log_messages df)
                in (set_running u (df\<lparr>cd_log_subscribers := subs, cd_buffered_log_messages := buf\<rparr>) co)
                     \<lparr>co_log_lines := co_log_lines co @ lines\<rparr>))
      | None \<Rightarrow>
          (case Option.bind (lm_build_id m) (\<lambda>b. map_option (Pair b) (map_of (co_running_builds co) b)) of
             None \<Rightarrow> co
           | Some (b, build) \<Rightarrow>
               (let (subs, buf, lines) = buffer_or_send (e_chan env) m (rb_log_subscribers build) (rb_buffered_log_messages build)
                in co\<lparr>co_running_builds := hm_insert b
                        (build\<lparr>rb_log_subscribers := subs, rb_buffered_log_messages := buf\<rparr>) (co_running_builds co),
                      co_log_lines := co_log_lines co @ lines\<rparr>)))"

text \<open>A new subscriber first gets what was kept.\<close>

fun send_buffered ::
    "(nat \<Rightarrow> chan_state) \<Rightarrow> log_message list \<Rightarrow> cli_log_subscriber list \<Rightarrow>
     cli_log_subscriber list \<times> (nat \<times> log_message) list" where
  "send_buffered ch [] subs = (subs, [])"
| "send_buffered ch (m # ms) subs =
     (let (subs1, lines) = send_log_message ch m subs;
          (subs2, more) = send_buffered ch ms subs1
      in (subs2, lines @ more))"

definition log_subscribe ::
    "co_env \<Rightarrow> uuid \<Rightarrow> log_level option \<Rightarrow> nat \<Rightarrow> 's coordinator \<Rightarrow> bool \<times> 's coordinator" where
  "log_subscribe env u l sender co =
     (case map_of (co_running co) u of
        None \<Rightarrow> (False, co)
      | Some df \<Rightarrow>
          (let (subs, lines) = send_buffered (e_chan env) (cd_buffered_log_messages df)
                 (cd_log_subscribers df @ [\<lparr>cls_level = l, cls_sender = Some sender\<rparr>])
           in (True, (set_running u (df\<lparr>cd_log_subscribers := subs, cd_buffered_log_messages := []\<rparr>) co)
                       \<lparr>co_log_lines := co_log_lines co @ lines\<rparr>)))"

definition build_log_subscribe ::
    "co_env \<Rightarrow> uuid \<Rightarrow> log_level option \<Rightarrow> nat \<Rightarrow> 's coordinator \<Rightarrow> bool \<times> 's coordinator" where
  "build_log_subscribe env b l sender co =
     (case map_of (co_running_builds co) b of
        None \<Rightarrow> (False, co)
      | Some build \<Rightarrow>
          (let (subs, lines) = send_buffered (e_chan env) (rb_buffered_log_messages build)
                 (rb_log_subscribers build @ [\<lparr>cls_level = l, cls_sender = Some sender\<rparr>])
           in (True, co\<lparr>co_running_builds := hm_insert b
                          (build\<lparr>rb_log_subscribers := subs, rb_buffered_log_messages := []\<rparr>) (co_running_builds co),
                        co_log_lines := co_log_lines co @ lines\<rparr>)))"

definition topic_check :: "uuid \<Rightarrow> topic list \<Rightarrow> 's coordinator \<Rightarrow> bool" where
  "topic_check u tps co \<longleftrightarrow> is_ok (topic_outputs_by_daemon u tps co) \<and> topic_debug_enabled u co = Ok True"

definition topic_debug_data :: "co_env \<Rightarrow> uuid \<Rightarrow> uuid list \<Rightarrow> string \<Rightarrow> 's coordinator \<Rightarrow> 's coordinator" where
  "topic_debug_data env u is payload co =
     (case map_of (co_running co) u of
        None \<Rightarrow> co
      | Some df \<Rightarrow>
          (let (subs, sent) = send_topic_frames (e_chan env) is payload (cd_topic_subscribers df)
           in (set_running u (df\<lparr>cd_topic_subscribers := subs\<rparr>) co)\<lparr>co_frames := co_frames co @ sent\<rparr>))"

section \<open>Daemons that come back\<close>

definition reconcile :: "co_env \<Rightarrow> 's store_ops \<Rightarrow> uuid \<Rightarrow> 's \<Rightarrow> 's" where
  "reconcile env ops u s =
     (case so_get_dataflow ops u s of
        Ok (Some r) \<Rightarrow>
          (case dr_status r of
             StFailed _ \<Rightarrow> put_status env ops StRunning r s
           | StPending \<Rightarrow> put_status env ops StRunning r s
           | StRecovering \<Rightarrow> put_status env ops StRunning r s
           | _ \<Rightarrow> s)
      | _ \<Rightarrow> s)"

definition RECOVERY_BACKOFF :: nat where
  "RECOVERY_BACKOFF = 30000000000"

definition respawn_command :: "uuid \<Rightarrow> daemon_id \<Rightarrow> co_dataflow \<Rightarrow> spawn_command" where
  "respawn_command u d df =
     \<lparr>sc_build_id = None, sc_dataflow_id = u, sc_local_working_dir = None, sc_nodes = cd_nodes df,
      sc_descriptor = cd_descriptor df, sc_spawn_nodes = nodes_on_daemon d df, sc_uv = cd_uv df,
      sc_write_events_to = None\<rparr>"

text \<open>A dataflow that should run on the daemon: its nodes are spawned again if it is not reported.\<close>

definition recover_dataflow ::
    "co_env \<Rightarrow> daemon_id \<Rightarrow> uuid list \<Rightarrow> uuid \<Rightarrow> 's coordinator \<Rightarrow> 's coordinator" where
  "recover_dataflow env d reported u co =
     (case map_of (co_running co) u of
        None \<Rightarrow> co
      | Some df \<Rightarrow>
          if d \<notin> set (cd_daemons df) then co
          else if u \<in> set reported
          then set_running u (df\<lparr>cd_last_recovery_attempt := bt_remove d (cd_last_recovery_attempt df)\<rparr>) co
          else if (case map_of (cd_last_recovery_attempt df) d of
                     None \<Rightarrow> False | Some t \<Rightarrow> e_now env - t < RECOVERY_BACKOFF) then co
          else if nodes_on_daemon d df = [] then co
          else (let co1 = set_running u (df\<lparr>cd_last_recovery_attempt :=
                            bt_insert d (e_now env) (cd_last_recovery_attempt df)\<rparr>) co
                in if map_of (co_connections co) d = None then co1
                   else snd (co_send env d (CmdSpawn (respawn_command u d df)) co1)))"

definition catch_up_dataflow ::
    "co_env \<Rightarrow> 's store_ops \<Rightarrow> daemon_id \<Rightarrow> uuid list \<Rightarrow> uuid \<Rightarrow> 's coordinator \<Rightarrow> 's coordinator" where
  "catch_up_dataflow env ops d reported u co =
     (case map_of (co_running co) u of
        None \<Rightarrow> co
      | Some df \<Rightarrow>
          if d \<notin> set (cd_daemons df) \<or> u \<notin> set reported then co
          else if ack_of d df \<ge> cd_state_log_sequence df then co
          else (case state_log_delta (ack_of d df) df of
                  Some [] \<Rightarrow> co
                | Some es \<Rightarrow>
                    if map_of (co_connections co) d = None then co
                    else snd (co_send env d (CmdStateCatchUp u es) co)
                | None \<Rightarrow>
                    (let (df', co1) = handle_pruned_state_catchup_fallback env ops u d df co
                     in set_running u df' co1)))"

definition status_report ::
    "co_env \<Rightarrow> 's store_ops \<Rightarrow> daemon_id \<Rightarrow> (uuid \<times> node_id list) list \<Rightarrow> 's coordinator \<Rightarrow> 's coordinator" where
  "status_report env ops d entries co =
     (let reported = bs_collect (map fst entries);
          co1 = co\<lparr>co_store := fold (reconcile env ops) (map fst entries) (co_store co)\<rparr>;
          co2 = restore_topic_debug_streams_for_daemon d reported co1;
          co3 = fold (recover_dataflow env d reported) (map fst (co_running co2)) co2
      in fold (catch_up_dataflow env ops d reported) (map fst (co_running co3)) co3)"

definition catch_up_ack :: "daemon_id \<Rightarrow> uuid \<Rightarrow> nat \<Rightarrow> 's coordinator \<Rightarrow> 's coordinator" where
  "catch_up_ack d u a co =
     (case map_of (co_running co) u of
        None \<Rightarrow> co
      | Some df \<Rightarrow> set_running u (state_catch_up_ack d a df) co)"

section \<open>The main loop\<close>

fun handle_event ::
    "co_env \<Rightarrow> 's store_ops \<Rightarrow> co_event \<Rightarrow> 's coordinator \<Rightarrow> (co_error, side_reply) outcome \<times> 's coordinator" where
  "handle_event env ops (EvRegister mid v ls sent) co =
     (let (d, co1) = register_daemon env ops mid v ls sent co in (Ok (Assigned d), co1))"
| "handle_event env ops (EvReadyOnDaemon u d exited) co =
     (let (r, co1) = ready_on_daemon env u d exited co in (and_then r (\<lambda>_. Ok NoReply), co1))"
| "handle_event env ops (EvFinishedOnDaemon u d result) co = (Ok NoReply, finished_on_daemon env ops u d result co)"
| "handle_event env ops (EvRequest r req) co =
     (let (res, co1) = handle_request env ops r req co in (and_then res (\<lambda>_. Ok NoReply), co1))"
| "handle_event env ops EvControlError co = (Ok NoReply, co)"
| "handle_event env ops (EvLogSubscribe u l sender) co =
     (let (found, co1) = log_subscribe env u l sender co in (Ok (Found found), co1))"
| "handle_event env ops (EvBuildLogSubscribe b l sender) co =
     (let (found, co1) = build_log_subscribe env b l sender co in (Ok (Found found), co1))"
| "handle_event env ops (EvTopicSubscribe u tps sender) co =
     (let (r, co1) = co_start_topic_debug_stream env u tps sender co in (Ok (Subscribed r), co1))"
| "handle_event env ops (EvTopicCheck u tps) co = (Ok (Found (topic_check u tps co)), co)"
| "handle_event env ops (EvTopicUnsubscribe sub) co =
     (let (r, co1) = co_stop_topic_debug_stream env sub co in (Ok Unsubscribed, co1))"
| "handle_event env ops EvHeartbeatInterval co = (Ok NoReply, heartbeat_interval env ops co)"
| "handle_event env ops EvCtrlC co =
     (let (r, co1) = handle_destroy env ops co in (and_then r (\<lambda>_. Ok NoReply), co1))"
| "handle_event env ops (EvDaemonHeartbeat d stats) co = (Ok NoReply, daemon_heartbeat env d stats co)"
| "handle_event env ops (EvLog m) co = (Ok NoReply, log_event env m co)"
| "handle_event env ops (EvTopicDebugData u is payload) co = (Ok NoReply, topic_debug_data env u is payload co)"
| "handle_event env ops (EvDaemonExit d) co = (Ok NoReply, daemon_exit ops d co)"
| "handle_event env ops (EvNodeMetrics u ms net) co = (Ok NoReply, node_metrics_event u ms net co)"
| "handle_event env ops (EvBuildResult b d result) co = (Ok NoReply, build_result b d result co)"
| "handle_event env ops (EvSpawnResult u d result) co = (Ok NoReply, spawn_result env ops u d result co)"
| "handle_event env ops (EvStatusReport d entries) co = (Ok NoReply, status_report env ops d entries co)"
| "handle_event env ops (EvCatchUpAck d u a) co = (Ok NoReply, catch_up_ack d u a co)"

text \<open>The stream of events ends when it is aborted by a destroy. An error of a handler ends the loop.\<close>

fun event_loop ::
    "'s store_ops \<Rightarrow> (co_env \<times> co_event) list \<Rightarrow> 's coordinator \<Rightarrow> (co_error, unit) outcome \<times> 's coordinator" where
  "event_loop ops [] co = (Ok (), co)"
| "event_loop ops ((env, ev) # evs) co =
     (if co_aborted co then (Ok (), co)
      else case handle_event env ops ev co of
             (Ok _, co1) \<Rightarrow> event_loop ops evs co1
           | (Err e, co1) \<Rightarrow> (Err e, co1)
           | (Panic, co1) \<Rightarrow> (Panic, co1))"

end
