(* ===== verification/Coordinator_Invariants.thy ===== *)
theory Coordinator_Invariants
  imports Coordinator "HOL-Library.Multiset"
begin

text \<open>
  What holds in every state of the coordinator: the shape and the bounds of its tables, and the
  account of requests (each is answered at most once, and none is lost), with lemmas on how each
  handler changes them.
\<close>

section \<open>Handlers that only talk to daemons\<close>

definition sends :: "'s coordinator \<Rightarrow> 's coordinator \<Rightarrow> bool" where
  "sends co co' \<longleftrightarrow> (\<exists>cs. co' = co\<lparr>co_sent := co_sent co @ cs\<rparr>)"

named_theorems sends_rules

lemma sends_refl [sends_rules, simp]: "sends co co"
  unfolding sends_def by (rule exI[of _ "[]"]) simp

lemma sends_trans: "sends a b \<Longrightarrow> sends b c \<Longrightarrow> sends a c"
  unfolding sends_def by force

lemma sends_append [sends_rules]: "sends co (co\<lparr>co_sent := co_sent co @ cs\<rparr>)"
  unfolding sends_def by blast

lemma sends_emit [sends_rules, simp]: "sends co (emit d cmd co)"
  unfolding emit_def by (rule sends_append)

lemma sendsD:
  assumes "sends co co'"
  shows "co_running_builds co' = co_running_builds co" "co_finished_builds co' = co_finished_builds co"
    "co_running co' = co_running co" "co_results co' = co_results co" "co_archived co' = co_archived co"
    "co_connections co' = co_connections co" "co_store co' = co_store co" "co_answers co' = co_answers co"
    "co_aborted co' = co_aborted co"
  using assms by (auto simp: sends_def)

lemma co_send_sends [sends_rules, simp]: "co_send env d cmd co = (r, co') \<Longrightarrow> sends co co'"
  by (auto simp: co_send_def split: if_splits)

lemma command_sends [sends_rules]: "command env sel cmd d co = (r, co') \<Longrightarrow> sends co co'"
  by (auto simp: command_def split: if_splits)

lemma command_all_sends [sends_rules]: "command_all env sel cmd ds co = (r, co') \<Longrightarrow> sends co co'"
  by (induction ds arbitrary: co)
    (auto split: prod.splits outcome.splits dest: command_sends intro: sends_trans)

lemma co_stop_dataflow_sends [sends_rules]: "co_stop_dataflow env u g f co = (r, co') \<Longrightarrow> sends co co'"
  by (auto simp: co_stop_dataflow_def split: option.splits prod.splits outcome.splits dest: command_all_sends)

lemma reload_dataflow_sends [sends_rules]: "reload_dataflow env u n op co = (r, co') \<Longrightarrow> sends co co'"
  by (auto simp: reload_dataflow_def split: option.splits dest: command_all_sends)

lemma dispatch_node_command_sends [sends_rules]:
  "dispatch_node_command env sel u n cmd co = (r, co') \<Longrightarrow> sends co co'"
  by (auto simp: dispatch_node_command_def split: option.splits dest: command_sends)

lemma retrieve_logs_sends [sends_rules]: "retrieve_logs env u n k co = (r, co') \<Longrightarrow> sends co co'"
  by (auto simp: retrieve_logs_def Let_def split: option.splits list.splits)

lemma rollback_sends [sends_rules]: "rollback_spawned_daemons env u ds co = (r, co') \<Longrightarrow> sends co co'"
  by (induction ds arbitrary: co r co')
    (auto simp: Let_def split: prod.splits dest: command_sends intro: sends_trans)

lemma spawn_each_sends [sends_rules]: "spawn_each env mk u gs ds n2d co = (r, co') \<Longrightarrow> sends co co'"
proof (induction env mk u gs ds n2d co rule: spawn_each.induct)
  case (2 env mk u d ns gs daemons n2d co)
  obtain res co1 where c: "command env trigger_spawn_result (CmdSpawn (mk (bs_collect (map rn_id ns)))) d co = (res, co1)"
    by fastforce
  note s = command_sends[OF c]
  show ?case
  proof (cases "map_of (co_connections co) d = None \<or> is_ok res")
    case True
    then show ?thesis using 2 c s by (auto simp: is_ok_iff split: if_splits intro: sends_trans)
  next
    case False
    then show ?thesis using 2(2) c s
      by (auto simp: Let_def split: outcome.splits prod.splits dest!: rollback_sends intro: sends_trans)
  qed
qed auto

lemma spawn_dataflow_sends [sends_rules]: "co_spawn_dataflow env b desc wd uv ev co = (r, co') \<Longrightarrow> sends co co'"
  by (auto simp: co_spawn_dataflow_def Let_def split: outcome.splits prod.splits dest: spawn_each_sends)

lemma co_start_dataflow_sends [sends_rules]: "co_start_dataflow env b desc wd nm uv ev co = (r, co') \<Longrightarrow> sends co co'"
  by (auto simp: co_start_dataflow_def split: outcome.splits prod.splits dest: spawn_dataflow_sends)

lemma build_each_sends [sends_rules]: "build_each env mk gs ds co = (r, co') \<Longrightarrow> sends co co'"
  by (induction env mk gs ds co rule: build_each.induct)
    (auto split: prod.splits outcome.splits dest: command_sends intro: sends_trans)

lemma build_dataflow_sends [sends_rules]: "build_dataflow env b desc srcs prev wd uv co = (r, co') \<Longrightarrow> sends co co'"
  by (auto simp: build_dataflow_def Let_def split: outcome.splits prod.splits dest: build_each_sends)

lemma stop_each_sends [sends_rules]: "stop_each env us co = (r, co') \<Longrightarrow> sends co co'"
  by (induction us arbitrary: co)
    (auto split: prod.splits outcome.splits dest: co_stop_dataflow_sends intro: sends_trans)

lemma rollback_streams_sends [sends_rules]: "rollback_streams env u sub ds co = (r, co') \<Longrightarrow> sends co co'"
  by (induction ds arbitrary: co)
    (auto simp: Let_def split: if_splits raw_answer.splits intro: sends_trans[OF sends_emit])

lemma dispatch_any_sends [sends_rules]: "dispatch_any env cmd d co = (r, co') \<Longrightarrow> sends co co'"
  by (auto simp: dispatch_any_def split: if_splits)

lemma send_all_ready_sends [sends_rules]: "send_all_ready env cmd ds co = (r, co') \<Longrightarrow> sends co co'"
  by (induction ds arbitrary: co)
    (auto split: if_splits prod.splits bool.splits dest: co_send_sends intro: sends_trans)

lemma logs_request_sends [sends_rules]: "logs_request env u nm n k co = (r, co') \<Longrightarrow> sends co co'"
  by (auto simp: logs_request_def split: option.splits outcome.splits dest: retrieve_logs_sends)

lemma mapping_request_sends [sends_rules]: "mapping_request env cmd u t co = (r, co') \<Longrightarrow> sends co co'"
  by (auto simp: mapping_request_def split: option.splits dest: dispatch_any_sends)

lemma replay_sends [sends_rules]: "replay_persisted_params_for_daemon env ops u d ns co = (r, co') \<Longrightarrow> sends co co'"
  by (auto simp: replay_persisted_params_for_daemon_def Let_def intro: sends_append)

section \<open>The account of requests\<close>

fun waiters :: "cached_result \<Rightarrow> request list" where
  "waiters (PendingResult rs) = rs"
| "waiters (Cached _) = []"

fun is_cached :: "cached_result \<Rightarrow> bool" where
  "is_cached (PendingResult _) = False"
| "is_cached (Cached _) = True"

lemma is_cached_waiters: "is_cached c \<Longrightarrow> waiters c = []"
  by (cases c) auto

lemma is_cached_set_result: "cached_set_result res c = (now, c') \<Longrightarrow> is_cached c'"
  by (cases c) auto

lemma is_cached_register: "cached_register r c = (now, c') \<Longrightarrow> is_cached c' = is_cached c"
  by (cases c) auto

definition df_waiters :: "co_dataflow \<Rightarrow> request multiset" where
  "df_waiters df = mset (waiters (cd_spawn_result df)) + mset (cd_stop_reply_senders df)"

definition build_waiters :: "running_build \<Rightarrow> request multiset" where
  "build_waiters b = mset (waiters (rb_build_result b))"

definition cached_waiters :: "cached_result \<Rightarrow> request multiset" where
  "cached_waiters c = mset (waiters c)"

definition sum_of :: "('v \<Rightarrow> 'a multiset) \<Rightarrow> ('k \<times> 'v) list \<Rightarrow> 'a multiset" where
  "sum_of f m = sum_list (map (\<lambda>(k, v). f v) m)"

text \<open>The requests that were answered and those that wait somewhere, with multiplicity.\<close>

definition account :: "'s coordinator \<Rightarrow> request multiset" where
  "account co = mset (map fst (co_answers co)) + sum_of build_waiters (co_running_builds co) +
     sum_of cached_waiters (co_finished_builds co) + sum_of df_waiters (co_running co)"

lemma sum_of_simps [simp]:
  "sum_of f [] = {#}" "sum_of f ((k, v) # m) = f v + sum_of f m" "sum_of f (a @ b) = sum_of f a + sum_of f b"
  by (simp_all add: sum_of_def)

lemma sum_of_update: "map_of m k = Some v \<Longrightarrow> sum_of f (hm_insert k v' m) + f v = sum_of f m + f v'"
  by (induction m) (auto simp: ac_simps)

lemma sum_of_update_same: "map_of m k = Some v \<Longrightarrow> f v' = f v \<Longrightarrow> sum_of f (hm_insert k v' m) = sum_of f m"
  using sum_of_update[of m k v f v'] by simp

lemma sum_of_new: "map_of m k = None \<Longrightarrow> sum_of f (hm_insert k v m) = sum_of f m + f v"
  by (induction m) (auto simp: ac_simps split: if_splits)

lemma sum_of_update_empty: "f v = {#} \<Longrightarrow> sum_of f (hm_insert k v m) \<subseteq># sum_of f m"
  by (induction m) auto

lemma sum_of_remove_absent: "k \<notin> fst ` set m \<Longrightarrow> sum_of f (hm_remove k m) = sum_of f m"
  by (induction m) auto

lemma sum_of_remove: "hm_wf m \<Longrightarrow> map_of m k = Some v \<Longrightarrow> sum_of f (hm_remove k m) + f v = sum_of f m"
  by (induction m) (auto simp: sum_of_remove_absent ac_simps split: if_splits)

lemma sum_of_empty: "\<forall>v \<in> snd ` set m. f v = {#} \<Longrightarrow> sum_of f m = {#}"
  by (induction m) auto

lemma cached_set_result_waiters:
  "cached_set_result res c = (now, c') \<Longrightarrow> waiters c' = [] \<and> mset (map fst now) = mset (waiters c)"
  by (cases c) (auto simp: multiset.map_comp comp_def)

lemma cached_register_waiters:
  "cached_register r c = (now, c') \<Longrightarrow> mset (map fst now) + mset (waiters c') = mset (waiters c) + {#r#}"
  by (cases c) auto

lemma account_sends: "sends co co' \<Longrightarrow> account co' = account co"
  by (simp add: account_def sendsD)

lemma account_answer [simp]: "account (answer r res co) = account co + {#r#}"
  by (simp add: account_def answer_def)

lemma account_frame [simp]:
  "account (co\<lparr>co_store := s\<rparr>) = account co" "account (co\<lparr>co_connections := cs\<rparr>) = account co"
  "account (co\<lparr>co_sent := x\<rparr>) = account co" "account (co\<lparr>co_results := y\<rparr>) = account co"
  "account (co\<lparr>co_log_lines := z\<rparr>) = account co" "account (co\<lparr>co_frames := f\<rparr>) = account co"
  "account (co\<lparr>co_replays := p\<rparr>) = account co" "account (co\<lparr>co_aborted := b\<rparr>) = account co"
  "account (co\<lparr>co_archived := a\<rparr>) = account co" "account (emit d cmd co) = account co"
  by (simp_all add: account_def emit_def)

lemma account_set_running:
  assumes "map_of (co_running co) u = Some df"
  shows "account (set_running u df' co) + df_waiters df = account co + df_waiters df'"
  using sum_of_update[OF assms, of df_waiters df'] by (simp add: account_def set_running_def ac_simps)

lemma account_set_running_same:
  "map_of (co_running co) u = Some df \<Longrightarrow> df_waiters df' = df_waiters df \<Longrightarrow> account (set_running u df' co) = account co"
  using account_set_running[of co u df df'] by simp

lemma account_set_running_new:
  assumes "df_waiters df = {#}"
  shows "account (set_running u df co) \<subseteq># account co"
    "map_of (co_running co) u = None \<Longrightarrow> account (set_running u df co) = account co"
  using assms sum_of_update_empty[of df_waiters df u "co_running co"] sum_of_new[of "co_running co" u df_waiters df]
  by (auto simp: account_def set_running_def)

lemma persist_fields:
  assumes "persist env ops st df s = (df', s')"
  shows "df' = df\<lparr>cd_store_generation := cd_store_generation df + 1\<rparr>"
  using assms by (auto simp: persist_def make_record_def Let_def split: option.splits prod.splits)

lemma df_waiters_frame [simp]:
  "df_waiters (df\<lparr>cd_store_generation := g\<rparr>) = df_waiters df" "df_waiters (df\<lparr>cd_daemons := ds\<rparr>) = df_waiters df"
  "df_waiters (df\<lparr>cd_pending_daemons := ds\<rparr>) = df_waiters df"
  "df_waiters (df\<lparr>cd_exited_before_subscribe := ns\<rparr>) = df_waiters df"
  "df_waiters (df\<lparr>cd_pending_spawn_results := ds\<rparr>) = df_waiters df"
  "df_waiters (df\<lparr>cd_topic_subscribers := ts\<rparr>) = df_waiters df"
  "df_waiters (df\<lparr>cd_log_subscribers := ls\<rparr>) = df_waiters df"
  "df_waiters (df\<lparr>cd_buffered_log_messages := ms\<rparr>) = df_waiters df"
  "df_waiters (df\<lparr>cd_node_metrics := nm\<rparr>) = df_waiters df" "df_waiters (df\<lparr>cd_network_metrics := nw\<rparr>) = df_waiters df"
  "df_waiters (df\<lparr>cd_last_recovery_attempt := la\<rparr>) = df_waiters df"
  "df_waiters (df\<lparr>cd_last_replay_attempt := lr\<rparr>) = df_waiters df"
  "df_waiters (df\<lparr>cd_node_to_daemon := nd\<rparr>) = df_waiters df" "df_waiters (df\<lparr>cd_descriptor := de\<rparr>) = df_waiters df"
  "df_waiters (df\<lparr>cd_nodes := nds\<rparr>) = df_waiters df" "df_waiters (append_state_log op df) = df_waiters df"
  "df_waiters (state_catch_up_ack d a df) = df_waiters df" "df_waiters (ack_full_replay d df) = df_waiters df"
  "df_waiters (close_topic_subscribers_on_finish df) = df_waiters df"
  "df_waiters (forget_daemons ds df) = df_waiters df"
  by (simp_all add: df_waiters_def append_state_log_def state_catch_up_ack_def ack_full_replay_def
      prune_state_log_def close_topic_subscribers_on_finish_def forget_daemons_def Let_def)

lemma settle:
  assumes "a + c = b + d" "n + d = c + r"
  shows "n + a = b + (r :: 'a multiset)"
proof -
  have "(n + a) + c = b + (n + d)" using assms(1) by (simp add: ac_simps)
  also have "\<dots> = (b + r) + c" using assms(2) by (simp add: ac_simps)
  finally show ?thesis by simp
qed

lemma account_wait_for_build: "account (wait_for_build r b co) = account co + {#r#}"
proof (cases "map_of (co_running_builds co) b")
  case (Some build)
  obtain now c where c: "cached_register r (rb_build_result build) = (now, c)" by fastforce
  note w = cached_register_waiters[OF c]
  have "sum_of build_waiters (hm_insert b (build\<lparr>rb_build_result := c\<rparr>) (co_running_builds co)) + build_waiters build =
        sum_of build_waiters (co_running_builds co) + mset (waiters c)"
    using sum_of_update[OF Some, of build_waiters "build\<lparr>rb_build_result := c\<rparr>"] by (simp add: build_waiters_def)
  then have "mset (map fst now) + sum_of build_waiters (hm_insert b (build\<lparr>rb_build_result := c\<rparr>) (co_running_builds co)) =
        sum_of build_waiters (co_running_builds co) + {#r#}"
    using settle[OF _ w] by (simp add: build_waiters_def)
  then show ?thesis by (simp add: wait_for_build_def Some c account_def ac_simps)
next
  case None
  note n = this
  show ?thesis
  proof (cases "map_of (co_finished_builds co) b")
    case (Some cached)
    obtain now c where c: "cached_register r cached = (now, c)" by fastforce
    note w = cached_register_waiters[OF c]
    have "sum_of cached_waiters (hm_insert b c (co_finished_builds co)) + mset (waiters cached) =
          sum_of cached_waiters (co_finished_builds co) + mset (waiters c)"
      using sum_of_update[OF Some, of cached_waiters c] by (simp add: cached_waiters_def)
    then have "mset (map fst now) + sum_of cached_waiters (hm_insert b c (co_finished_builds co)) =
          sum_of cached_waiters (co_finished_builds co) + {#r#}"
      using settle[OF _ w] by simp
    then show ?thesis by (simp add: wait_for_build_def n Some c account_def ac_simps)
  qed (simp add: wait_for_build_def n)
qed

lemma account_answers:
  "account (co\<lparr>co_answers := co_answers co @ now\<rparr>) = account co + mset (map fst now)"
  by (simp add: account_def ac_simps)

lemma account_wait_for_spawn: "account (wait_for_spawn r u co) = account co + {#r#}"
proof (cases "map_of (co_running co) u")
  case (Some df)
  obtain now c where c: "cached_register r (cd_spawn_result df) = (now, c)" by fastforce
  have "account (set_running u (df\<lparr>cd_spawn_result := c\<rparr>) co) + df_waiters df =
        account co + df_waiters (df\<lparr>cd_spawn_result := c\<rparr>)"
    by (rule account_set_running[OF Some])
  moreover have "mset (map fst now) + df_waiters (df\<lparr>cd_spawn_result := c\<rparr>) = df_waiters df + {#r#}"
    using arg_cong[OF cached_register_waiters[OF c], of "\<lambda>x. x + mset (cd_stop_reply_senders df)"]
    by (simp add: df_waiters_def add.assoc)
  ultimately have "mset (map fst now) + account (set_running u (df\<lparr>cd_spawn_result := c\<rparr>) co) = account co + {#r#}"
    by (rule settle)
  moreover have "co_answers (set_running u (df\<lparr>cd_spawn_result := c\<rparr>) co) = co_answers co" by (simp add: set_running_def)
  ultimately show ?thesis
    using account_answers[of "set_running u (df\<lparr>cd_spawn_result := c\<rparr>) co" now]
    by (simp add: wait_for_spawn_def Some c add.commute)
qed (simp add: wait_for_spawn_def)

lemma account_stop_request:
  assumes "stop_request env ops r u g f co = (res, co')"
  shows "account co' = account co + (if res = Panic then {#} else {#r#})"
proof (cases "map_of (co_results co) u")
  case None
  obtain x co1 where s: "co_stop_dataflow env u g f co = (x, co1)" by fastforce
  note sd = co_stop_dataflow_sends[OF s]
  show ?thesis
  proof (cases x)
    case (Ok df)
    obtain df' t where p: "persist env ops StStopping df (co_store co1) = (df', t)" by fastforce
    note df' = persist_fields[OF p]
    have run: "map_of (co_running (co1\<lparr>co_store := t\<rparr>)) u = Some df"
      using s Ok sendsD(3)[OF sd]
      by (auto simp: co_stop_dataflow_def split: option.splits prod.splits outcome.splits)
    have w: "df_waiters (df'\<lparr>cd_stop_reply_senders := cd_stop_reply_senders df' @ [r]\<rparr>) = df_waiters df + {#r#}"
      unfolding df' by (simp add: df_waiters_def)
    have "co' = set_running u (df'\<lparr>cd_stop_reply_senders := cd_stop_reply_senders df' @ [r]\<rparr>) (co1\<lparr>co_store := t\<rparr>)" "res = Ok ()"
      using assms None s Ok p by (auto simp: stop_request_def)
    then show ?thesis using account_set_running[OF run, of "df'\<lparr>cd_stop_reply_senders := cd_stop_reply_senders df' @ [r]\<rparr>"]
      account_sends[OF sd] w by simp
  qed (use assms None s account_sends[OF sd] in \<open>auto simp: stop_request_def\<close>)
qed (use assms in \<open>auto simp: stop_request_def\<close>)

lemma build_dataflow_waiters: "build_dataflow env b desc srcs prev wd uv co = (Ok build, co1) \<Longrightarrow> build_waiters build = {#}"
  by (auto simp: build_dataflow_def Let_def build_waiters_def cached_default_def split: outcome.splits prod.splits)

lemma account_build_request:
  assumes "build_request env desc srcs prev wd uv co = (res, co')"
  shows "account co' \<subseteq># account co"
    "map_of (co_running_builds co) (e_fresh env) = None \<Longrightarrow> account co' = account co"
proof -
  obtain x co1 where b: "build_dataflow env (e_fresh env) desc srcs prev wd uv co = (x, co1)" by fastforce
  note sd = build_dataflow_sends[OF b]
  have "account co' \<subseteq># account co \<and> (map_of (co_running_builds co) (e_fresh env) = None \<longrightarrow> account co' = account co)"
  proof (cases x)
    case (Ok build)
    have w: "build_waiters build = {#}" using build_dataflow_waiters b Ok by blast
    have co': "co' = co1\<lparr>co_running_builds := hm_insert (e_fresh env) build (co_running_builds co1)\<rparr>"
      using assms b Ok by (simp add: build_request_def Let_def)
    have "account co' \<subseteq># account co1 \<and> (map_of (co_running_builds co1) (e_fresh env) = None \<longrightarrow> account co' = account co1)"
      using sum_of_update_empty[of build_waiters build "e_fresh env" "co_running_builds co1"]
        sum_of_new[of "co_running_builds co1" "e_fresh env" build_waiters build] w
      by (auto simp: account_def co')
    then show ?thesis using account_sends[OF sd] sendsD(1)[OF sd] by simp
  qed (use assms b account_sends[OF sd] in \<open>auto simp: build_request_def\<close>)
  then show "account co' \<subseteq># account co"
    "map_of (co_running_builds co) (e_fresh env) = None \<Longrightarrow> account co' = account co" by auto
qed

lemma started_waiters:
  assumes "co_start_dataflow env b desc wd nm uv ev co = (Ok df, co1)"
  shows "df_waiters df = {#}" "cd_uuid df = e_fresh env"
  using assms
  by (auto simp: co_start_dataflow_def co_spawn_dataflow_def dataflow_of_spawned_def df_waiters_def cached_default_def
      Let_def split: outcome.splits prod.splits)

lemma account_add_dataflow:
  assumes "co_start_dataflow env b desc wd nm uv ev co = (Ok df, co1)" "persist env ops st df s = (df', s')"
  shows "account (set_running (cd_uuid df) df' co2) \<subseteq># account co2"
    "map_of (co_running co2) (e_fresh env) = None \<Longrightarrow> account (set_running (cd_uuid df) df' co2) = account co2"
proof -
  have "df_waiters df' = {#}" using started_waiters[OF assms(1)] persist_fields[OF assms(2)] by simp
  then show "account (set_running (cd_uuid df) df' co2) \<subseteq># account co2"
    "map_of (co_running co2) (e_fresh env) = None \<Longrightarrow> account (set_running (cd_uuid df) df' co2) = account co2"
    using account_set_running_new(1)[of df' "cd_uuid df" co2] account_set_running_new(2)[of df' co2 "cd_uuid df"] started_waiters(2)[OF assms(1)] by auto
qed

lemma account_start_request:
  assumes "start_request env ops b desc nm wd uv ev co = (res, co')"
  shows "account co' \<subseteq># account co \<and> (map_of (co_running co) (e_fresh env) = None \<longrightarrow> account co' = account co)"
proof -
  let ?nm = "case nm of None \<Rightarrow> e_petname env | Some _ \<Rightarrow> nm"
  obtain x co1 where s: "co_start_dataflow env b desc wd ?nm uv ev co = (x, co1)" by fastforce
  note sd = co_start_dataflow_sends[OF s]
  show ?thesis
  proof (cases "\<exists>df. x = Ok df \<and> co' \<noteq> co")
    case True
    then obtain df where x: "x = Ok df" "co' \<noteq> co" by blast
    obtain df' t where p: "persist env ops StPending df (co_store co1) = (df', t)" by fastforce
    have "co' = set_running (cd_uuid df) df' (co1\<lparr>co_store := t\<rparr>)"
      using assms s x p by (auto simp: start_request_def Let_def split: if_splits)
    then show ?thesis
      using account_add_dataflow[OF s[unfolded x(1)] p, of "co1\<lparr>co_store := t\<rparr>"] account_sends[OF sd] sendsD(3)[OF sd] by simp
  next
    case False
    then have "co' = co \<or> co' = co1" using assms s by (auto simp: start_request_def Let_def split: if_splits outcome.splits)
    then show ?thesis using account_sends[OF sd] by auto
  qed
qed

lemma account_remove_running: "account (co\<lparr>co_running := hm_remove u (co_running co)\<rparr>) \<subseteq># account co"
proof -
  have "sum_of df_waiters (hm_remove u m) \<subseteq># sum_of df_waiters m" for m
    by (induction m) (auto intro: subset_mset.order_trans[OF _ mset_subset_eq_add_right])
  then show ?thesis by (simp add: account_def)
qed

lemma account_restart_dataflow:
  assumes "restart_dataflow env ops u g f co = (res, co')"
  shows "account co' \<subseteq># account co"
proof -
  obtain x co1 where s: "co_stop_dataflow env u g f co = (x, co1)" by fastforce
  note sd = co_stop_dataflow_sends[OF s]
  show ?thesis
  proof (cases x)
    case (Ok df)
    obtain df' t where p: "persist env ops StStopping df (co_store co1) = (df', t)" by fastforce
    have run: "map_of (co_running (co1\<lparr>co_store := t\<rparr>)) u = Some df"
      using s Ok sendsD(3)[OF sd]
      by (auto simp: co_stop_dataflow_def split: option.splits prod.splits outcome.splits)
    let ?co2 = "set_running u df' (co1\<lparr>co_store := t\<rparr>)"
    have a2: "account ?co2 = account co"
      using account_set_running_same[OF run, of df'] persist_fields[OF p] account_sends[OF sd] by simp
    obtain y co3 where n: "co_start_dataflow env None (cd_descriptor df) None (cd_name df) (cd_uv df) None ?co2 = (y, co3)"
      by fastforce
    have a3: "account co3 = account co" using account_sends[OF co_start_dataflow_sends[OF n]] a2 by simp
    show ?thesis
    proof (cases y)
      case new: (Ok new)
      let ?co4 = "co3\<lparr>co_running := hm_remove u (co_running co3)\<rparr>"
      obtain new' t' where q: "persist env ops StPending new (co_store ?co4) = (new', t')" by fastforce
      have "co' = set_running (cd_uuid new) new' (?co4\<lparr>co_store := t'\<rparr>)"
        using assms s Ok p n new q by (simp add: restart_dataflow_def Let_def)
      then show ?thesis
        using account_add_dataflow(1)[OF n[unfolded new] q, of "?co4\<lparr>co_store := t'\<rparr>"] account_remove_running[of u co3] a3
        by (metis account_frame(1) subset_mset.order_trans)
    qed (use assms s Ok p n a3 in \<open>auto simp: restart_dataflow_def Let_def\<close>)
  qed (use assms s account_sends[OF sd] in \<open>auto simp: restart_dataflow_def\<close>)
qed

lemma account_forward_param:
  assumes "forward_param env sel u cmd op t co = (res, co')"
  shows "account co' = account co"
proof -
  have "account co' = account (set_running u (append_state_log op df) co)"
    if "command env sel cmd d (set_running u (append_state_log op df) co) = (res, co')" for d df
    using account_sends[OF command_sends[OF that]] .
  then show ?thesis using assms
    by (auto simp: forward_param_def account_set_running_same split: param_target.splits option.splits)
qed

lemma account_set_param: "set_param env ops u n k v co = (res, co') \<Longrightarrow> account co' = account co"
  by (auto simp: set_param_def split: outcome.splits prod.splits dest: account_forward_param)

lemma account_delete_param: "delete_param env ops u n k co = (res, co') \<Longrightarrow> account co' = account co"
  by (auto simp: delete_param_def split: outcome.splits prod.splits dest: account_forward_param)

lemma account_dispatched:
  assumes "dispatch_any env cmd d co = (x, co1)" "map_of (co_running co) u = Some df" "df_waiters df' = df_waiters df"
  shows "account (set_running u df' co1) = account co"
  using account_set_running_same[of co1 u df df'] account_sends[OF dispatch_any_sends[OF assms(1)]]
    sendsD(3)[OF dispatch_any_sends[OF assms(1)]] assms by simp

lemma account_add_node:
  assumes "co_add_node_request env r u nd co = (res, co')"
  shows "account co' = account co + (if is_ok res then {#r#} else {#})"
  using assms account_sends[OF dispatch_any_sends]
  by (auto simp: co_add_node_request_def account_dispatched
      split: option.splits if_splits outcome.splits list.splits prod.splits)

lemma account_remove_node:
  assumes "remove_node_request env u n g co = (res, co')"
  shows "account co' = account co"
  using assms account_sends[OF dispatch_any_sends]
  by (auto simp: remove_node_request_def account_dispatched split: option.splits outcome.splits prod.splits)

lemma account_persist_all: "account (persist_all env ops st us co) = account co"
proof (induction us arbitrary: co)
  case (Cons u us)
  show ?case
  proof (cases "map_of (co_running co) u")
    case (Some df)
    obtain df' s where p: "persist env ops st df (co_store co) = (df', s)" by fastforce
    have "account (set_running u df' (co\<lparr>co_store := s\<rparr>)) = account co"
      using account_set_running_same[of "co\<lparr>co_store := s\<rparr>" u df df'] Some persist_fields[OF p] by simp
    then show ?thesis using Cons Some p by simp
  qed (use Cons in simp)
qed simp

lemma account_handle_destroy:
  assumes "handle_destroy env ops co = (res, co')"
  shows "account co' = account co"
proof -
  let ?co1 = "persist_all env ops StStopping (map fst (co_running co)) (co\<lparr>co_aborted := True\<rparr>)"
  have "account ?co1 = account co" by (simp add: account_persist_all)
  moreover obtain x co2 where s: "stop_each env (map fst (co_running ?co1)) ?co1 = (x, co2)" by fastforce
  ultimately show ?thesis using assms account_sends[OF stop_each_sends[OF s]]
    by (auto simp: handle_destroy_def destroy_daemons_def Let_def account_def split: outcome.splits)
qed

lemma account_respond:
  "respond r f (x, co1) = (res, co') \<Longrightarrow> account co' = account co1 + (if is_ok res then {#r#} else {#})"
  by (auto simp: respond_def split: outcome.splits)

fun is_restart :: "control_request \<Rightarrow> bool" where
  "is_restart (ReqRestart _ _ _) = True"
| "is_restart (ReqRestartByName _ _ _) = True"
| "is_restart _ = False"

definition fresh_for :: "co_env \<Rightarrow> 's coordinator \<Rightarrow> bool" where
  "fresh_for env co \<longleftrightarrow>
     map_of (co_running co) (e_fresh env) = None \<and> map_of (co_running_builds co) (e_fresh env) = None"

definition accounted :: "'s coordinator \<Rightarrow> request multiset \<Rightarrow> bool \<Rightarrow> 's coordinator \<Rightarrow> bool" where
  "accounted co new exact co' \<longleftrightarrow>
     account co' \<subseteq># account co + new \<and> (exact \<longrightarrow> account co' = account co + new)"

lemma accountedI:
  "account co' = account co + (if is_ok res then new else {#}) \<Longrightarrow> accounted co new (is_ok res \<and> b) co'"
  by (auto simp: accounted_def)

lemma accounted_created:
  assumes "respond r f p = (res, co')" "account (snd p) \<subseteq># account co" "b \<longrightarrow> account (snd p) = account co"
  shows "accounted co {#r#} (is_ok res \<and> b) co'"
proof -
  have a: "account co' = account (snd p) + (if is_ok res then {#r#} else {#})"
    using account_respond[of r f "fst p" "snd p"] assms(1) by simp
  have "account (snd p) \<subseteq># account co + {#r#}"
    by (rule subset_mset.order_trans[OF assms(2) mset_subset_eq_add_left])
  then show ?thesis using a assms(2,3) by (auto simp: accounted_def)
qed

lemma accounted_respond:
  "respond r f p = (res, co') \<Longrightarrow> account (snd p) = account co \<Longrightarrow> accounted co {#r#} (is_ok res \<and> b) co'"
  by (rule accounted_created) auto

lemma account_snd [simp]:
  "account (snd (reload_dataflow env u n op co)) = account co"
  "account (snd (co_restart_node env u n g co)) = account co"
  "account (snd (co_stop_node env u n g co)) = account co"
  "account (snd (logs_request env i nm s k co)) = account co"
  "account (snd (mapping_request env cmd u t co)) = account co"
  "account (snd (handle_destroy env ops co)) = account co"
  "account (snd (set_param env ops u n key v co)) = account co"
  "account (snd (delete_param env ops u n key co)) = account co"
  "account (snd (remove_node_request env u n g co)) = account co"
  unfolding co_restart_node_def co_stop_node_def
  by (rule account_sends[OF reload_dataflow_sends[OF prod.collapse[symmetric]]]
      account_sends[OF dispatch_node_command_sends[OF prod.collapse[symmetric]]]
      account_sends[OF logs_request_sends[OF prod.collapse[symmetric]]]
      account_sends[OF mapping_request_sends[OF prod.collapse[symmetric]]]
      account_handle_destroy[OF prod.collapse[symmetric]] account_set_param[OF prod.collapse[symmetric]]
      account_delete_param[OF prod.collapse[symmetric]] account_remove_node[OF prod.collapse[symmetric]])+

lemma accounted_restart:
  "respond r f (restart_dataflow env ops u g fc co) = (res, co') \<Longrightarrow> accounted co {#r#} (is_ok res \<and> False) co'"
  by (rule accounted_created) (auto intro: account_restart_dataflow[OF prod.collapse[symmetric]])

lemma accounted_answer: "accounted co {#r#} b (answer r x co)"
  by (simp add: accounted_def)

lemma accounted_stop:
  "stop_request env ops r u g f co = (res, co') \<Longrightarrow> accounted co {#r#} (is_ok res \<and> b) co'"
  by (drule account_stop_request) (auto simp: accounted_def)

lemma accounted_by_name:
  assumes "by_name r nm f co = (res, co')" "\<And>u. f u co = (res, co') \<Longrightarrow> accounted co {#r#} (is_ok res \<and> b) co'"
  shows "accounted co {#r#} (is_ok res \<and> b) co'"
  using assms by (auto simp: by_name_def accounted_answer split: outcome.splits) (simp add: accounted_def)

lemma account_request:
  assumes "handle_request env ops r req co = (res, co')"
  shows "accounted co {#r#} (is_ok res \<and> \<not> is_restart req \<and> fresh_for env co) co'"
proof (cases req)
  case (ReqBuild desc srcs prev wd uv)
  show ?thesis
    by (rule accounted_created[OF assms[unfolded ReqBuild handle_request.simps]])
      (auto simp: fresh_for_def account_build_request[OF prod.collapse[symmetric]])
next
  case (ReqStart b desc nm wd uv ev)
  show ?thesis
    by (rule accounted_created[OF assms[unfolded ReqStart handle_request.simps]])
      (simp_all add: fresh_for_def account_start_request[OF prod.collapse[symmetric]])
next
  case (ReqRestart u g f)
  then show ?thesis using accounted_restart[OF assms[unfolded ReqRestart handle_request.simps]] by simp
next
  case (ReqRestartByName nm g f)
  then show ?thesis
    using accounted_by_name[OF assms[unfolded ReqRestartByName handle_request.simps] accounted_restart] by simp
next
  case (ReqStop u g f)
  then show ?thesis using accounted_stop assms by simp
next
  case (ReqStopByName nm g f)
  show ?thesis by (rule accounted_by_name[OF assms[unfolded ReqStopByName handle_request.simps] accounted_stop])
next
  case (ReqAddNode u nd)
  show ?thesis by (rule accountedI[OF account_add_node[OF assms[unfolded ReqAddNode handle_request.simps]]])
next
  case (ReqGetParams u n)
  show ?thesis by (rule accounted_respond[OF assms[unfolded ReqGetParams handle_request.simps]]) simp
next
  case (ReqGetParam u n k)
  show ?thesis by (rule accounted_respond[OF assms[unfolded ReqGetParam handle_request.simps]]) simp
qed (use assms in \<open>auto simp: account_wait_for_build account_wait_for_spawn accounted_answer
      intro: accounted_respond accountedI\<close>)

lemma account_running_map:
  assumes "\<And>df. df_waiters (g df) = df_waiters df"
  shows "account (co\<lparr>co_running := map (\<lambda>(u, df). (u, g df)) (co_running co)\<rparr>) = account co"
proof -
  have "sum_of df_waiters (map (\<lambda>(u, df). (u, g df)) m) = sum_of df_waiters m" for m
    by (induction m) (auto simp: assms)
  then show ?thesis by (simp add: account_def)
qed

lemma account_heartbeat_interval: "account (heartbeat_interval env ops co) = account co"
proof -
  have "account (disconnect_daemons env ops ds co) = account co" for ds and co :: "'a coordinator"
    using account_running_map[of "forget_daemons ds" co] by (simp add: disconnect_daemons_def account_def Let_def)
  then show ?thesis by (simp add: heartbeat_interval_def Let_def)
qed

lemma account_ready_on_daemon:
  assumes "ready_on_daemon env u d exited co = (res, co')"
  shows "account co' = account co"
proof (cases "map_of (co_running co) u")
  case (Some df)
  let ?df1 = "df\<lparr>cd_pending_daemons := bs_remove d (cd_pending_daemons df),
    cd_exited_before_subscribe := cd_exited_before_subscribe df @ exited\<rparr>"
  have "account (set_running u ?df1 co) = account co" by (rule account_set_running_same[OF Some]) simp
  moreover obtain x co2 where s: "send_all_ready env (CmdAllNodesReady u (cd_exited_before_subscribe ?df1)) (cd_daemons ?df1)
      (set_running u ?df1 co) = (x, co2)" by fastforce
  ultimately show ?thesis using assms Some account_sends[OF send_all_ready_sends[OF s]]
    by (auto simp: ready_on_daemon_def Let_def schedule_param_replay_for_ready_dataflow_def
        split: if_splits outcome.splits)
qed (use assms in \<open>simp add: ready_on_daemon_def\<close>)

lemma account_remove_settled:
  assumes "hm_wf (co_running co)" "map_of (co_running co) u = Some df" "mset (map fst now) = df_waiters df"
  shows "account (co\<lparr>co_running := hm_remove u (co_running co), co_answers := co_answers co @ now\<rparr>) = account co"
  using sum_of_remove[OF assms(1,2), of df_waiters] assms(3) by (simp add: account_def ac_simps)

lemma account_finished_on_daemon:
  assumes wf: "hm_wf (co_running co)"
  shows "account (finished_on_daemon env ops u d result co) = account co"
proof (cases "map_of (co_running co) u")
  case (Some df)
  let ?df1 = "df\<lparr>cd_daemons := bs_remove d (cd_daemons df)\<rparr>"
  let ?co1 = "co\<lparr>co_results := hm_entry u [] (bt_insert d result) (co_results co)\<rparr>"
  have run: "map_of (co_running ?co1) u = Some df" using Some by simp
  have "account (co_finish_dataflow env ops u ?df1 ?co1) = account ?co1"
  proof -
    let ?df2 = "close_topic_subscribers_on_finish ?df1"
    obtain subs lines where l: "send_log_message (e_chan env) (finished_message (cd_uuid ?df1)) (cd_log_subscribers ?df2) = (subs, lines)"
      by fastforce
    obtain df3 s where p: "persist env ops (final_status (the (map_of (co_results ?co1) u)))
        (?df2\<lparr>cd_log_subscribers := subs\<rparr>) (co_store ?co1) = (df3, s)" by fastforce
    let ?err = "Err (ExitedBeforeSpawn (node_errors (the (map_of (co_results ?co1) u))))"
    obtain now c where c: "cached_set_result ?err (cd_spawn_result df3) = (now, c)" by fastforce
    let ?now = "map (\<lambda>r. (r, Ok (DataflowStopped u (finished_result u ?co1)))) (cd_stop_reply_senders df3) @ now"
    have "df_waiters df3 = df_waiters df" using persist_fields[OF p] by simp
    then have w: "mset (map fst ?now) = df_waiters df"
      using cached_set_result_waiters[OF c] by (auto simp: df_waiters_def multiset.map_comp comp_def ac_simps)
    let ?co2 = "?co1\<lparr>co_running := hm_remove u (co_running ?co1), co_answers := co_answers ?co1 @ ?now\<rparr>"
    have "account (co_finish_dataflow env ops u ?df1 ?co1) = account ?co2"
      using l p c by (simp add: co_finish_dataflow_def Let_def account_def)
    then show ?thesis using account_remove_settled[OF _ run w] wf by simp
  qed
  moreover have "account (set_running u ?df1 ?co1) = account ?co1" by (rule account_set_running_same[OF run]) simp
  ultimately have "account (if b then co_finish_dataflow env ops u ?df1 ?co1 else set_running u ?df1 ?co1) = account co" for b
    by simp
  then show ?thesis unfolding finished_on_daemon_def Some option.case Let_def .
qed (simp add: finished_on_daemon_def)

lemma account_spawn_result: "account (spawn_result env ops u d result co) = account co"
proof (cases "map_of (co_running co) u")
  case (Some df)
  let ?df1 = "df\<lparr>cd_pending_spawn_results := bs_remove d (cd_pending_spawn_results df)\<rparr>"
  have settled: "account (set_running u df' (co\<lparr>co_store := s, co_answers := co_answers co @ now\<rparr>)) = account co"
    if "mset (map fst now) + df_waiters df' = df_waiters df" for df' s now
  proof -
    let ?co1 = "co\<lparr>co_store := s, co_answers := co_answers co @ now\<rparr>"
    have "account (set_running u df' ?co1) + df_waiters df = account ?co1 + df_waiters df'"
      by (rule account_set_running) (simp add: Some)
    also have "\<dots> = account co + df_waiters df"
      by (simp add: account_def ac_simps flip: that)
    finally show ?thesis by simp
  qed
  have w: "mset (map fst now) + df_waiters (df''\<lparr>cd_spawn_result := c\<rparr>) = df_waiters df''"
    if "cached_set_result x (cd_spawn_result df'') = (now, c)" for x now c df''
    using cached_set_result_waiters[OF that] by (simp add: df_waiters_def)
  show ?thesis
  proof (cases result)
    case None
    obtain now c where c: "cached_set_result (Ok (DataflowSpawned u)) (cd_spawn_result ?df1) = (now, c)" by fastforce
    obtain df2 s where p: "persist env ops StRunning (?df1\<lparr>cd_spawn_result := c\<rparr>) (co_store co) = (df2, s)" by fastforce
    have "account (set_running u df2 (co\<lparr>co_store := s, co_answers := co_answers co @ now\<rparr>)) = account co"
      using settled[of now df2 s] w[OF c] persist_fields[OF p] by simp
    moreover have "account (set_running u ?df1 co) = account co" by (rule account_set_running_same[OF Some]) simp
    ultimately have "account (if b then set_running u ?df1 co
        else set_running u df2 (co\<lparr>co_store := s, co_answers := co_answers co @ now\<rparr>)) = account co" for b by simp
    then show ?thesis unfolding spawn_result_def Some None option.case Let_def c prod.case p .
  next
    case (Some e)
    obtain df2 s where p: "persist env ops (StFailed (''spawn failed: '' @ e)) ?df1 (co_store co) = (df2, s)" by fastforce
    obtain now c where c: "cached_set_result (Err (SpawnFailedOn e)) (cd_spawn_result df2) = (now, c)" by fastforce
    show ?thesis using Some \<open>map_of (co_running co) u = Some df\<close> c p settled[of now "df2\<lparr>cd_spawn_result := c\<rparr>" s]
        w[OF c] persist_fields[OF p] by (simp add: spawn_result_def Let_def)
  qed
qed (simp add: spawn_result_def)

lemma hm_insert_values: "snd ` set (hm_insert k v m) \<subseteq> insert v (snd ` set m)"
  by (induction m) auto

lemma account_update_build_same:
  "map_of (co_running_builds co) b = Some v \<Longrightarrow> build_waiters v' = build_waiters v \<Longrightarrow>
   account (co\<lparr>co_running_builds := hm_insert b v' (co_running_builds co)\<rparr>) = account co"
  by (simp add: account_def sum_of_update_same)

lemma account_build_result:
  assumes wf: "hm_wf (co_running_builds co)" and cached: "\<forall>c \<in> snd ` set (co_finished_builds co). waiters c = []"
  shows "account (build_result b d result co) = account co"
proof (cases "map_of (co_running_builds co) b")
  case (Some build)
  let ?build1 = "build\<lparr>rb_pending_build_results := bs_remove d (rb_pending_build_results build),
    rb_errors := rb_errors build @ (case result of None \<Rightarrow> [] | Some e \<Rightarrow> [e])\<rparr>"
  let ?res = "Ok (DataflowBuildFinished b (if rb_errors ?build1 = [] then None else Some (rb_errors ?build1)))"
  obtain now c where c: "cached_set_result ?res (rb_build_result ?build1) = (now, c)" by fastforce
  note w = cached_set_result_waiters[OF c]
  have "snd ` set (keep_newest n (hm_insert b c m)) \<subseteq> insert c (snd ` set m)" for n m
    unfolding keep_newest_def by (rule order_trans[OF image_mono[OF set_drop_subset] hm_insert_values])
  then have "\<forall>v \<in> snd ` set (keep_newest MAX_FINISHED_BUILDS (hm_insert b c (co_finished_builds co))). waiters v = []"
    using cached conjunct1[OF w] by blast
  then have f: "sum_of cached_waiters (keep_newest MAX_FINISHED_BUILDS (hm_insert b c (co_finished_builds co))) = {#}"
    by (intro sum_of_empty) (auto simp: cached_waiters_def)
  have g: "sum_of cached_waiters (co_finished_builds co) = {#}"
    using cached by (intro sum_of_empty) (auto simp: cached_waiters_def)
  have "account (co\<lparr>co_running_builds := hm_remove b (co_running_builds co),
      co_finished_builds := keep_newest MAX_FINISHED_BUILDS (hm_insert b c (co_finished_builds co)),
      co_answers := co_answers co @ now\<rparr>) = account co"
    unfolding account_def using sum_of_remove[OF wf Some, of build_waiters] conjunct2[OF w] f g
    by (simp add: build_waiters_def ac_simps)
  moreover have "account (co\<lparr>co_running_builds := hm_insert b ?build1 (co_running_builds co)\<rparr>) = account co"
    by (rule account_update_build_same[OF Some]) (simp add: build_waiters_def)
  ultimately have "account (if x then co\<lparr>co_running_builds := hm_insert b ?build1 (co_running_builds co)\<rparr>
      else co\<lparr>co_running_builds := hm_remove b (co_running_builds co),
        co_finished_builds := keep_newest MAX_FINISHED_BUILDS (hm_insert b c (co_finished_builds co)),
        co_answers := co_answers co @ now\<rparr>) = account co" for x by simp
  then show ?thesis unfolding build_result_def Some option.case Let_def c prod.case .
qed (simp add: build_result_def)

lemma set_running_frame [simp]:
  "co_log_lines (set_running u df co) = co_log_lines co" "co_frames (set_running u df co) = co_frames co"
  by (simp_all add: set_running_def)

lemma account_log_event: "account (log_event env m co) = account co"
  by (auto simp: log_event_def account_set_running_same Let_def split: option.splits prod.splits)
    (auto simp: account_def build_waiters_def intro!: sum_of_update_same split: Option.bind_splits)

lemma account_log_subscribe: "log_subscribe env u l c co = (r, co') \<Longrightarrow> account co' = account co"
  by (auto simp: log_subscribe_def account_set_running_same Let_def split: option.splits prod.splits)

lemma account_build_log_subscribe: "build_log_subscribe env u l c co = (r, co') \<Longrightarrow> account co' = account co"
  by (auto simp: build_log_subscribe_def account_def build_waiters_def Let_def intro!: sum_of_update_same
      split: option.splits prod.splits)

lemma account_update_topics: "account (update_topics u f co) = account co"
  by (auto simp: update_topics_def account_set_running_same split: option.splits)

lemma account_rollback_topic:
  assumes "rollback_topic_debug_stream env u sub ds co = (r, co')"
  shows "account co' = account co"
proof -
  have "account co' = account (update_topics u (bt_remove sub) co)"
    if "rollback_streams env u sub ds (update_topics u (bt_remove sub) co) = (r, co')"
    by (rule account_sends[OF rollback_streams_sends[OF that]])
  then show ?thesis using assms
    by (auto simp: rollback_topic_debug_stream_def account_update_topics split: option.splits if_splits)
qed

lemma account_start_topic:
  assumes "co_start_topic_debug_stream env u tps sender co = (r, co')"
  shows "account co' = account co"
  using assms
  by (auto simp: co_start_topic_debug_stream_def Let_def account_update_topics dest!: account_rollback_topic
      split: outcome.splits option.splits bool.splits prod.splits)

lemma account_stop_topic: "co_stop_topic_debug_stream env sub co = (r, co') \<Longrightarrow> account co' = account co"
  by (auto simp: co_stop_topic_debug_stream_def Let_def account_update_topics split: option.splits)

lemma account_topic_data: "account (topic_debug_data env u is p co) = account co"
  by (auto simp: topic_debug_data_def account_set_running_same Let_def split: option.splits prod.splits)

lemma account_node_metrics: "account (node_metrics_event u ms net co) = account co"
  by (auto simp: node_metrics_event_def account_set_running_same split: option.splits)

lemma account_recover: "account (recover_dataflow env d reported u co) = account co"
  by (auto simp: recover_dataflow_def account_set_running_same Let_def co_send_def split: option.splits)

lemma account_catch_up: "account (catch_up_dataflow env ops d reported u co) = account co"
proof (cases "map_of (co_running co) u")
  case (Some df)
  obtain df' co1 where f: "handle_pruned_state_catchup_fallback env ops u d df co = (df', co1)" by fastforce
  have "sends co co1 \<and> df_waiters df' = df_waiters df"
    using f by (auto simp: handle_pruned_state_catchup_fallback_def Let_def
        dest!: replay_sends split: if_splits option.splits prod.splits)
  then have "account (set_running u df' co1) = account co"
    using account_set_running_same[of co1 u df df'] Some sendsD(3)[of co co1] account_sends[of co co1] by simp
  then show ?thesis using Some f
    by (auto simp: catch_up_dataflow_def co_send_def split: option.splits list.splits)
qed (simp add: catch_up_dataflow_def)

lemma account_status_report: "account (status_report env ops d entries co) = account co"
proof -
  have r: "account (fold (recover_dataflow env d rep) us co) = account co" for rep us and co :: "'a coordinator"
    by (induction us arbitrary: co) (simp_all add: account_recover)
  have c: "account (fold (catch_up_dataflow env ops d rep) us co) = account co" for rep us and co :: "'a coordinator"
    by (induction us arbitrary: co) (simp_all add: account_catch_up)
  show ?thesis by (simp add: status_report_def Let_def r c restore_topic_debug_streams_for_daemon_def)
qed

lemma account_ack: "account (catch_up_ack d u a co) = account co"
  by (auto simp: catch_up_ack_def account_set_running_same split: option.splits)

lemma account_register: "register_daemon env ops mid v ls sent co = (r, co') \<Longrightarrow> account co' = account co"
  by (auto simp: register_daemon_def Let_def account_def emit_def split: if_splits)

lemma account_daemon_heartbeat: "account (daemon_heartbeat env d st co) = account co"
  by (auto simp: daemon_heartbeat_def split: option.splits)

section \<open>The shape and the bounds of the state\<close>

definition df_wf :: "uuid \<Rightarrow> co_dataflow \<Rightarrow> bool" where
  "df_wf u df \<longleftrightarrow>
     cd_uuid df = u \<and> bs_wf (cd_daemons df) \<and> bs_wf (cd_pending_daemons df) \<and> bs_wf (cd_pending_spawn_results df) \<and>
     bt_wf (cd_nodes df) \<and> bt_wf (cd_node_to_daemon df) \<and> bt_wf (cd_topic_subscribers df) \<and>
     list_all (\<lambda>(i, s). ts_consecutive_timeouts s < MAX_CONSECUTIVE_TOPIC_SEND_TIMEOUTS) (cd_topic_subscribers df) \<and>
     bt_wf (cd_daemon_ack_sequence df) \<and> list_all (\<lambda>(d, a). a \<le> cd_state_log_sequence df) (cd_daemon_ack_sequence df) \<and>
     length (cd_buffered_log_messages df) \<le> MAX_BUFFERED_LOG_MESSAGES \<and>
     length (cd_state_log df) \<le> MAX_STATE_LOG_ENTRIES"

definition build_wf :: "running_build \<Rightarrow> bool" where
  "build_wf b \<longleftrightarrow> bs_wf (rb_pending_build_results b) \<and> length (rb_buffered_log_messages b) \<le> MAX_BUFFERED_LOG_MESSAGES"

definition names_unique :: "(uuid \<times> co_dataflow) list \<Rightarrow> bool" where
  "names_unique m \<longleftrightarrow>
     list_all (\<lambda>(u, df). list_all (\<lambda>(u', df'). cd_name df = cd_name df' \<longrightarrow> cd_name df = None \<or> u = u') m) m"

definition co_wf :: "'s coordinator \<Rightarrow> bool" where
  "co_wf co \<longleftrightarrow>
     hm_wf (co_running_builds co) \<and> list_all (\<lambda>(b, v). build_wf v) (co_running_builds co) \<and>
     hm_wf (co_finished_builds co) \<and> list_all (\<lambda>(b, c). is_cached c) (co_finished_builds co) \<and>
     length (co_finished_builds co) \<le> MAX_FINISHED_BUILDS \<and>
     hm_wf (co_running co) \<and> list_all (\<lambda>(u, df). df_wf u df) (co_running co) \<and> names_unique (co_running co) \<and>
     hm_wf (co_results co) \<and> hm_wf (co_archived co) \<and> length (co_archived co) \<le> MAX_ARCHIVED_DATAFLOWS \<and>
     bt_wf (co_connections co)"

lemma set_hm_insert: "hm_wf m \<Longrightarrow> p \<in> set (hm_insert k v m) \<Longrightarrow> p = (k, v) \<or> p \<in> set m \<and> fst p \<noteq> k"
  by (induction m) (auto split: if_splits)

lemma list_all_hm_insert: "hm_wf m \<Longrightarrow> list_all P m \<Longrightarrow> P (k, v) \<Longrightarrow> list_all P (hm_insert k v m)"
  unfolding list_all_iff by (auto dest: set_hm_insert)

lemma list_all_hm_remove: "list_all P m \<Longrightarrow> list_all P (hm_remove k m)"
  unfolding list_all_iff by (induction m) auto

lemma co_wf_frame [simp]:
  "co_wf (co\<lparr>co_store := s\<rparr>) = co_wf co" "co_wf (co\<lparr>co_sent := x\<rparr>) = co_wf co"
  "co_wf (co\<lparr>co_log_lines := z\<rparr>) = co_wf co" "co_wf (co\<lparr>co_frames := f\<rparr>) = co_wf co"
  "co_wf (co\<lparr>co_replays := p\<rparr>) = co_wf co" "co_wf (co\<lparr>co_aborted := b\<rparr>) = co_wf co"
  "co_wf (co\<lparr>co_answers := a\<rparr>) = co_wf co" "co_wf (emit d cmd co) = co_wf co" "co_wf (answer r res co) = co_wf co"
  by (simp_all add: co_wf_def emit_def answer_def)

lemma co_wf_sends: "sends co co' \<Longrightarrow> co_wf co \<Longrightarrow> co_wf co'"
  by (simp add: co_wf_def sendsD)

lemma co_wf_connections: "co_wf co \<Longrightarrow> bt_wf cs \<Longrightarrow> co_wf (co\<lparr>co_connections := cs\<rparr>)"
  by (simp add: co_wf_def)

lemma co_wf_df: "co_wf co \<Longrightarrow> map_of (co_running co) u = Some df \<Longrightarrow> df_wf u df"
  by (auto simp: co_wf_def list_all_iff dest!: map_of_SomeD)

lemma names_unique_insert:
  assumes "hm_wf m" "names_unique m"
    and "\<And>u' df'. (u', df') \<in> set m \<Longrightarrow> u' \<noteq> u \<Longrightarrow> cd_name df' = cd_name df \<Longrightarrow> cd_name df = None"
  shows "names_unique (hm_insert u df m)"
  unfolding names_unique_def list_all_iff
proof (intro ballI, clarify)
  fix a x b y
  assume a: "(a, x) \<in> set (hm_insert u df m)" "(b, y) \<in> set (hm_insert u df m)" "cd_name x = cd_name y" "a \<noteq> b"
  have old: "(a, x) \<in> set m \<Longrightarrow> (b, y) \<in> set m \<Longrightarrow> cd_name x = None"
    using assms(2) a(3,4) by (auto simp: names_unique_def list_all_iff)
  show "cd_name x = None"
    using set_hm_insert[OF assms(1) a(1)] set_hm_insert[OF assms(1) a(2)] old assms(3)[of b y] assms(3)[of a x] a(3,4) by auto
qed

lemma co_wf_set_running:
  assumes "co_wf co" "df_wf u df"
    and "\<And>u' df'. (u', df') \<in> set (co_running co) \<Longrightarrow> u' \<noteq> u \<Longrightarrow> cd_name df' = cd_name df \<Longrightarrow> cd_name df = None"
  shows "co_wf (set_running u df co)"
proof -
  have "hm_wf (co_running co)" "list_all (\<lambda>(u, df). df_wf u df) (co_running co)" "names_unique (co_running co)"
    using assms(1) by (auto simp: co_wf_def)
  then have "list_all (\<lambda>(u, df). df_wf u df) (hm_insert u df (co_running co))" "names_unique (hm_insert u df (co_running co))"
    using list_all_hm_insert[of "co_running co" "\<lambda>(u, df). df_wf u df" u df] names_unique_insert[OF _ _ assms(3)] assms(2)
    by simp_all
  then show ?thesis using assms(1) by (simp add: co_wf_def set_running_def distinct_update)
qed

lemma co_wf_update:
  assumes "co_wf co" "map_of (co_running co) u = Some df" "df_wf u df'" "cd_name df' = cd_name df"
  shows "co_wf (set_running u df' co)"
proof (rule co_wf_set_running[OF assms(1,3)])
  fix u' x
  assume "(u', x) \<in> set (co_running co)" "u' \<noteq> u" "cd_name x = cd_name df'"
  then show "cd_name df' = None"
    using assms(1,2,4) by (auto simp: co_wf_def names_unique_def list_all_iff dest!: map_of_SomeD)
qed

lemma names_unique_subset: "names_unique m \<Longrightarrow> set m' \<subseteq> set m \<Longrightarrow> names_unique m'"
  unfolding names_unique_def list_all_iff by blast

lemma co_wf_remove:
  assumes "co_wf co"
  shows "co_wf (co\<lparr>co_running := hm_remove u (co_running co)\<rparr>)"
proof -
  have "set (hm_remove u (co_running co)) \<subseteq> set (co_running co)" by (auto simp: AList.delete_eq)
  then show ?thesis using assms names_unique_subset[of "co_running co"]
    by (simp add: co_wf_def distinct_delete list_all_hm_remove)
qed

lemma df_wf_frame [simp]:
  "df_wf u (df\<lparr>cd_store_generation := g\<rparr>) = df_wf u df" "df_wf u (df\<lparr>cd_exited_before_subscribe := ns\<rparr>) = df_wf u df"
  "df_wf u (df\<lparr>cd_spawn_result := c\<rparr>) = df_wf u df" "df_wf u (df\<lparr>cd_stop_reply_senders := rs\<rparr>) = df_wf u df"
  "df_wf u (df\<lparr>cd_node_metrics := nm\<rparr>) = df_wf u df" "df_wf u (df\<lparr>cd_network_metrics := nw\<rparr>) = df_wf u df"
  "df_wf u (df\<lparr>cd_log_subscribers := ls\<rparr>) = df_wf u df" "df_wf u (df\<lparr>cd_last_recovery_attempt := la\<rparr>) = df_wf u df"
  "df_wf u (df\<lparr>cd_last_replay_attempt := lr\<rparr>) = df_wf u df" "df_wf u (df\<lparr>cd_descriptor := de\<rparr>) = df_wf u df"
  by (simp_all add: df_wf_def)

lemma bs_wf_filter: "bs_wf xs \<Longrightarrow> bs_wf (filter P xs)"
  by (induction xs) auto

lemma df_wf_daemons:
  assumes "df_wf u df"
  shows "df_wf u (df\<lparr>cd_daemons := bs_remove d (cd_daemons df)\<rparr>)"
    "df_wf u (df\<lparr>cd_pending_daemons := bs_remove d (cd_pending_daemons df)\<rparr>)"
    "df_wf u (df\<lparr>cd_pending_spawn_results := bs_remove d (cd_pending_spawn_results df)\<rparr>)"
    "df_wf u (forget_daemons ds df)"
  using assms by (simp_all add: df_wf_def forget_daemons_def bs_wf_filter)

lemma list_all_bt_insert: "list_all P m \<Longrightarrow> P (k, v) \<Longrightarrow> list_all P (bt_insert k v m)"
  unfolding list_all_iff using bt_insert_mem by fast

lemma df_wf_append_state_log: "df_wf u df \<Longrightarrow> df_wf u (append_state_log op df)"
  by (auto simp: df_wf_def append_state_log_def Let_def list_all_iff)

lemma df_wf_ack:
  assumes "df_wf u df"
  shows "df_wf u (state_catch_up_ack d a df)" "df_wf u (ack_full_replay d df)"
proof -
  have "ack_of d df \<le> cd_state_log_sequence df"
    using assms by (auto simp: df_wf_def ack_of_def list_all_iff split: option.splits dest!: map_of_SomeD)
  then have "list_all (\<lambda>(d, a). a \<le> cd_state_log_sequence df)
      (bt_insert d (max (min a (cd_state_log_sequence df)) (ack_of d df)) (cd_daemon_ack_sequence df))"
    using assms by (intro list_all_bt_insert) (auto simp: df_wf_def)
  then show "df_wf u (state_catch_up_ack d a df)"
    using assms by (simp add: state_catch_up_ack_def df_wf_def prune_state_log_def) (meson le_trans length_filter_le)
  show "df_wf u (ack_full_replay d df)"
    using assms by (simp add: ack_full_replay_def df_wf_def list_all_bt_insert)
qed

lemma send_frame_streak:
  "send_frame ch s = (s', b) \<Longrightarrow> ts_consecutive_timeouts s < MAX_CONSECUTIVE_TOPIC_SEND_TIMEOUTS \<or> ts_sender s = None \<Longrightarrow>
   ts_consecutive_timeouts s' < MAX_CONSECUTIVE_TOPIC_SEND_TIMEOUTS \<or> ts_sender s' = None"
  by (auto simp: send_frame_def ts_close_def reset_timeout_streak_def record_timeout_def Let_def
      MAX_CONSECUTIVE_TOPIC_SEND_TIMEOUTS_def split: option.splits chan_state.splits if_splits)

lemma send_frames_streak:
  assumes "send_frames ch is subs = (subs', sent)" "bt_wf subs"
    and "list_all (\<lambda>(i, s). ts_consecutive_timeouts s < MAX_CONSECUTIVE_TOPIC_SEND_TIMEOUTS \<or> ts_sender s = None) subs"
  shows "bt_wf subs' \<and> list_all (\<lambda>(i, s). ts_consecutive_timeouts s < MAX_CONSECUTIVE_TOPIC_SEND_TIMEOUTS \<or> ts_sender s = None) subs'"
  using assms
proof (induction "is" arbitrary: subs sent)
  case (Cons i "is")
  show ?case
  proof (cases "map_of subs i")
    case (Some s)
    obtain s' b where s': "send_frame ch s = (s', b)" by fastforce
    obtain rest where r: "send_frames ch is (bt_insert i s' subs) = (subs', rest)"
      using Cons.prems(1) Some s' by (auto simp: Let_def split: prod.splits)
    have "ts_consecutive_timeouts s < MAX_CONSECUTIVE_TOPIC_SEND_TIMEOUTS \<or> ts_sender s = None"
      using Some Cons.prems(3) by (auto simp: list_all_iff dest!: map_of_SomeD)
    then show ?thesis using Cons.IH[OF r] Cons.prems(2,3) send_frame_streak[OF s'] by (simp add: list_all_bt_insert)
  qed (use Cons in simp)
qed simp

lemma bt_wf_filter: "bt_wf m \<Longrightarrow> bt_wf (filter P m)"
  unfolding bt_wf_def by (induction m) auto

lemma df_wf_topic_frames:
  assumes "df_wf u df" "send_topic_frames ch is payload (cd_topic_subscribers df) = (subs, sent)"
  shows "df_wf u (df\<lparr>cd_topic_subscribers := subs\<rparr>)"
proof -
  obtain subs1 sent1 where f: "send_frames ch is (cd_topic_subscribers df) = (subs1, sent1)" by fastforce
  have "bt_wf subs1 \<and> list_all (\<lambda>(i, s). ts_consecutive_timeouts s < MAX_CONSECUTIVE_TOPIC_SEND_TIMEOUTS \<or> ts_sender s = None) subs1"
  proof (rule send_frames_streak[OF f])
    show "list_all (\<lambda>(i, s). ts_consecutive_timeouts s < MAX_CONSECUTIVE_TOPIC_SEND_TIMEOUTS \<or> ts_sender s = None)
        (cd_topic_subscribers df)" using assms(1) by (auto simp: df_wf_def list_all_iff)
  qed (use assms(1) in \<open>simp add: df_wf_def\<close>)
  then show ?thesis using assms f
    by (auto simp: send_topic_frames_def df_wf_def bt_wf_filter ts_is_closed_def list_all_iff Let_def
        split: if_splits option.splits)
qed

lemma df_wf_topics:
  assumes "df_wf u df"
  shows "df_wf u (df\<lparr>cd_topic_subscribers := bt_insert i (topic_subscriber_new os c) (cd_topic_subscribers df)\<rparr>)"
    "df_wf u (df\<lparr>cd_topic_subscribers := bt_remove i (cd_topic_subscribers df)\<rparr>)"
    "df_wf u (df\<lparr>cd_buffered_log_messages := []\<rparr>)"
proof -
  have "list_all P (bt_remove i m)" if "list_all P m" for P and m :: "(uuid \<times> topic_subscriber) list"
    using that by (auto simp: bt_remove_def list_all_iff)
  then show "df_wf u (df\<lparr>cd_topic_subscribers := bt_remove i (cd_topic_subscribers df)\<rparr>)"
    using assms by (simp add: df_wf_def)
qed (use assms in \<open>simp_all add: df_wf_def list_all_bt_insert topic_subscriber_new_def MAX_CONSECUTIVE_TOPIC_SEND_TIMEOUTS_def\<close>)

lemma co_wf_update_build:
  assumes "co_wf co" "build_wf v"
  shows "co_wf (co\<lparr>co_running_builds := hm_insert b v (co_running_builds co)\<rparr>)"
  using assms list_all_hm_insert[of "co_running_builds co" "\<lambda>(b, v). build_wf v" b v]
  by (simp add: co_wf_def distinct_update)

lemma co_wf_build: "co_wf co \<Longrightarrow> map_of (co_running_builds co) b = Some v \<Longrightarrow> build_wf v"
  by (auto simp: co_wf_def list_all_iff dest!: map_of_SomeD)

lemma length_hm_insert: "length (hm_insert k v m) = (if k \<in> fst ` set m then length m else length m + 1)"
  by (induction m) auto

lemma co_wf_wait_for_build: assumes "co_wf co" shows "co_wf (wait_for_build r b co)"
proof (cases "map_of (co_running_builds co) b")
  case (Some build)
  then show ?thesis using co_wf_build[OF assms Some] co_wf_update_build[OF assms]
    by (simp add: wait_for_build_def build_wf_def split: prod.splits)
next
  case None
  note n = this
  show ?thesis
  proof (cases "map_of (co_finished_builds co) b")
    case (Some cached)
    obtain now c where c: "cached_register r cached = (now, c)" by fastforce
    have m: "(b, cached) \<in> set (co_finished_builds co)" using Some by (rule map_of_SomeD)
    then have "is_cached c" using assms is_cached_register[OF c] by (auto simp: co_wf_def list_all_iff)
    moreover have "b \<in> fst ` set (co_finished_builds co)" using m by force
    ultimately show ?thesis
      using assms list_all_hm_insert[of "co_finished_builds co" "\<lambda>(b, c). is_cached c" b c]
      by (simp add: wait_for_build_def n Some c co_wf_def distinct_update length_hm_insert)
  qed (use assms in \<open>simp add: wait_for_build_def n\<close>)
qed

lemma co_wf_wait_for_spawn: "co_wf co \<Longrightarrow> co_wf (wait_for_spawn r u co)"
  by (auto simp: wait_for_spawn_def co_wf_df intro!: co_wf_update split: option.splits prod.splits)

lemma stopped_running:
  assumes "co_stop_dataflow env u g f co = (Ok df, co1)"
  shows "map_of (co_running co1) u = Some df" "map_of (co_running co) u = Some df"
  using assms sendsD(3)[OF co_stop_dataflow_sends[OF assms]]
  by (auto simp: co_stop_dataflow_def split: option.splits prod.splits outcome.splits)

lemma co_wf_stopping:
  assumes "co_wf co" "co_stop_dataflow env u g f co = (Ok df, co1)" "persist env ops st df s = (df', s')"
  shows "co_wf (set_running u (df'\<lparr>cd_stop_reply_senders := rs\<rparr>) (co1\<lparr>co_store := t\<rparr>))"
    "co_wf (set_running u df' (co1\<lparr>co_store := t\<rparr>))"
proof -
  have w: "co_wf (co1\<lparr>co_store := t\<rparr>)" using co_wf_sends[OF co_stop_dataflow_sends[OF assms(2)] assms(1)] by simp
  have r: "map_of (co_running (co1\<lparr>co_store := t\<rparr>)) u = Some df" using stopped_running[OF assms(2)] by simp
  show "co_wf (set_running u (df'\<lparr>cd_stop_reply_senders := rs\<rparr>) (co1\<lparr>co_store := t\<rparr>))"
    "co_wf (set_running u df' (co1\<lparr>co_store := t\<rparr>))"
    using co_wf_df[OF w r] persist_fields[OF assms(3)] by (auto intro!: co_wf_update[OF w r])
qed

lemma co_wf_stop_request:
  assumes "stop_request env ops r u g f co = (res, co')" "co_wf co"
  shows "co_wf co'"
proof -
  obtain x co1 where s: "co_stop_dataflow env u g f co = (x, co1)" by fastforce
  have "co_wf co1" by (rule co_wf_sends[OF co_stop_dataflow_sends[OF s] assms(2)])
  then show ?thesis using assms s co_wf_stopping(1)[OF assms(2)]
    by (auto simp: stop_request_def Let_def split: option.splits prod.splits outcome.splits)
qed

lemma build_each_sorted: "build_each env mk gs ds co = (Ok ds', co1) \<Longrightarrow> bs_wf ds \<Longrightarrow> bs_wf ds'"
  by (induction env mk gs ds co rule: build_each.induct) (auto split: prod.splits outcome.splits)

lemma co_wf_build_request:
  assumes "build_request env desc srcs prev wd uv co = (res, co')" "co_wf co"
  shows "co_wf co'"
proof -
  obtain x co1 where b: "build_dataflow env (e_fresh env) desc srcs prev wd uv co = (x, co1)" by fastforce
  have w: "co_wf co1" by (rule co_wf_sends[OF build_dataflow_sends[OF b] assms(2)])
  have "build_wf build" if "x = Ok build" for build
    using b that by (auto simp: build_dataflow_def build_wf_def Let_def dest!: build_each_sorted
        split: outcome.splits prod.splits)
  then show ?thesis using assms b w co_wf_update_build[OF w]
    by (auto simp: build_request_def Let_def split: outcome.splits)
qed

lemma names_uniqueD:
  "names_unique m \<Longrightarrow> (u, x) \<in> set m \<Longrightarrow> (v, y) \<in> set m \<Longrightarrow> cd_name x = cd_name y \<Longrightarrow> u \<noteq> v \<Longrightarrow> cd_name x = None"
  unfolding names_unique_def list_all_iff by blast

lemma bt_wf_assign: "bt_wf m \<Longrightarrow> bt_wf (fold (\<lambda>n m. bt_insert (rn_id n) d m) ns m)"
  by (induction ns arbitrary: m) auto

lemma spawn_each_shape:
  "spawn_each env mk u gs ds n2d co = (Ok (ds', n2d'), co') \<Longrightarrow> bs_wf ds \<Longrightarrow> bt_wf n2d \<Longrightarrow> bs_wf ds' \<and> bt_wf n2d'"
  by (induction env mk u gs ds n2d co rule: spawn_each.induct)
    (auto simp: bt_wf_assign Let_def split: if_splits prod.splits outcome.splits)

lemma started_wf:
  assumes "co_start_dataflow env b desc wd nm uv ev co = (Ok df, co1)"
  shows "df_wf (e_fresh env) df" "cd_name df = nm"
proof -
  obtain sd where sd: "co_spawn_dataflow env b desc wd uv ev co = (Ok sd, co1)" "df = dataflow_of_spawned env desc nm uv sd"
    using assms by (auto simp: co_start_dataflow_def split: prod.splits outcome.splits)
  then have "bt_wf (sd_nodes sd) \<and> bs_wf (sd_daemons sd) \<and> bt_wf (sd_node_to_daemon sd) \<and> sd_uuid sd = e_fresh env"
    by (auto simp: co_spawn_dataflow_def Let_def resolved_ids(1) dest!: spawn_each_shape split: prod.splits outcome.splits)
  moreover have "bt_wf (map (\<lambda>d. (d, n)) ds)" if "bs_wf ds" for ds :: "daemon_id list" and n :: nat
    using that by (simp add: bt_wf_def comp_def)
  ultimately show "df_wf (e_fresh env) df" "cd_name df = nm"
    by (auto simp: sd(2) dataflow_of_spawned_def df_wf_def list_all_iff)
qed

lemma co_wf_add_dataflow:
  assumes "co_start_dataflow env b desc wd nm uv ev co0 = (Ok df, co1)" "persist env ops st df s = (df', s')"
    and "co_wf co" "\<And>u df. (u, df) \<in> set (co_running co) \<Longrightarrow> cd_name df = nm \<Longrightarrow> nm = None"
  shows "co_wf (set_running (cd_uuid df) df' co)"
proof (rule co_wf_set_running[OF assms(3)])
  show "df_wf (cd_uuid df) df'"
    using started_wf[OF assms(1)] persist_fields[OF assms(2)] started_waiters(2)[OF assms(1)] by simp
  show "cd_name df' = None" if "(u', x) \<in> set (co_running co)" "cd_name x = cd_name df'" for u' x
    using assms(4)[OF that(1)] that(2) started_wf(2)[OF assms(1)] persist_fields[OF assms(2)] by simp
qed

lemma co_wf_start_request:
  assumes "start_request env ops b desc nm wd uv ev co = (res, co')" "co_wf co"
  shows "co_wf co'"
proof -
  let ?nm = "case nm of None \<Rightarrow> e_petname env | Some _ \<Rightarrow> nm"
  obtain x co1 where s: "co_start_dataflow env b desc wd ?nm uv ev co = (x, co1)" by fastforce
  note sd = co_start_dataflow_sends[OF s]
  have w: "co_wf co1" by (rule co_wf_sends[OF sd assms(2)])
  show ?thesis
  proof (cases "?nm \<noteq> None \<and> list_ex (\<lambda>(u, df). cd_name df = ?nm) (co_running co)")
    case False
    then have free: "?nm = None" if "(u, df) \<in> set (co_running co)" "cd_name df = ?nm" for u df
      using that by (auto simp: list_ex_iff)
    show ?thesis
    proof (cases x)
      case (Ok df)
      obtain df' t where p: "persist env ops StPending df (co_store co1) = (df', t)" by fastforce
      have "co_wf (set_running (cd_uuid df) df' (co1\<lparr>co_store := t\<rparr>))"
        using free sendsD(3)[OF sd] w by (intro co_wf_add_dataflow[OF s[unfolded Ok] p]) auto
      moreover have "co' = set_running (cd_uuid df) df' (co1\<lparr>co_store := t\<rparr>)"
        using assms(1) s Ok p False unfolding start_request_def Let_def by (simp split: if_splits)
      ultimately show ?thesis by simp
    next
      case (Err e)
      then have "co' = co1" using assms(1) s False unfolding start_request_def Let_def by (simp split: if_splits)
      then show ?thesis using w by simp
    next
      case Panic
      then have "co' = co1" using assms(1) s False unfolding start_request_def Let_def by (simp split: if_splits)
      then show ?thesis using w by simp
    qed
  next
    case True
    then have "co' = co" using assms(1) unfolding start_request_def Let_def by (simp split: if_splits)
    then show ?thesis using assms(2) by simp
  qed
qed

lemma co_wf_restart:
  assumes "restart_dataflow env ops u g f co = (res, co')" "co_wf co"
  shows "co_wf co'"
proof -
  obtain x co1 where s: "co_stop_dataflow env u g f co = (x, co1)" by fastforce
  have w1: "co_wf co1" by (rule co_wf_sends[OF co_stop_dataflow_sends[OF s] assms(2)])
  show ?thesis
  proof (cases x)
    case (Ok df)
    obtain df' t where p: "persist env ops StStopping df (co_store co1) = (df', t)" by fastforce
    let ?co2 = "set_running u df' (co1\<lparr>co_store := t\<rparr>)"
    have w2: "co_wf ?co2" by (rule co_wf_stopping(2)[OF assms(2) s[unfolded Ok] p])
    have run: "map_of (co_running ?co2) u = Some df'" by (simp add: set_running_def)
    obtain y co3 where n: "co_start_dataflow env None (cd_descriptor df) None (cd_name df) (cd_uv df) None ?co2 = (y, co3)"
      by fastforce
    note sd = co_start_dataflow_sends[OF n]
    have w3: "co_wf co3" by (rule co_wf_sends[OF sd w2])
    show ?thesis
    proof (cases y)
      case new: (Ok new)
      let ?co4 = "co3\<lparr>co_running := hm_remove u (co_running co3)\<rparr>"
      obtain new' t' where q: "persist env ops StPending new (co_store ?co4) = (new', t')" by fastforce
      have "cd_name df = None" if "(u', d) \<in> set (co_running ?co4)" "cd_name d = cd_name df" for u' d
      proof -
        have "(u', d) \<in> set (co_running ?co2)" "u' \<noteq> u" using that(1) sendsD(3)[OF sd] by (auto simp: AList.delete_eq)
        moreover have "cd_name df' = cd_name df" using persist_fields[OF p] by simp
        ultimately show ?thesis using names_uniqueD[of "co_running ?co2" u df' u' d] w2 map_of_SomeD[OF run] that(2)
          by (simp add: co_wf_def)
      qed
      then have "co_wf (set_running (cd_uuid new) new' (?co4\<lparr>co_store := t'\<rparr>))"
        using co_wf_remove[OF w3] by (intro co_wf_add_dataflow[OF n[unfolded new] q]) auto
      then show ?thesis using assms(1) s Ok p n new q by (simp add: restart_dataflow_def Let_def)
    qed (use assms s Ok p n w3 in \<open>auto simp: restart_dataflow_def Let_def\<close>)
  qed (use assms s w1 in \<open>auto simp: restart_dataflow_def\<close>)
qed

lemma co_wf_forward_param:
  assumes "forward_param env sel u cmd op t co = (res, co')" "co_wf co"
  shows "co_wf co'"
proof (cases "\<exists>d df. t = TargetRunning d \<and> map_of (co_running co) u = Some df")
  case True
  then obtain d df where d: "t = TargetRunning d" "map_of (co_running co) u = Some df" by blast
  have "co_wf (set_running u (append_state_log op df) co)"
    by (rule co_wf_update[OF assms(2) d(2)])
      (auto simp: df_wf_append_state_log co_wf_df[OF assms(2) d(2)], simp add: append_state_log_def Let_def)
  moreover have "command env sel cmd d (set_running u (append_state_log op df) co) = (res, co')"
    using assms(1) d by (simp add: forward_param_def)
  ultimately show ?thesis using co_wf_sends[OF command_sends] by blast
qed (use assms in \<open>auto simp: forward_param_def split: param_target.splits option.splits\<close>)

lemma co_wf_set_param: "set_param env ops u n k v co = (res, co') \<Longrightarrow> co_wf co \<Longrightarrow> co_wf co'"
  by (auto simp: set_param_def dest: co_wf_forward_param split: outcome.splits prod.splits)

lemma co_wf_delete_param: "delete_param env ops u n k co = (res, co') \<Longrightarrow> co_wf co \<Longrightarrow> co_wf co'"
  by (auto simp: delete_param_def dest: co_wf_forward_param split: outcome.splits prod.splits)

lemma co_wf_dispatched:
  assumes "dispatch_any env cmd d co = (x, co1)" "co_wf co" "map_of (co_running co) u = Some df"
    "df_wf u df \<Longrightarrow> df_wf u df'" "cd_name df' = cd_name df"
  shows "co_wf (set_running u df' co1)"
  using co_wf_update[OF co_wf_sends[OF dispatch_any_sends[OF assms(1)] assms(2)], of u df df'] assms
    sendsD(3)[OF dispatch_any_sends[OF assms(1)]] co_wf_df[OF assms(2,3)] by simp

lemma co_wf_add_node:
  assumes "co_add_node_request env r u nd co = (res, co')" "co_wf co"
  shows "co_wf co'"
proof (cases "\<exists>df n rn rest d x co1. map_of (co_running co) u = Some df \<and>
    resolve_aliases_and_set_defaults (e_ros2_json env) (single_node_descriptor nd) = Ok ((n, rn) # rest) \<and>
    first_of (cd_daemons df) = Some d \<and> map_of (cd_node_to_daemon df) (id_of nd) = None")
  case True
  then obtain df n rn rest d where c: "map_of (co_running co) u = Some df"
    "resolve_aliases_and_set_defaults (e_ros2_json env) (single_node_descriptor nd) = Ok ((n, rn) # rest)"
    "first_of (cd_daemons df) = Some d" "map_of (cd_node_to_daemon df) (id_of nd) = None" by blast
  obtain x co1 where s: "dispatch_any env (CmdAddNode u rn (cd_uv df)) d co = (x, co1)" by fastforce
  let ?df = "df\<lparr>cd_node_to_daemon := bt_insert n d (cd_node_to_daemon df),
     cd_descriptor := (cd_descriptor df)\<lparr>nodes := nodes (cd_descriptor df) @ [nd]\<rparr>, cd_nodes := bt_insert n rn (cd_nodes df)\<rparr>"
  have "co_wf (set_running u ?df co1)" by (rule co_wf_dispatched[OF s assms(2) c(1)]) (simp_all add: df_wf_def)
  then show ?thesis using assms s c co_wf_sends[OF dispatch_any_sends[OF s]]
    by (auto simp: co_add_node_request_def split: outcome.splits)
qed (use assms in \<open>auto simp: co_add_node_request_def split: option.splits if_splits outcome.splits list.splits prod.splits\<close>)

lemma co_wf_remove_node:
  assumes "remove_node_request env u n g co = (res, co')" "co_wf co"
  shows "co_wf co'"
proof (cases "\<exists>df d. map_of (co_running co) u = Some df \<and> map_of (cd_node_to_daemon df) n = Some d")
  case True
  then obtain df d where c: "map_of (co_running co) u = Some df" "map_of (cd_node_to_daemon df) n = Some d" by blast
  obtain x co1 where s: "dispatch_any env (CmdRemoveNode u n g) d co = (x, co1)" by fastforce
  let ?df = "df\<lparr>cd_node_to_daemon := bt_remove n (cd_node_to_daemon df), cd_descriptor := (cd_descriptor df)\<lparr>nodes :=
     filter (\<lambda>x. id_of x \<noteq> n) (nodes (cd_descriptor df))\<rparr>, cd_nodes := bt_remove n (cd_nodes df)\<rparr>"
  have "co_wf (set_running u ?df co1)" by (rule co_wf_dispatched[OF s assms(2) c(1)]) (simp_all add: df_wf_def)
  then show ?thesis using assms s c co_wf_sends[OF dispatch_any_sends[OF s]]
    by (auto simp: remove_node_request_def split: outcome.splits)
qed (use assms in \<open>auto simp: remove_node_request_def split: option.splits\<close>)

lemma co_wf_persist_all: "co_wf co \<Longrightarrow> co_wf (persist_all env ops st us co)"
proof (induction us arbitrary: co)
  case (Cons u us)
  show ?case
  proof (cases "map_of (co_running co) u")
    case (Some df)
    obtain df' s where p: "persist env ops st df (co_store co) = (df', s)" by fastforce
    have "co_wf (set_running u df' (co\<lparr>co_store := s\<rparr>))"
      by (rule co_wf_update[where df = df])
        (use Cons.prems Some persist_fields[OF p] co_wf_df[OF Cons.prems Some] in auto)
    then show ?thesis using Cons.IH Some p by simp
  qed (use Cons in simp)
qed simp

lemma co_wf_handle_destroy:
  assumes "handle_destroy env ops co = (res, co')" "co_wf co"
  shows "co_wf co'"
proof -
  let ?co1 = "persist_all env ops StStopping (map fst (co_running co)) (co\<lparr>co_aborted := True\<rparr>)"
  obtain x co2 where s: "stop_each env (map fst (co_running ?co1)) ?co1 = (x, co2)" by fastforce
  have "co_wf co2" by (rule co_wf_sends[OF stop_each_sends[OF s] co_wf_persist_all]) (simp add: assms(2))
  then show ?thesis using assms(1) s
    by (auto simp: handle_destroy_def destroy_daemons_def Let_def co_wf_def split: outcome.splits)
qed

lemma co_wf_respond:
  "respond r f p = (res, co') \<Longrightarrow> co_wf (snd p) \<Longrightarrow> co_wf co'"
  by (auto simp: respond_def split: outcome.splits prod.splits)

lemma co_wf_snd:
  assumes "co_wf co"
  shows "co_wf (snd (reload_dataflow env u n op co))" "co_wf (snd (co_restart_node env u n g co))"
    "co_wf (snd (co_stop_node env u n g co))" "co_wf (snd (logs_request env i nm s k co))"
    "co_wf (snd (mapping_request env cmd u t co))" "co_wf (snd (handle_destroy env ops co))"
    "co_wf (snd (set_param env ops u n key v co))" "co_wf (snd (delete_param env ops u n key co))"
    "co_wf (snd (remove_node_request env u n g co))" "co_wf (snd (restart_dataflow env ops u g fc co))"
    "co_wf (snd (start_request env ops b desc nm wd uv ev co))" "co_wf (snd (build_request env desc srcs prev wd uv co))"
  unfolding co_restart_node_def co_stop_node_def
  by (rule co_wf_sends[OF reload_dataflow_sends[OF prod.collapse[symmetric]] assms]
      co_wf_sends[OF dispatch_node_command_sends[OF prod.collapse[symmetric]] assms]
      co_wf_sends[OF logs_request_sends[OF prod.collapse[symmetric]] assms]
      co_wf_sends[OF mapping_request_sends[OF prod.collapse[symmetric]] assms]
      co_wf_handle_destroy[OF prod.collapse[symmetric] assms] co_wf_set_param[OF prod.collapse[symmetric] assms]
      co_wf_delete_param[OF prod.collapse[symmetric] assms] co_wf_remove_node[OF prod.collapse[symmetric] assms]
      co_wf_restart[OF prod.collapse[symmetric] assms] co_wf_start_request[OF prod.collapse[symmetric] assms]
      co_wf_build_request[OF prod.collapse[symmetric] assms])+

lemma co_wf_by_name:
  assumes "by_name r nm f co = (res, co')" "co_wf co" "\<And>u. f u co = (res, co') \<Longrightarrow> co_wf co'"
  shows "co_wf co'"
  using assms by (auto simp: by_name_def split: outcome.splits)

lemma co_wf_request:
  assumes "handle_request env ops r req co = (res, co')" "co_wf co"
  shows "co_wf co'"
proof (cases req)
  case (ReqStopByName nm g f)
  then show ?thesis using assms co_wf_by_name[OF _ assms(2) co_wf_stop_request[OF _ assms(2)]] by simp
next
  case (ReqRestartByName nm g f)
  then show ?thesis
    using assms co_wf_by_name[OF _ assms(2), where f = "\<lambda>u co. respond r (\<lambda>x. x) (restart_dataflow env ops u g f co)"]
      co_wf_respond[OF _ co_wf_snd(10)[OF assms(2)]] by simp
qed (use assms co_wf_stop_request co_wf_add_node in \<open>auto simp: co_wf_wait_for_build co_wf_wait_for_spawn
      dest!: co_wf_respond intro: co_wf_snd\<close>)

lemma co_wf_update_simple:
  assumes "co_wf co" "map_of (co_running co) u = Some df" "df_wf u df \<Longrightarrow> df_wf u df'" "cd_name df' = cd_name df"
  shows "co_wf (set_running u df' co)"
  by (rule co_wf_update[OF assms(1,2) assms(3)[OF co_wf_df[OF assms(1,2)]] assms(4)])

lemma co_wf_register: "register_daemon env ops mid v ls sent co = (r, co') \<Longrightarrow> co_wf co \<Longrightarrow> co_wf co'"
  by (auto simp: register_daemon_def Let_def conn_add_def co_wf_def emit_def split: if_splits)

lemma bt_wf_fold_remove: "bt_wf m \<Longrightarrow> bt_wf (fold bt_remove ks m)"
  by (induction ks arbitrary: m) auto

lemma names_unique_map:
  assumes "\<And>df. cd_name (g df) = cd_name df"
  shows "names_unique (map (\<lambda>(u, df). (u, g df)) m) = names_unique m"
  by (auto simp: names_unique_def list_all_iff assms split: prod.splits)

lemma co_wf_heartbeat_interval:
  assumes "co_wf co"
  shows "co_wf (heartbeat_interval env ops co)"
proof -
  have "co_wf (disconnect_daemons env ops ds co)" if "co_wf co" for ds and co :: "'a coordinator"
  proof -
    have k: "map (fst \<circ> (\<lambda>(u, df). (u, forget_daemons ds df))) m = map fst m" for m :: "(uuid \<times> co_dataflow) list" by auto
    have "names_unique (map (\<lambda>(u, df). (u, forget_daemons ds df)) (co_running co)) = names_unique (co_running co)"
      by (rule names_unique_map) (simp add: forget_daemons_def)
    moreover have "list_all (\<lambda>(u, df). df_wf u df) (map (\<lambda>(u, df). (u, forget_daemons ds df)) m)"
      if "list_all (\<lambda>(u, df). df_wf u df) m" for m
      using that by (auto simp: list_all_iff df_wf_daemons(4))
    ultimately show ?thesis using that by (simp add: co_wf_def disconnect_daemons_def Let_def k bt_wf_fold_remove)
  qed
  then show ?thesis using assms by (simp add: heartbeat_interval_def Let_def)
qed

lemma co_wf_ready_on_daemon:
  assumes "ready_on_daemon env u d exited co = (res, co')" "co_wf co"
  shows "co_wf co'"
proof (cases "map_of (co_running co) u")
  case (Some df)
  let ?df1 = "df\<lparr>cd_pending_daemons := bs_remove d (cd_pending_daemons df),
    cd_exited_before_subscribe := cd_exited_before_subscribe df @ exited\<rparr>"
  have w: "co_wf (set_running u ?df1 co)"
    by (rule co_wf_update_simple[OF assms(2) Some]) (simp_all add: df_wf_daemons(2))
  obtain x co2 where s: "send_all_ready env (CmdAllNodesReady u (cd_exited_before_subscribe ?df1)) (cd_daemons ?df1)
      (set_running u ?df1 co) = (x, co2)" by fastforce
  have "co_wf co2" by (rule co_wf_sends[OF send_all_ready_sends[OF s] w])
  then show ?thesis using assms(1) Some s w
    by (auto simp: ready_on_daemon_def Let_def schedule_param_replay_for_ready_dataflow_def
        split: if_splits outcome.splits)
qed (use assms in \<open>simp add: ready_on_daemon_def\<close>)

lemma archive_bounds:
  assumes "hm_wf as" "length as \<le> MAX_ARCHIVED_DATAFLOWS"
  shows "hm_wf (archive u df as)" "length (archive u df as) \<le> MAX_ARCHIVED_DATAFLOWS"
  using assms
  by (auto simp: archive_def keep_newest_def map_of_eq_None_iff distinct_drop simp flip: drop_map)

lemma co_wf_finished_on_daemon:
  assumes "co_wf co"
  shows "co_wf (finished_on_daemon env ops u d result co)"
proof (cases "map_of (co_running co) u")
  case (Some df)
  let ?df1 = "df\<lparr>cd_daemons := bs_remove d (cd_daemons df)\<rparr>"
  let ?co1 = "co\<lparr>co_results := hm_entry u [] (bt_insert d result) (co_results co)\<rparr>"
  have w: "co_wf ?co1" using assms by (simp add: co_wf_def)
  have "co_wf (set_running u ?df1 ?co1)"
    by (rule co_wf_update_simple[OF w, of u df]) (simp_all add: Some df_wf_daemons(1))
  moreover have "co_wf (co_finish_dataflow env ops u ?df1 ?co1)"
    using co_wf_remove[OF w, of u] archive_bounds[of "co_archived co" u ?df1] w
    by (auto simp: co_finish_dataflow_def Let_def co_wf_def split: prod.splits)
  ultimately have "co_wf (if b then co_finish_dataflow env ops u ?df1 ?co1 else set_running u ?df1 ?co1)" for b by simp
  then show ?thesis unfolding finished_on_daemon_def Some option.case Let_def .
qed (use assms in \<open>simp add: finished_on_daemon_def\<close>)

lemma co_wf_spawn_result:
  assumes "co_wf co"
  shows "co_wf (spawn_result env ops u d result co)"
proof (cases "map_of (co_running co) u")
  case (Some df)
  have w: "co_wf (set_running u df' (co\<lparr>co_store := s, co_answers := a\<rparr>))"
    if "df_wf u df \<Longrightarrow> df_wf u df'" "cd_name df' = cd_name df" for df' s a
    by (rule co_wf_update_simple[where df = df]) (simp_all add: assms Some that)
  show ?thesis
    by (auto simp: spawn_result_def Some Let_def df_wf_daemons(3) intro!: w co_wf_update_simple[OF assms Some]
        dest!: persist_fields split: option.splits prod.splits) (simp_all add: df_wf_def)
qed (use assms in \<open>simp add: spawn_result_def\<close>)

lemma co_wf_build_result:
  assumes "co_wf co"
  shows "co_wf (build_result b d result co)"
proof (cases "map_of (co_running_builds co) b")
  case (Some build)
  let ?build1 = "build\<lparr>rb_pending_build_results := bs_remove d (rb_pending_build_results build),
    rb_errors := rb_errors build @ (case result of None \<Rightarrow> [] | Some e \<Rightarrow> [e])\<rparr>"
  let ?res = "Ok (DataflowBuildFinished b (if rb_errors ?build1 = [] then None else Some (rb_errors ?build1)))"
  obtain now c where c: "cached_set_result ?res (rb_build_result ?build1) = (now, c)" by fastforce
  have f: "hm_wf (co_finished_builds co)" "list_all (\<lambda>(b, c). is_cached c) (co_finished_builds co)"
    using assms by (auto simp: co_wf_def)
  then have "list_all (\<lambda>(b, c). is_cached c) (hm_insert b c (co_finished_builds co))"
    using list_all_hm_insert[of "co_finished_builds co" "\<lambda>(b, c). is_cached c" b c] is_cached_set_result[OF c] by simp
  then have l: "list_all (\<lambda>(b, c). is_cached c) (keep_newest MAX_FINISHED_BUILDS (hm_insert b c (co_finished_builds co)))"
    "length (keep_newest MAX_FINISHED_BUILDS (hm_insert b c (co_finished_builds co))) \<le> MAX_FINISHED_BUILDS"
    "hm_wf (keep_newest MAX_FINISHED_BUILDS (hm_insert b c (co_finished_builds co)))"
    using f(1) by (auto simp: keep_newest_def list_all_iff distinct_drop distinct_update dest: in_set_dropD simp flip: drop_map)
  have "co_wf (co\<lparr>co_running_builds := hm_remove b (co_running_builds co),
      co_finished_builds := keep_newest MAX_FINISHED_BUILDS (hm_insert b c (co_finished_builds co)),
      co_answers := co_answers co @ now\<rparr>)"
    using assms l by (simp add: co_wf_def distinct_delete list_all_hm_remove)
  moreover have "co_wf (co\<lparr>co_running_builds := hm_insert b ?build1 (co_running_builds co)\<rparr>)"
    using co_wf_build[OF assms Some] by (intro co_wf_update_build[OF assms]) (simp add: build_wf_def)
  ultimately have "co_wf (if x then co\<lparr>co_running_builds := hm_insert b ?build1 (co_running_builds co)\<rparr>
      else co\<lparr>co_running_builds := hm_remove b (co_running_builds co),
        co_finished_builds := keep_newest MAX_FINISHED_BUILDS (hm_insert b c (co_finished_builds co)),
        co_answers := co_answers co @ now\<rparr>)" for x by simp
  then show ?thesis unfolding build_result_def Some option.case Let_def c prod.case .
qed (use assms in \<open>simp add: build_result_def\<close>)

lemma buffer_or_send_bound:
  "buffer_or_send ch m subs buf = (subs', buf', lines) \<Longrightarrow> length buf \<le> MAX_BUFFERED_LOG_MESSAGES \<Longrightarrow>
   length buf' \<le> MAX_BUFFERED_LOG_MESSAGES"
  by (auto simp: buffer_or_send_def Let_def split: if_splits prod.splits)

lemma co_wf_log_event:
  assumes "co_wf co"
  shows "co_wf (log_event env m co)"
proof (cases "lm_dataflow_id m")
  case u: (Some u)
  then show ?thesis using assms
    by (auto simp: log_event_def Let_def df_wf_def dest!: buffer_or_send_bound intro!: co_wf_update_simple
        split: option.splits prod.splits)
next
  case None
  show ?thesis
  proof (cases "lm_build_id m")
    case (Some b)
    have "co_wf (co\<lparr>co_running_builds := hm_insert b (build\<lparr>rb_log_subscribers := subs, rb_buffered_log_messages := buf\<rparr>)
        (co_running_builds co)\<rparr>)"
      if "map_of (co_running_builds co) b = Some build"
        "buffer_or_send (e_chan env) m (rb_log_subscribers build) (rb_buffered_log_messages build) = (subs, buf, lines)"
      for build subs buf lines
      using co_wf_build[OF assms that(1)] buffer_or_send_bound[OF that(2)]
      by (intro co_wf_update_build[OF assms]) (simp add: build_wf_def)
    then show ?thesis using None Some assms
      by (auto simp: log_event_def Let_def co_wf_def split: option.splits prod.splits)
  qed (use assms None in \<open>simp add: log_event_def\<close>)
qed

lemma co_wf_log_subscribe: "log_subscribe env u l c co = (r, co') \<Longrightarrow> co_wf co \<Longrightarrow> co_wf co'"
  by (auto simp: log_subscribe_def Let_def df_wf_topics(3) intro!: co_wf_update_simple split: option.splits prod.splits)

lemma co_wf_build_log_subscribe:
  assumes "build_log_subscribe env b l c co = (r, co')" "co_wf co"
  shows "co_wf co'"
proof -
  have "co_wf (co\<lparr>co_running_builds := hm_insert b (build\<lparr>rb_log_subscribers := subs, rb_buffered_log_messages := []\<rparr>)
      (co_running_builds co)\<rparr>)" if "map_of (co_running_builds co) b = Some build" for build subs
    using co_wf_build[OF assms(2) that] by (intro co_wf_update_build[OF assms(2)]) (simp add: build_wf_def)
  then show ?thesis using assms
    by (auto simp: build_log_subscribe_def Let_def co_wf_def split: option.splits prod.splits)
qed

lemma co_wf_update_topics:
  assumes "co_wf co" "\<And>df. df_wf u df \<Longrightarrow> df_wf u (df\<lparr>cd_topic_subscribers := f (cd_topic_subscribers df)\<rparr>)"
  shows "co_wf (update_topics u f co)"
  using assms by (auto simp: update_topics_def intro!: co_wf_update_simple split: option.splits)

lemma co_wf_rollback_topic:
  assumes "rollback_topic_debug_stream env u sub ds co = (r, co')" "co_wf co"
  shows "co_wf co'"
proof -
  have "co_wf (update_topics u (bt_remove sub) co)" by (rule co_wf_update_topics[OF assms(2) df_wf_topics(2)])
  then have "co_wf co'" if "rollback_streams env u sub ds (update_topics u (bt_remove sub) co) = (r, co')"
    using co_wf_sends[OF rollback_streams_sends[OF that]] by blast
  then show ?thesis using assms by (auto simp: rollback_topic_debug_stream_def split: option.splits if_splits)
qed

lemma co_wf_start_topic:
  assumes "co_start_topic_debug_stream env u tps sender co = (r, co')" "co_wf co"
  shows "co_wf co'"
proof -
  have "co_wf (update_topics u (bt_insert (e_fresh env) (topic_subscriber_new outs sender)) co)" for outs
    by (rule co_wf_update_topics[OF assms(2) df_wf_topics(1)])
  then show ?thesis using assms
    by (auto simp: co_start_topic_debug_stream_def Let_def dest!: co_wf_rollback_topic
        split: outcome.splits option.splits bool.splits prod.splits)
qed

lemma co_wf_stop_topic:
  assumes "co_stop_topic_debug_stream env sub co = (r, co')" "co_wf co"
  shows "co_wf co'"
  using assms co_wf_update_topics[OF assms(2) df_wf_topics(2)]
  by (auto simp: co_stop_topic_debug_stream_def Let_def split: option.splits)

lemma co_wf_topic_data: "co_wf co \<Longrightarrow> co_wf (topic_debug_data env u is p co)"
  by (auto simp: topic_debug_data_def Let_def intro!: co_wf_update_simple df_wf_topic_frames split: option.splits prod.splits)

lemma co_wf_recover: "co_wf co \<Longrightarrow> co_wf (recover_dataflow env d reported u co)"
  by (auto simp: recover_dataflow_def Let_def co_send_def intro!: co_wf_update_simple split: option.splits)

lemma co_wf_catch_up:
  assumes "co_wf co"
  shows "co_wf (catch_up_dataflow env ops d reported u co)"
proof (cases "map_of (co_running co) u")
  case (Some df)
  obtain df' co1 where f: "handle_pruned_state_catchup_fallback env ops u d df co = (df', co1)" by fastforce
  have *: "sends co co1 \<and> (df_wf u df \<longrightarrow> df_wf u df') \<and> cd_name df' = cd_name df"
    using f by (auto simp: handle_pruned_state_catchup_fallback_def Let_def df_wf_ack(2) ack_full_replay_def
        dest!: replay_sends split: if_splits option.splits prod.splits)
      (auto simp: df_wf_def ack_full_replay_def list_all_bt_insert)
  then have "co_wf (set_running u df' co1)"
    using co_wf_update_simple[of co1 u df df'] Some sendsD(3)[of co co1] co_wf_sends[OF _ assms] by simp
  then show ?thesis using Some f assms
    by (auto simp: catch_up_dataflow_def co_send_def split: option.splits list.splits)
qed (use assms in \<open>simp add: catch_up_dataflow_def\<close>)

lemma co_wf_status_report:
  assumes "co_wf co"
  shows "co_wf (status_report env ops d entries co)"
proof -
  have r: "co_wf co \<Longrightarrow> co_wf (fold (recover_dataflow env d rep) us co)" for rep us and co :: "'a coordinator"
    by (induction us arbitrary: co) (simp_all add: co_wf_recover)
  have c: "co_wf co \<Longrightarrow> co_wf (fold (catch_up_dataflow env ops d rep) us co)" for rep us and co :: "'a coordinator"
    by (induction us arbitrary: co) (simp_all add: co_wf_catch_up)
  show ?thesis unfolding status_report_def Let_def restore_topic_debug_streams_for_daemon_def
    by (intro c r) (simp add: assms)
qed

lemma co_wf_ack: "co_wf co \<Longrightarrow> co_wf (catch_up_ack d u a co)"
  by (auto simp: catch_up_ack_def intro!: co_wf_update_simple df_wf_ack(1) split: option.splits)
    (simp add: state_catch_up_ack_def prune_state_log_def)

lemma co_wf_node_metrics: "co_wf co \<Longrightarrow> co_wf (node_metrics_event u ms net co)"
  by (auto simp: node_metrics_event_def intro!: co_wf_update_simple split: option.splits)

lemma co_wf_daemons:
  assumes "co_wf co"
  shows "co_wf (daemon_exit ops d co)" "co_wf (daemon_heartbeat env d st co)"
  using assms by (auto simp: daemon_exit_def daemon_heartbeat_def co_wf_def split: option.splits)

lemma co_wf_event:
  assumes "handle_event env ops ev co = (res, co')" "co_wf co"
  shows "co_wf co'"
  using assms
  by (cases ev)
    (auto simp: Let_def co_wf_finished_on_daemon co_wf_heartbeat_interval co_wf_daemons co_wf_log_event co_wf_topic_data
      co_wf_node_metrics co_wf_build_result co_wf_spawn_result co_wf_status_report co_wf_ack
      dest: co_wf_register co_wf_ready_on_daemon co_wf_request co_wf_log_subscribe co_wf_build_log_subscribe
        co_wf_start_topic co_wf_stop_topic co_wf_handle_destroy split: prod.splits)

section \<open>What the main loop keeps\<close>

fun requests_of :: "co_event \<Rightarrow> request list" where
  "requests_of (EvRequest r _) = [r]"
| "requests_of _ = []"

fun restarts :: "co_event \<Rightarrow> bool" where
  "restarts (EvRequest _ req) = is_restart req"
| "restarts _ = False"

lemma accounted_same: "account co' = account co \<Longrightarrow> accounted co {#} b co'"
  by (simp add: accounted_def)

lemma account_event:
  assumes "handle_event env ops ev co = (res, co')" "co_wf co"
  shows "accounted co (mset (requests_of ev)) (is_ok res \<and> \<not> restarts ev \<and> fresh_for env co) co'"
proof (cases "\<exists>r req. ev = EvRequest r req")
  case True
  then obtain r req where ev: "ev = EvRequest r req" by blast
  obtain x where x: "handle_request env ops r req co = (x, co')" "res = and_then x (\<lambda>_. Ok NoReply)"
    using assms(1) ev by (auto simp: Let_def split: prod.splits)
  have "is_ok res = is_ok x" by (simp add: x(2)) (cases x; simp)
  then show ?thesis using account_request[OF x(1)] ev by simp
next
  case False
  have "hm_wf (co_running co)" "hm_wf (co_running_builds co)" "\<forall>c \<in> snd ` set (co_finished_builds co). waiters c = []"
    using assms(2) is_cached_waiters by (auto simp: co_wf_def list_all_iff)
  then have "account co' = account co" using False assms(1)
    by (cases ev)
      (auto simp: Let_def account_finished_on_daemon account_heartbeat_interval account_daemon_heartbeat daemon_exit_def
        account_log_event account_topic_data account_node_metrics account_build_result account_spawn_result
        account_status_report account_ack
        dest: account_register account_ready_on_daemon account_log_subscribe account_build_log_subscribe
          account_start_topic account_stop_topic account_handle_destroy split: prod.splits)
  moreover have "requests_of ev = []" using False by (cases ev) auto
  ultimately show ?thesis by (simp add: accounted_same)
qed

lemma co_wf_start: "co_wf (coordinator_start env ops s)"
  by (simp add: co_wf_def coordinator_start_def names_unique_def)

lemma event_loop_keeps:
  assumes "event_loop ops evs co = (res, co')" "co_wf co"
  shows "co_wf co' \<and> account co' \<subseteq># account co + mset (concat (map (requests_of \<circ> snd) evs))"
  using assms
proof (induction evs arbitrary: co)
  case (Cons x evs)
  obtain env ev where x: "x = (env, ev)" by (cases x)
  obtain y co1 where y: "handle_event env ops ev co = (y, co1)" by fastforce
  have w: "co_wf co1" by (rule co_wf_event[OF y Cons.prems(2)])
  have a: "account co1 \<subseteq># account co + mset (requests_of ev)" using account_event[OF y Cons.prems(2)] by (simp add: accounted_def)
  show ?case
  proof (cases "co_aborted co \<or> \<not> is_ok y")
    case True
    then have "co' = co \<or> co' = co1" using Cons.prems(1) x y by (auto split: if_splits outcome.splits)
    then show ?thesis using Cons.prems(2) w a x
      by (auto intro: subset_mset.order_trans[OF _ mset_subset_eq_add_left] simp: add.assoc[symmetric])
  next
    case False
    then have "event_loop ops evs co1 = (res, co')" using Cons.prems(1) x y by (auto simp: is_ok_iff)
    then have "co_wf co' \<and> account co' \<subseteq># account co1 + mset (concat (map (requests_of \<circ> snd) evs))"
      using Cons.IH w by blast
    moreover have "account co1 + mset (concat (map (requests_of \<circ> snd) evs)) \<subseteq>#
        account co + mset (concat (map (requests_of \<circ> snd) (x # evs)))"
      using a x by (simp add: add.assoc[symmetric])
    ultimately show ?thesis using subset_mset.order_trans by blast
  qed
qed simp

definition waiting :: "'s coordinator \<Rightarrow> request multiset" where
  "waiting co = sum_of build_waiters (co_running_builds co) + sum_of cached_waiters (co_finished_builds co) +
     sum_of df_waiters (co_running co)"

lemma account_split: "account co = mset (map fst (co_answers co)) + waiting co"
  by (simp add: account_def waiting_def ac_simps)

lemma at_most_once:
  assumes "mset xs + W \<subseteq># mset rs" "distinct rs"
  shows "distinct xs \<and> set xs \<inter> set_mset W = {} \<and> set xs \<subseteq> set rs"
proof -
  obtain N where N: "mset rs = mset xs + W + N" using assms(1) by (auto simp: subset_mset.le_iff_add)
  obtain ws ns where ws: "mset ws = W" "mset ns = N" using ex_mset by metis
  have eq: "mset rs = mset (xs @ ws @ ns)" by (simp add: N ws)
  show ?thesis using mset_eq_imp_distinct_iff[OF eq] mset_eq_setD[OF eq] assms(2) by (auto simp flip: ws(1))
qed

text \<open>
  C4. Whatever events arrive, in any order and with any failures of daemons, clients and the store, the
  state of the coordinator keeps its shape: the maps have no duplicate keys and the ordered ones are
  sorted, each dataflow is filed under its own identifier, no two running dataflows share a name, no
  daemon has acknowledged more state changes than there are, finished builds have a result, and the
  buffers, the archive and the log of state changes stay within their limits.
\<close>
theorem coordinator_state_wf:
  assumes "event_loop ops evs (coordinator_start env ops s) = (res, co)"
  shows "co_wf co"
  using event_loop_keeps[OF assms co_wf_start] by blast

theorem coordinator_state_wf_witness:
  "co_wf (snd (event_loop mem_ops
     [(sample_env, EvRegister None None [] True), (sample_env, EvRequest 1 ReqList)]
     (coordinator_start sample_env mem_ops in_memory_new)))"
  by (rule coordinator_state_wf[OF prod.collapse[symmetric]])

text \<open>
  C3. A request of the command line is answered at most once, no request that was answered still waits
  somewhere, and only requests that were made are answered.
\<close>
theorem requests_answered_once:
  assumes run: "event_loop ops evs (coordinator_start env ops s) = (res, co)"
    and reqs: "rs = concat (map (requests_of \<circ> snd) evs)" "distinct rs"
  shows "distinct (map fst (co_answers co)) \<and> set (map fst (co_answers co)) \<inter> set_mset (waiting co) = {} \<and>
         set (map fst (co_answers co)) \<subseteq> set rs"
proof -
  have "account (coordinator_start env ops s) = {#}" by (simp add: account_def coordinator_start_def)
  then have "mset (map fst (co_answers co)) + waiting co \<subseteq># mset rs"
    using event_loop_keeps[OF run co_wf_start] reqs(1) by (simp add: account_split)
  then show ?thesis using at_most_once[OF _ reqs(2)] by blast
qed

theorem requests_answered_once_witness:
  "distinct (map fst (co_answers (snd (event_loop mem_ops
      [(sample_env, EvRequest 1 ReqList), (sample_env, EvRequest 2 (ReqWaitForSpawn 5))]
      (coordinator_start sample_env mem_ops in_memory_new)))))"
  by (rule conjunct1[OF requests_answered_once[OF prod.collapse[symmetric] refl]]) simp

text \<open>
  C17. No request is lost: after an event it is answered, or it is kept with the build or the dataflow it
  asks about. The exception is a restart, which drops the requests that wait for the old dataflow.
\<close>
theorem request_answered_or_waits:
  assumes "co_wf co" "fresh_for env co" "\<not> restarts ev" "handle_event env ops ev co = (Ok x, co')"
  shows "mset (map fst (co_answers co')) + waiting co' =
         mset (map fst (co_answers co)) + waiting co + mset (requests_of ev)"
  using account_event[OF assms(4,1)] assms(2,3) by (simp add: accounted_def account_split)

theorem request_answered_or_waits_witness:
  "let co = set_running 7 sample_dataflow (sample_coordinator in_memory_new)
   in waiting (snd (handle_event sample_env mem_ops (EvRequest 1 (ReqWaitForSpawn 7)) co)) = {#1#}"
proof -
  let ?co = "set_running 7 sample_dataflow (sample_coordinator in_memory_new)"
  have "co_wf ?co" by code_simp
  moreover have "fresh_for sample_env ?co" by (simp add: fresh_for_def set_running_def sample_coordinator_def sample_env_def)
  moreover have "co_answers (wait_for_spawn 1 7 ?co) = []" "co_answers ?co = []" "waiting ?co = {#}"
    by (simp_all add: wait_for_spawn_def set_running_def sample_coordinator_def sample_dataflow_def cached_default_def
        waiting_def df_waiters_def)
  ultimately show ?thesis
    using request_answered_or_waits[of ?co sample_env "EvRequest 1 (ReqWaitForSpawn 7)" mem_ops NoReply "wait_for_spawn 1 7 ?co"]
    by (simp add: Let_def)
qed

end
