(* ===== verification/Coordinator_Behaviour.thy ===== *)
theory Coordinator_Behaviour
  imports Coordinator_Invariants
begin

text \<open>
  What the coordinator relies on in its store (the locale \<open>dataflow_store\<close>, interpreted on both stores), and
  what its main loop does over one or two events: the end of a dataflow, and the cases where it falls short (stops of half-finished dataflows, daemons that vanish during the start,
  mixed results of a spawn, invalid names in requests, and connections that are replaced).
\<close>

section \<open>What the coordinator relies on in its store\<close>

definition record_of :: "co_env \<Rightarrow> stored_status \<Rightarrow> co_dataflow \<Rightarrow> string \<Rightarrow> dataflow_record" where
  "record_of env st df json =
     \<lparr>dr_uuid = cd_uuid df, dr_name = cd_name df, dr_descriptor_json = json, dr_status = truncate_status st,
      dr_daemon_ids = cd_daemons df,
      dr_node_to_daemon = bt_collect (map (\<lambda>(n, d). (node_name n, e_show_daemon env d)) (cd_node_to_daemon df)),
      dr_uv = cd_uv df, dr_generation = cd_store_generation df + 1, dr_created_at = cd_created_at df,
      dr_updated_at = e_now_ms env\<rparr>"

lemma persist_stores:
  "e_to_json env (cd_descriptor df) = Some json \<Longrightarrow>
   persist env ops st df s = (df\<lparr>cd_store_generation := cd_store_generation df + 1\<rparr>,
     snd (so_put_dataflow ops (record_of env st df json) s))"
  by (simp add: persist_def make_record_def record_of_def Let_def)

text \<open>
  After a write that succeeds, a lookup gives the record that was written, and other dataflows are as
  they were. Both stores keep this promise: the one in memory, and the database for any table,
  any injective form of a UUID and any encoding that decodes what it encoded.
\<close>

locale dataflow_store =
  fixes ops :: "'s store_ops"
  assumes get_put: "fst (so_put_dataflow ops r s) = Ok () \<Longrightarrow>
    so_get_dataflow ops u (snd (so_put_dataflow ops r s)) = (if u = dr_uuid r then Ok (Some r) else so_get_dataflow ops u s)"
begin

lemma get_written:
  assumes "fst (so_put_dataflow ops r s) = Ok ()"
  shows "so_get_dataflow ops (dr_uuid r) (snd (so_put_dataflow ops r s)) = Ok (Some r)"
  by (simp add: get_put[OF assms])

end

lemma redb_dataflow_store:
  assumes "key_table T entries" "inj (as_bytes U)" "\<And>x b. enc rc x = Some b \<Longrightarrow> dec rc b = Some x"
  shows "dataflow_store (redb_ops True T U ic dc rc)"
proof
  fix r s u assume "fst (so_put_dataflow (redb_ops True T U ic dc rc) r s) = Ok ()"
  then obtain b where b: "enc rc r = Some b"
    by (cases "enc rc r") (auto simp: redb_ops_def redb_put_dataflow_def store_encode_def)
  then show "so_get_dataflow (redb_ops True T U ic dc rc) u (snd (so_put_dataflow (redb_ops True T U ic dc rc) r s)) =
      (if u = dr_uuid r then Ok (Some r) else so_get_dataflow (redb_ops True T U ic dc rc) u s)"
    using assms(2) assms(3)[OF b]
    by (auto simp: redb_ops_def redb_put_dataflow_def redb_get_dataflow_def redb_read_def get_table_def store_encode_def
        store_decode_def transaction_def key_table.get_entries[OF assms(1)] key_table.entries_insert[OF assms(1)] inj_eq)
qed

interpretation mem: dataflow_store mem_ops
  by unfold_locales (auto simp: mem_ops_def mem_put_dataflow_def mem_get_dataflow_def)

interpretation database: dataflow_store "redb_ops True rbt_table decimal_uuids ic dc sample_codec" for ic dc
  by (rule redb_dataflow_store[OF rbt_keys.key_table_axioms])
    (auto simp: decimal_uuids_def sample_codec_def intro: injI show_nat_inj split: if_splits)

section \<open>The end of a dataflow\<close>

lemma archive_keeps:
  assumes "length as \<le> MAX_ARCHIVED_DATAFLOWS"
  shows "map_of (archive u x as) u \<noteq> None"
proof (cases "map_of as u")
  case None
  have "archive u x as = drop (length as + 1 - MAX_ARCHIVED_DATAFLOWS) as @ [(u, archived_of x)]"
    using None assms by (auto simp: archive_def keep_newest_def MAX_ARCHIVED_DATAFLOWS_def)
  then show ?thesis by (auto simp: map_add_def split: option.splits)
next
  case (Some y)
  then show ?thesis using assms by (simp add: archive_def keep_newest_def)
qed

lemma finish_dataflow_effect:
  assumes res: "map_of (co_results co) u = Some rs" and json: "e_to_json env (cd_descriptor df) = Some json"
    and co': "co' = co_finish_dataflow env ops u df co"
  shows "co_running co' = hm_remove u (co_running co)" "co_archived co' = archive u df (co_archived co)"
    "\<exists>r. co_store co' = snd (so_put_dataflow ops r (co_store co)) \<and> dr_uuid r = cd_uuid df \<and>
       dr_status r = truncate_status (final_status rs)"
    "co_answers co' = co_answers co @
      map (\<lambda>r. (r, Ok (DataflowStopped u (dataflow_result rs)))) (cd_stop_reply_senders df) @
      map (\<lambda>r. (r, Err (ExitedBeforeSpawn (node_errors rs)))) (waiters (cd_spawn_result df))"
proof -
  have spawn: "fst (cached_set_result x c) = map (\<lambda>r. (r, x)) (waiters c)" for x c by (cases c) auto
  obtain subs lines where l: "send_log_message (e_chan env) (finished_message (cd_uuid df)) (cd_log_subscribers df) = (subs, lines)"
    by fastforce
  note eq = co'[unfolded co_finish_dataflow_def res option.case Let_def]
  show "co_running co' = hm_remove u (co_running co)" "co_archived co' = archive u df (co_archived co)"
    unfolding eq by (simp_all split: prod.splits)
  show "\<exists>r. co_store co' = snd (so_put_dataflow ops r (co_store co)) \<and> dr_uuid r = cd_uuid df \<and>
       dr_status r = truncate_status (final_status rs)"
    unfolding eq
    by (rule exI[of _ "record_of env (final_status rs) ((close_topic_subscribers_on_finish df)\<lparr>cd_log_subscribers := subs\<rparr>) json"])
      (simp add: l persist_stores json close_topic_subscribers_on_finish_def record_of_def)
  show "co_answers co' = co_answers co @
      map (\<lambda>r. (r, Ok (DataflowStopped u (dataflow_result rs)))) (cd_stop_reply_senders df) @
      map (\<lambda>r. (r, Err (ExitedBeforeSpawn (node_errors rs)))) (waiters (cd_spawn_result df))"
    unfolding eq by (simp add: l persist_stores json close_topic_subscribers_on_finish_def finished_result_def res spawn)
qed

text \<open>
  C11. When the last daemon reports that a dataflow has finished, the coordinator forgets the running
  dataflow, keeps its name and nodes in the archive, stores the final status, which a later lookup
  gives (failed exactly if a node on some daemon failed, with the errors of all nodes, cut to the
  limit), and answers every request that waits for the stop with the results of all daemons and every
  request that still waits for the spawn with an error.
\<close>
theorem last_daemon_completes:
  assumes wf: "co_wf co" and df: "map_of (co_running co) u = Some df" "cd_daemons df = [d]"
    and json: "e_to_json env (cd_descriptor df) = Some json"
    and rs: "rs = bt_insert d result (case map_of (co_results co) u of None \<Rightarrow> [] | Some r \<Rightarrow> r)"
    and co': "co' = finished_on_daemon env ops u d result co"
  shows "map_of (co_running co') u = None \<and> map_of (co_archived co') u \<noteq> None \<and>
    (\<exists>r. co_store co' = snd (so_put_dataflow ops r (co_store co)) \<and> dr_uuid r = u \<and>
       dr_status r = (if node_errors rs = [] then StSucceeded
                      else StFailed (truncate_str MAX_ERROR_BYTES (join_str ''; '' (node_errors rs)))) \<and>
       (dataflow_store ops \<longrightarrow> fst (so_put_dataflow ops r (co_store co)) = Ok () \<longrightarrow>
         so_get_dataflow ops u (co_store co') = Ok (Some r))) \<and>
    co_answers co' = co_answers co @
      map (\<lambda>r. (r, Ok (DataflowStopped u (dataflow_result rs)))) (cd_stop_reply_senders df) @
      map (\<lambda>r. (r, Err (ExitedBeforeSpawn (node_errors rs)))) (waiters (cd_spawn_result df))"
proof -
  let ?df1 = "df\<lparr>cd_daemons := bs_remove d (cd_daemons df)\<rparr>"
  let ?co1 = "co\<lparr>co_results := hm_entry u [] (bt_insert d result) (co_results co)\<rparr>"
  have res: "map_of (co_results ?co1) u = Some rs" by (simp add: rs)
  have co'_eq: "co' = co_finish_dataflow env ops u ?df1 ?co1"
    using df by (simp add: co' finished_on_daemon_def bs_remove_def)
  have u: "cd_uuid df = u" using co_wf_df[OF wf df(1)] by (simp add: df_wf_def)
  have json1: "e_to_json env (cd_descriptor ?df1) = Some json" using json by simp
  note eff = finish_dataflow_effect[OF res json1 co'_eq]
  have "length (co_archived ?co1) \<le> MAX_ARCHIVED_DATAFLOWS" using wf by (simp add: co_wf_def)
  then have "map_of (co_archived co') u \<noteq> None" unfolding eff(2) by (rule archive_keeps)
  moreover obtain r where r: "co_store co' = snd (so_put_dataflow ops r (co_store co))" "dr_uuid r = u"
      "dr_status r = truncate_status (final_status rs)" using eff(3) u by auto
  moreover have "so_get_dataflow ops u (co_store co') = Ok (Some r)"
    if "dataflow_store ops" "fst (so_put_dataflow ops r (co_store co)) = Ok ()"
    using dataflow_store.get_written[OF that] r by simp
  moreover have "truncate_status (final_status rs) = (if node_errors rs = [] then StSucceeded
      else StFailed (truncate_str MAX_ERROR_BYTES (join_str ''; '' (node_errors rs))))"
    by (simp add: final_status_def)
  ultimately show ?thesis using eff(1,4) by auto
qed

definition json_env :: co_env where
  "json_env = sample_env\<lparr>e_to_json := \<lambda>_. Some ''{}''\<rparr>"

definition ending_dataflow :: co_dataflow where
  "ending_dataflow = sample_dataflow\<lparr>cd_daemons := [(None, 1)], cd_stop_reply_senders := [3]\<rparr>"

theorem last_daemon_completes_witness:
  "let co' = finished_on_daemon json_env mem_ops 7 (None, 1) [(NodeId ''a'', Some ''boom'')]
       (set_running 7 ending_dataflow (sample_coordinator in_memory_new))
   in co_answers co' = [(3, Ok (DataflowStopped 7 [(NodeId ''a'', Some ''boom'')]))] \<and>
      (\<exists>r e. so_get_dataflow mem_ops 7 (co_store co') = Ok (Some r) \<and> dr_status r = StFailed e)"
proof -
  let ?co = "set_running 7 ending_dataflow (sample_coordinator in_memory_new)"
  have wf: "co_wf ?co" by code_simp
  have df: "map_of (co_running ?co) 7 = Some ending_dataflow" "cd_daemons ending_dataflow = [(None, 1)]"
    by (simp_all add: set_running_def ending_dataflow_def)
  have json: "e_to_json json_env (cd_descriptor ending_dataflow) = Some ''{}''" by (simp add: json_env_def)
  have ok: "fst (so_put_dataflow mem_ops r s) = Ok ()" for r s by (simp add: mem_ops_def)
  have "co_answers ?co = []" "map_of (co_results ?co) 7 = None" "cd_stop_reply_senders ending_dataflow = [3]"
    "cd_spawn_result ending_dataflow = PendingResult []"
    by (simp_all add: set_running_def sample_coordinator_def ending_dataflow_def sample_dataflow_def cached_default_def)
  then show ?thesis
    using last_daemon_completes[OF wf df json refl refl, where result = "[(NodeId ''a'', Some ''boom'')]" and ops = mem_ops]
      mem.dataflow_store_axioms
    by (auto simp: Let_def ok node_errors_def dataflow_result_def)
qed

section \<open>Where the main loop does less than it should\<close>

text \<open>
  C29. A dataflow that runs on several daemons cannot be stopped once it has finished on one of them. The
  stop is answered at once with the results so far, as if the dataflow had stopped, no daemon gets a
  command, and the dataflow keeps running on the others.
\<close>
theorem stop_skips_running_daemons:
  assumes df: "map_of (co_running co) u = Some df" "d' \<in> set (cd_daemons df)" "d' \<noteq> d"
    and fin: "handle_event env ops (EvFinishedOnDaemon u d result) co = (x, co1)"
    and stop: "handle_event env' ops (EvRequest r (ReqStop u grace force)) co1 = (y, co2)"
  shows "\<exists>rs df'. co_answers co2 = co_answers co @ [(r, Ok (DataflowStopped u rs))] \<and> co_sent co2 = co_sent co \<and>
           map_of (co_running co2) u = Some df' \<and> d' \<in> set (cd_daemons df')"
proof -
  have left: "d' \<in> set (bs_remove d (cd_daemons df))" using df by (simp add: bs_remove_def)
  then have "bs_remove d (cd_daemons df) \<noteq> []" by (metis empty_iff empty_set)
  then have co1: "co1 = set_running u (df\<lparr>cd_daemons := bs_remove d (cd_daemons df)\<rparr>)
      (co\<lparr>co_results := hm_entry u [] (bt_insert d result) (co_results co)\<rparr>)"
    using fin df(1) by (simp add: finished_on_daemon_def Let_def)
  then have "map_of (co_results co1) u \<noteq> None" by (simp add: set_running_def)
  then obtain rs where "map_of (co_results co1) u = Some rs" by blast
  then have "co2 = answer r (Ok (DataflowStopped u (dataflow_result rs))) co1"
    using stop by (simp add: stop_request_def)
  then show ?thesis using co1 left by (auto simp: answer_def set_running_def)
qed

theorem stop_skips_running_daemons_witness:
  "let co = set_running 7 sample_dataflow (sample_coordinator in_memory_new);
       co1 = snd (handle_event sample_env mem_ops (EvFinishedOnDaemon 7 (None, 1) []) co);
       co2 = snd (handle_event sample_env mem_ops (EvRequest 5 (ReqStop 7 None False)) co1)
   in co_sent co2 = [] \<and> (\<exists>df. map_of (co_running co2) 7 = Some df \<and> (None, 2) \<in> set (cd_daemons df))"
proof -
  let ?co = "set_running 7 sample_dataflow (sample_coordinator in_memory_new)"
  have "map_of (co_running ?co) 7 = Some sample_dataflow" "(None, 2) \<in> set (cd_daemons sample_dataflow)"
    "(None, 2) \<noteq> ((None, 1) :: daemon_id)" "co_sent ?co = []"
    by (simp_all add: set_running_def sample_dataflow_def sample_coordinator_def)
  from stop_skips_running_daemons[OF this(1-3) prod.collapse[symmetric] prod.collapse[symmetric],
      where env = sample_env and ops = mem_ops and result = "[]" and env' = sample_env and r = 5 and grace = None and force = False] this(4)
  show ?thesis unfolding Let_def by auto
qed



text \<open>
  C33. When one daemon fails to spawn its nodes and the last one succeeds, the stored status of the
  dataflow is running again, although the requests that waited for the spawn were told that it failed.
  This holds for every store that gives back what was written, when the writes succeed.
\<close>
theorem failed_spawn_recorded_running:
  assumes store: "dataflow_store ops" "\<And>r s. fst (so_put_dataflow ops r s) = Ok ()"
    and df: "map_of (co_running co) u = Some df" "cd_uuid df = u" "cd_pending_spawn_results df = [d1, d2]" "d1 \<noteq> d2"
      "cd_spawn_result df = PendingResult rs"
    and json: "e_to_json env1 (cd_descriptor df) = Some j1" "e_to_json env2 (cd_descriptor df) = Some j2"
    and fail: "handle_event env1 ops (EvSpawnResult u d1 (Some e)) co = (x, co1)"
    and ok: "handle_event env2 ops (EvSpawnResult u d2 None) co1 = (y, co2)"
  shows "co_answers co2 = co_answers co @ map (\<lambda>r. (r, Err (SpawnFailedOn e))) rs \<and>
    (\<exists>r. so_get_dataflow ops u (co_store co1) = Ok (Some r) \<and> dr_status r = truncate_status (StFailed (''spawn failed: '' @ e))) \<and>
    (\<exists>r. so_get_dataflow ops u (co_store co2) = Ok (Some r) \<and> dr_status r = StRunning)"
proof -
  let ?df1 = "df\<lparr>cd_pending_spawn_results := [d2]\<rparr>"
  have r1: "bs_remove d1 [d1, d2] = [d2]" "bs_remove d2 [d2] = []" using df(4) by (auto simp: bs_remove_def)
  have put: "so_get_dataflow ops u (snd (so_put_dataflow ops r s)) = Ok (Some r)" if "dr_uuid r = u" for r s
    using that dataflow_store.get_written[OF store] by blast
  let ?s1 = "snd (so_put_dataflow ops (record_of env1 (StFailed (''spawn failed: '' @ e)) ?df1 j1) (co_store co))"
  let ?df2 = "?df1\<lparr>cd_store_generation := cd_store_generation df + 1, cd_spawn_result := Cached (Err (SpawnFailedOn e))\<rparr>"
  have co1: "co1 = set_running u ?df2 (co\<lparr>co_store := ?s1, co_answers := co_answers co @ map (\<lambda>r. (r, Err (SpawnFailedOn e))) rs\<rparr>)"
    using fail df(1,3,5) json(1) by (simp add: spawn_result_def r1 persist_stores)
  let ?df3 = "?df2\<lparr>cd_pending_spawn_results := []\<rparr>"
  have run: "map_of (co_running co1) u = Some ?df2" unfolding co1 by (simp add: set_running_def)
  have co2: "co_answers co2 = co_answers co1" "co_store co2 = snd (so_put_dataflow ops (record_of env2 StRunning ?df3 j2) (co_store co1))"
    using ok run json(2) by (auto simp: spawn_result_def r1 persist_stores set_running_def record_of_def)
  have "so_get_dataflow ops u (co_store co1) = Ok (Some (record_of env1 (StFailed (''spawn failed: '' @ e)) ?df1 j1))"
    unfolding co1 set_running_def by (simp add: put record_of_def df(2))
  moreover have "so_get_dataflow ops u (co_store co2) = Ok (Some (record_of env2 StRunning ?df3 j2))"
    unfolding co2 by (rule put) (simp add: record_of_def df(2))
  ultimately show ?thesis using co2(1) by (simp add: record_of_def co1 set_running_def)
qed

theorem failed_spawn_recorded_running_witness:
  "let co = set_running 7 (sample_dataflow\<lparr>cd_spawn_result := PendingResult [4]\<rparr>) (sample_coordinator in_memory_new);
       co1 = snd (handle_event json_env mem_ops (EvSpawnResult 7 (None, 1) (Some ''no space'')) co);
       co2 = snd (handle_event json_env mem_ops (EvSpawnResult 7 (None, 2) None) co1)
   in co_answers co2 = [(4, Err (SpawnFailedOn ''no space''))] \<and>
      (\<exists>r. so_get_dataflow mem_ops 7 (co_store co2) = Ok (Some r) \<and> dr_status r = StRunning)"
proof -
  let ?df = "sample_dataflow\<lparr>cd_spawn_result := PendingResult [4]\<rparr>"
  let ?co = "set_running 7 ?df (sample_coordinator in_memory_new)"
  have ok: "fst (so_put_dataflow mem_ops r s) = Ok ()" for r s by (simp add: mem_ops_def)
  have "map_of (co_running ?co) 7 = Some ?df" "cd_uuid ?df = 7" "cd_pending_spawn_results ?df = [(None, 1), (None, 2)]"
    "(None, 1) \<noteq> ((None, 2) :: daemon_id)" "cd_spawn_result ?df = PendingResult [4]"
    "e_to_json json_env (cd_descriptor ?df) = Some ''{}''" "co_answers ?co = []"
    by (simp_all add: set_running_def sample_dataflow_def sample_coordinator_def json_env_def)
  from failed_spawn_recorded_running[OF mem.dataflow_store_axioms ok this(1-6,6) prod.collapse[symmetric] prod.collapse[symmetric], of "''no space''"] this(7)
  show ?thesis unfolding Let_def by auto
qed

text \<open>
  C34. A request for the logs of a node carries the name of the node as plain text. A name that is no
  valid node identifier makes the conversion panic, which ends the main loop of the coordinator: the
  request gets no answer, and neither does any later one.
\<close>
theorem logs_of_invalid_name_panic:
  assumes "\<not> valid_node_id n" "\<not> co_aborted co"
  shows "event_loop ops ((env, EvRequest r (ReqLogs (Some u) nm n k)) # evs) co = (Panic, co)"
proof -
  have p: "node_id_from n = (Panic :: (co_error, node_id) outcome)" using assms(1) by simp
  have "logs_request env (Some u) nm n k co = (Panic, co)"
    unfolding logs_request_def by (simp only: option.case outcome.case p)
  then show ?thesis using assms(2) by (simp add: respond_def)
qed

theorem logs_of_invalid_name_panic_witness:
  "event_loop mem_ops
     [(sample_env, EvRequest 1 (ReqLogs (Some 7) None ''my node'' None)), (sample_env, EvRequest 2 ReqList)]
     (sample_coordinator in_memory_new) = (Panic, sample_coordinator in_memory_new)"
proof -
  have "\<not> valid_node_id ''my node''" "\<not> co_aborted (sample_coordinator in_memory_new)"
    by code_simp+
  from logs_of_invalid_name_panic[OF this] show ?thesis .
qed

text \<open>
  C32. A daemon that reconnects under its machine name gets the identifier it had before. When the old
  connection is closed only afterwards, the exit that is reported for it removes the new connection:
  the coordinator knows the daemon no longer, although it is connected.
\<close>
theorem late_exit_drops_new_connection:
  assumes conn: "bt_wf (co_connections co)" "get_matching_daemon_id m (co_connections co) = Some d"
    and again: "handle_event env ops (EvRegister (Some m) None ls True) co = (x, co1)"
    and exit: "handle_event env' ops (EvDaemonExit d) co1 = (y, co2)"
  shows "x = Ok (Assigned (Some d)) \<and>
         map_of (co_connections co1) d = Some (daemon_connection_new (e_now env) ls) \<and>
         map_of (co_connections co2) d = None"
proof -
  have co1: "x = Ok (Assigned (Some d))" "co_connections co1 = bt_insert d (daemon_connection_new (e_now env) ls) (co_connections co)"
    using again conn(2) by (auto simp: register_daemon_def Let_def conn_add_def emit_def)
  moreover have "co_connections co2 = bt_remove d (co_connections co1)" using exit by (auto simp: daemon_exit_def)
  ultimately show ?thesis using conn(1) by (auto simp: bt_remove_def map_of_eq_None_iff)
qed

theorem late_exit_drops_new_connection_witness:
  "let co1 = snd (handle_event sample_env mem_ops (EvRegister (Some ''gpu'') None [] True) (sample_coordinator in_memory_new));
       co2 = snd (handle_event sample_env mem_ops (EvDaemonExit (Some ''gpu'', 2)) co1)
   in map_of (co_connections co1) (Some ''gpu'', 2) = Some (daemon_connection_new 0 []) \<and>
      map_of (co_connections co2) (Some ''gpu'', 2) = None"
proof -
  let ?co = "sample_coordinator in_memory_new"
  have "bt_wf (co_connections ?co)" "get_matching_daemon_id ''gpu'' (co_connections ?co) = Some (Some ''gpu'', 2)"
    by code_simp+
  from late_exit_drops_new_connection[OF this prod.collapse[symmetric] prod.collapse[symmetric], of sample_env mem_ops "[]" sample_env]
  show ?thesis unfolding Let_def by (simp add: sample_env_def)
qed

end
