(* ===== verification/Spec2Isabelle.thy ===== *)
theory Spec2Isabelle
  imports Event_Stream Validate Daemon Coordinator_Behaviour
begin

text \<open>
  A verification development for dora, a framework for dataflows of nodes that exchange messages.
  Paths are relative to \<^verbatim>\<open>src/\<close>.

  \<^bold>\<open>The parts of the program.\<close> The command line reads a dataflow descriptor, expands its modules and
  checks it. It sends requests to the coordinator, which knows the daemons (one for each machine), asks
  them to build, spawn and stop the nodes of a dataflow, and keeps records in a store. A daemon starts
  the node processes, holds them back at a barrier until all are ready, routes outputs to the inputs
  that read them, restarts nodes that fail, and reports the end of the dataflow. The library inside a
  node receives the events of the daemon in a stream and chooses which one the node sees next.

  \<^bold>\<open>Foundations.\<close>
  \<^item> \<open>Prelude\<close>: outcomes of Rust functions (\<open>Ok\<close>, \<open>Err\<close>, \<open>Panic\<close>) with their composition, strings as
    lists of bytes. An error that is returned and a panic are different values everywhere.
  \<^item> \<open>Std_Maps\<close>: the maps and sets of the standard library. The locales \<open>kv_map\<close> and \<open>sorted_map\<close> are their
    contract, interpreted on the ordered and on the unordered map of the model.
  \<^item> \<open>Float64\<close>: double-precision numbers rounded as IEEE 754 prescribes, and durations.

  \<^bold>\<open>Descriptors and their checks.\<close>
  \<^item> \<open>Ids\<close> (\<^verbatim>\<open>libraries/message/src/id.rs\<close>), \<open>Config\<close> (\<^verbatim>\<open>config.rs\<close>, \<^verbatim>\<open>common.rs\<close>):
    identifiers, and input mappings with their textual form; printing and parsing are inverse exactly on
    the mappings that can be printed.
  \<^item> \<open>Descriptor\<close> (\<^verbatim>\<open>libraries/message/src/descriptor.rs\<close>,
    \<^verbatim>\<open>libraries/core/src/descriptor/mod.rs\<close>): the structures, aliases and defaults.
  \<^item> \<open>Expand\<close> (\<^verbatim>\<open>descriptor/expand.rs\<close>): modules. Expansion returns, never panics on valid
    identifiers, leaves no module, and wires every input to the node that produces its output.
  \<^item> \<open>Types\<close> (\<^verbatim>\<open>libraries/core/src/types.rs\<close>): the search for conversions is equivalent to a
    declarative relation, and the table of edit distances gives the least number of edits.
  \<^item> \<open>Validate\<close> (\<^verbatim>\<open>descriptor/validate.rs\<close>): the wiring check accepts exactly the well-wired
    dataflows, the type check is silent exactly on the well-annotated ones.

  \<^bold>\<open>The node.\<close>
  \<^item> \<open>Messages\<close> (\<^verbatim>\<open>metadata.rs\<close>, \<^verbatim>\<open>daemon_to_node.rs\<close>): what a node receives.
  \<^item> \<open>Scheduler\<close> (\<^verbatim>\<open>apis/rust/node/src/event_stream/scheduler.rs\<close>): bounded queues, protection of
    correlated messages, and fairness, proved in the locale \<open>lru_service\<close>.
  \<^item> \<open>Event_Stream\<close> (\<^verbatim>\<open>event_stream/mod.rs\<close>, \<^verbatim>\<open>thread.rs\<close>,
    \<^verbatim>\<open>input_tracker.rs\<close>): receiving, draining, waiting for a correlated event, input health.

  \<^bold>\<open>The daemon\<close> (\<^verbatim>\<open>binaries/daemon/src\<close>).
  \<^item> \<open>Pending_Nodes\<close> (\<^verbatim>\<open>pending.rs\<close>, \<^verbatim>\<open>fault_tolerance.rs\<close>): the start barrier as a step
    relation, with safety in every reachable state and its opening once all nodes have reported.
  \<^item> \<open>Running_Dataflow\<close> (\<^verbatim>\<open>running_dataflow.rs\<close>, \<^verbatim>\<open>event_types.rs\<close>): the state of a
    dataflow, with channels and counters as addresses into stores; the headroom of control events.
  \<^item> \<open>Daemon_Routing\<close> (\<^verbatim>\<open>lib.rs\<close>): delivery, drop tokens, closing of inputs, the circuit breaker.
    Invariants of all operations that send are proved once in the locale \<open>send_invariant\<close>.
  \<^item> \<open>Restart\<close> (\<^verbatim>\<open>spawn/prepared.rs\<close>): the restart loop and its limit.
  \<^item> \<open>Daemon\<close> (\<^verbatim>\<open>lib.rs\<close>): the handlers of events, and when a dataflow ends.

  \<^bold>\<open>The coordinator\<close> (\<^verbatim>\<open>binaries/coordinator/src\<close>).
  \<^item> \<open>Coordinator_Store\<close> (\<^verbatim>\<open>libraries/coordinator-store/src\<close>): the store in memory and the one over
    the redb database. Both implement the specification \<open>param_store\<close>, so they agree.
  \<^item> \<open>Coordinator_State\<close> (\<^verbatim>\<open>state.rs\<close>, \<^verbatim>\<open>log_subscriber.rs\<close>,
    \<^verbatim>\<open>topic_subscriber.rs\<close>): connections, results that requests wait for, running dataflows, and
    the log of parameter changes, from which a daemon that was away gets exactly what it missed.
  \<^item> \<open>Coordinator_Handlers\<close> (\<^verbatim>\<open>handlers.rs\<close>, \<^verbatim>\<open>run/mod.rs\<close>): operations on several
    daemons; a spawn succeeds on all or is rolled back.
  \<^item> \<open>Coordinator_Requests\<close> and \<open>Coordinator\<close> (\<^verbatim>\<open>lib.rs\<close>): one definition for each request and
    each event, \<open>handle_event\<close> as the body of the main loop and \<open>event_loop\<close> as the loop.
  \<^item> \<open>Coordinator_Invariants\<close>: the tables keep their shape and bounds in every run, and each request is
    answered at most once. \<open>Coordinator_Behaviour\<close>: the promise of the store (\<open>dataflow_store\<close>,
    interpreted on both stores), the end of a dataflow, and cases where the coordinator does less than
    it should.

  This theory joins the two sides: what the coordinator makes of a daemon that does not reply.

  \<^bold>\<open>How state and effects are modelled.\<close> A struct is a record, an enum a datatype, and a handler a
  function from the state to its result and the new state, so that a handler that fails half-way shows
  what it had done. Messages that leave a component are logs of its state. A loop over events is a
  function of the list of events; each event of the coordinator comes with the record \<open>co_env\<close> of what
  the coordinator learns while it handles it. Tasks that run beside the main loop of the coordinator to
  replay parameters are run at once, at the place where they are spawned.

  \<^bold>\<open>Bounds.\<close> Every function is total and none needs fuel: \<open>expand_module_node\<close> ends because the depth is
  limited (\<open>MAX_MODULE_DEPTH\<close>, 8), \<open>resolve_field_type\<close> likewise (\<open>MAX_TYPE_DEPTH\<close>, 8), \<open>bfs\<close> because
  paths have at most three steps, and \<open>drain_loop\<close> because every round takes an event from a finite
  buffer. The limits of the code are definitions with the values of the code: 1000 events in the channel
  of a node with a headroom of 50, 10000 buffered log messages and logged parameter changes, 200 archived
  dataflows, 100 finished builds, 4096 spans, 256 pending replies. Counters are natural numbers, with the
  width written out where a claim depends on it: the counter of undelivered events wraps at 64 bits, and
  sequence numbers of the log stop there.

  \<^bold>\<open>What is not modelled, and why.\<close>
  \<^item> Sockets and servers (\<^verbatim>\<open>ws_server.rs\<close>, \<^verbatim>\<open>ws_control.rs\<close>,
    \<^verbatim>\<open>ws_daemon.rs\<close>, \<^verbatim>\<open>node_communication\<close>), the Zenoh session, shared memory and
    processes of the operating system: input and output. They appear as events, as parameters (what a
    daemon answers, whether a send succeeds, what a region holds), and as logs.
  \<^item> Serialisation by serde, bincode and YAML: third-party code, as parameters.
  \<^item> The hybrid logical clock, log output, statistics and exporters of metrics: they decide nothing in
    the modelled code.
  \<^item> The command line, the runtime for operators, the bindings for C, C++ and Python, the ROS2 bridge,
    recording and replay, downloads and conversions to Arrow: wrappers around libraries.
\<close>

section \<open>Between the coordinator and a daemon\<close>

text \<open>
  C24. A node that is added to a running dataflow ends up in the daemon and not in the coordinator. The
  daemon starts the node and registers it, but sends no reply to this request, so the coordinator waits
  in vain: the command line gets an error, and the coordinator does not record the node, cannot stop it,
  and would add it a second time. \<open>silence\<close> is the connection between the two: where the daemon hands
  back no reply, the coordinator receives none.
\<close>
theorem added_node_unknown_to_coordinator:
  assumes co: "map_of (co_running co) u = Some df" "first_of (cd_daemons df) = Some d"
      "map_of (co_connections co) d = Some c" "map_of (cd_node_to_daemon df) (id_of nd) = None"
      "resolve_aliases_and_set_defaults (e_ros2_json env) (single_node_descriptor nd) = Ok ((n, rn) # rest)"
    and daemon: "map_of (running dm) u = Some ddf" "(add_node rn proc ddf :: (daemon_error, running_dataflow) outcome) = Ok ddf'"
    and served: "handle_coordinator_event denv senv (CoAddNode u rn (Some proc)) dm = (status, reply, dm')"
    and silence: "reply = NotReplied \<Longrightarrow> e_ask env d (CmdAddNode u rn (cd_uv df)) = NoAnswer"
    and asked: "handle_event env ops (EvRequest r (ReqAddNode u nd)) co = (x, co')"
  shows "map_of (running dm') u = Some ddf' \<and> rn_id rn \<in> fst ` set (running_nodes ddf') \<and>
         co_answers co' = co_answers co @ [(r, Err (AskFailed d))] \<and> map_of (co_running co') u = Some df"
proof -
  have "reply = NotReplied" "dm' = set_dataflow u ddf' dm"
    using served daemon by (simp_all add: handle_coordinator_event_def add_node_request_def)
  moreover have "rn_id rn \<in> fst ` set (running_nodes ddf')"
    using daemon(2) by (auto simp: add_node_def Let_def bt_insert_keys)
  moreover have "co' = answer r (Err (AskFailed d)) (emit d (CmdAddNode u rn (cd_uv df)) co)"
    using asked co silence calculation(1) by (simp add: co_add_node_request_def dispatch_any_def)
  ultimately show ?thesis using co(1) by (simp add: set_dataflow_def answer_def emit_def)
qed

definition silent_env :: co_env where
  "silent_env = sample_env\<lparr>e_ask := \<lambda>_ _. NoAnswer\<rparr>"

theorem added_node_unknown_to_coordinator_witness:
  "let nd = example_node ''late'' ''late.py'' empty_run;
       co = set_running 7 sample_dataflow (sample_coordinator in_memory_new)
   in co_answers (snd (handle_event silent_env mem_ops (EvRequest 4 (ReqAddNode 7 nd)) co)) = [(4, Err (AskFailed (None, 1)))]"
proof -
  let ?nd = "example_node ''late'' ''late.py'' empty_run"
  let ?co = "set_running 7 sample_dataflow (sample_coordinator in_memory_new)"
  obtain rn where rn: "resolve_aliases_and_set_defaults (e_ros2_json silent_env) (single_node_descriptor ?nd) = Ok [(NodeId ''late'', rn)]"
      "rn_kind rn = Custom (custom_of_node ?nd ''late.py'' Local None None empty_run)"
    by (simp add: resolve_aliases_and_set_defaults_def single_node_descriptor_def example_node_def
        resolve_node_def resolve_kind_def kind_of_def standard_source_def alias_run_def alias_inputs_def empty_run_def)
  obtain ddf' where add: "(add_node rn example_running example_df :: (daemon_error, running_dataflow) outcome) = Ok ddf'"
    by (simp add: add_node_def rn(2) custom_of_node_def empty_run_def Let_def)
  obtain status reply dm' where served:
      "handle_coordinator_event example_env example_spawn_env (CoAddNode 7 rn (Some example_running)) (example_daemon example_df) = (status, reply, dm')"
    by (metis surj_pair)
  have running: "map_of (running (example_daemon example_df)) 7 = Some example_df" by simp
  have silence: "e_ask silent_env (None, 1) (CmdAddNode 7 rn (cd_uv sample_dataflow)) = NoAnswer" by (simp add: silent_env_def)
  have "map_of (co_running ?co) 7 = Some sample_dataflow" "first_of (cd_daemons sample_dataflow) = Some (None, 1)"
    "map_of (co_connections ?co) (None, 1) = Some (daemon_connection_new 0 [])"
    "map_of (cd_node_to_daemon sample_dataflow) (id_of ?nd) = None" "co_answers ?co = []"
    by (simp_all add: set_running_def sample_dataflow_def sample_coordinator_def example_node_def first_of_def)
  from added_node_unknown_to_coordinator[OF this(1-4) rn(1) running add served silence prod.collapse[symmetric], of mem_ops 4] this(5)
  show ?thesis unfolding Let_def by simp
qed

end
